(* ===== verification/Prelude.thy ===== *)
theory Prelude
  imports Main "HOL-Library.Word"
begin

text \<open>
  Shared vocabulary of the development.  It fixes how Go values are represented (a
  \<^verbatim>\<open>[]byte\<close> is a list of 8-bit words, a \<^verbatim>\<open>string\<close> a list of characters, each one byte, a
  fallible call a sum whose left side is the error), models the parts of Go's standard
  library several components use (\<^verbatim>\<open>encoding/hex\<close>, \<^verbatim>\<open>strconv\<close>, \<^verbatim>\<open>encoding/binary\<close>,
  \<^verbatim>\<open>unicode/utf8\<close>, \<^verbatim>\<open>strings\<close>) and collects the generic lemmas about them, and it states the
  two interfaces most components are proved against: an encoding no code word of which is
  a prefix of another (\<^verbatim>\<open>prefix_free\<close>), and a transition system with an invariant
  (\<^verbatim>\<open>invariant_system\<close>).
\<close>

named_theorems result_simps "evaluation of the error monad"

unbundle bit_operations_syntax

type_synonym byte = "8 word"
type_synonym bytes = "byte list"
type_synonym u16 = "16 word"
type_synonym u32 = "32 word"
type_synonym u64 = "64 word"

subsection \<open>Fallible calls\<close>

text \<open>
  A Go function returning \<^verbatim>\<open>(T, error)\<close> is a value of \<open>'e + 't\<close>.  \<open>bindR\<close> is the
  \<^verbatim>\<open>if err != nil { return err }\<close> that follows a call.
\<close>

definition bindR :: "'e + 'a \<Rightarrow> ('a \<Rightarrow> 'e + 'b) \<Rightarrow> 'e + 'b" where
  "bindR r f = (case r of Inl e \<Rightarrow> Inl e | Inr x \<Rightarrow> f x)"

definition ensureR :: "bool \<Rightarrow> 'e \<Rightarrow> 'e + unit" where
  "ensureR b e = (if b then Inr () else Inl e)"

primrec mapR :: "('a \<Rightarrow> 'e + 'b) \<Rightarrow> 'a list \<Rightarrow> 'e + 'b list" where
  "mapR f [] = Inr []"
| "mapR f (x # xs) = bindR (f x) (\<lambda>y. bindR (mapR f xs) (\<lambda>ys. Inr (y # ys)))"

primrec eachR :: "('a \<Rightarrow> 'e + unit) \<Rightarrow> 'a list \<Rightarrow> 'e + unit" where
  "eachR f [] = Inr ()"
| "eachR f (x # xs) = bindR (f x) (\<lambda>_. eachR f xs)"

subsection \<open>Text\<close>

definition newline :: char where
  "newline = CHR 0x0A"

definition cutPrefix :: "string \<Rightarrow> string \<Rightarrow> string option" where
  "cutPrefix p s = (if take (length p) s = p then Some (drop (length p) s) else None)"

definition hasPrefix :: "string \<Rightarrow> string \<Rightarrow> bool" where
  "hasPrefix p s \<longleftrightarrow> take (length p) s = p"

definition trimPrefix :: "string \<Rightarrow> string \<Rightarrow> string" where
  "trimPrefix p s = (case cutPrefix p s of Some r \<Rightarrow> r | None \<Rightarrow> s)"

text \<open>
  \<^verbatim>\<open>strings.TrimSpace\<close>: the encodings of the characters \<^verbatim>\<open>unicode.IsSpace\<close> holds of, taken off
  either end.
\<close>

definition spaceChars :: "string list" where
  "spaceChars =
     map (\<lambda>n. [char_of n]) [0x09, 0x0A, 0x0B, 0x0C, 0x0D, 0x20 :: nat]
     @ map (map char_of) [[0xC2, 0x85], [0xC2, 0xA0 :: nat], [0xE1, 0x9A, 0x80], [0xE2, 0x80, 0xA8],
         [0xE2, 0x80, 0xA9], [0xE2, 0x80, 0xAF], [0xE2, 0x81, 0x9F], [0xE3, 0x80, 0x80]]
     @ map (\<lambda>n. [CHR 0xE2, CHR 0x80, char_of n]) [0x80..<0x8B :: nat]"

primrec trimWith :: "nat \<Rightarrow> string list \<Rightarrow> string \<Rightarrow> string" where
  "trimWith 0 ps s = s"
| "trimWith (Suc n) ps s =
     (case find (\<lambda>p. hasPrefix p s) ps of None \<Rightarrow> s | Some p \<Rightarrow> trimWith n ps (drop (length p) s))"

definition trimSpace :: "string \<Rightarrow> string" where
  "trimSpace s =
     (let l = trimWith (length s) spaceChars s
      in rev (trimWith (length l) (map rev spaceChars) (rev l)))"

fun joinLines :: "string list \<Rightarrow> string" where
  "joinLines [] = []"
| "joinLines [l] = l"
| "joinLines (l # ls) = l @ newline # joinLines ls"

text \<open>\<^verbatim>\<open>[]byte(s)\<close> of a Go string, which is a byte sequence.\<close>

definition stringBytes :: "string \<Rightarrow> bytes" where
  "stringBytes s = map (\<lambda>c. of_nat (of_char c)) s"

text \<open>
  \<^verbatim>\<open>utf8.ValidString\<close>: the well-formed sequences of the Unicode standard (no overlong
  form, no surrogate, nothing above U+10FFFF).
\<close>

definition utf8Cont :: "nat \<Rightarrow> bool" where
  "utf8Cont b \<longleftrightarrow> 0x80 \<le> b \<and> b \<le> 0xBF"

fun validUtf8 :: "nat list \<Rightarrow> bool" where
  "validUtf8 [] = True"
| "validUtf8 (b # bs) =
     (if b < 0x80 then validUtf8 bs
      else case bs of
        [] \<Rightarrow> False
      | c # cs \<Rightarrow>
          if 0xC2 \<le> b \<and> b \<le> 0xDF then utf8Cont c \<and> validUtf8 cs
          else case cs of
            [] \<Rightarrow> False
          | d # ds \<Rightarrow>
              if 0xE0 \<le> b \<and> b \<le> 0xEF then
                (if b = 0xE0 then 0xA0 \<le> c \<and> c \<le> 0xBF
                 else if b = 0xED then 0x80 \<le> c \<and> c \<le> 0x9F else utf8Cont c)
                \<and> utf8Cont d \<and> validUtf8 ds
              else case ds of
                [] \<Rightarrow> False
              | e # es \<Rightarrow>
                  0xF0 \<le> b \<and> b \<le> 0xF4
                  \<and> (if b = 0xF0 then 0x90 \<le> c \<and> c \<le> 0xBF
                     else if b = 0xF4 then 0x80 \<le> c \<and> c \<le> 0x8F else utf8Cont c)
                  \<and> utf8Cont d \<and> utf8Cont e \<and> validUtf8 es)"

definition validString :: "string \<Rightarrow> bool" where
  "validString s \<longleftrightarrow> validUtf8 (map of_char s)"

subsection \<open>Decimal and hexadecimal\<close>

definition digitChar :: "nat \<Rightarrow> char" where
  "digitChar d = char_of (48 + d)"

definition isDigit :: "char \<Rightarrow> bool" where
  "isDigit c \<longleftrightarrow> 48 \<le> (of_char c :: nat) \<and> (of_char c :: nat) \<le> 57"

definition digitVal :: "char \<Rightarrow> nat" where
  "digitVal c = of_char c - 48"

text \<open>\<^verbatim>\<open>strconv.FormatUint(n, 10)\<close>.\<close>

fun formatUint :: "nat \<Rightarrow> string" where
  "formatUint n = (if n < 10 then [digitChar n] else formatUint (n div 10) @ [digitChar (n mod 10)])"

declare formatUint.simps [simp del]

definition digitsVal :: "string \<Rightarrow> nat" where
  "digitsVal s = foldl (\<lambda>a c. a * 10 + digitVal c) 0 s"

text \<open>\<^verbatim>\<open>strconv.ParseUint(s, 10, bits)\<close>: digits alone, refusing a value out of range.\<close>

definition parseUint :: "nat \<Rightarrow> string \<Rightarrow> nat option" where
  "parseUint w s =
     (if s \<noteq> [] \<and> list_all isDigit s \<and> digitsVal s < 2 ^ w then Some (digitsVal s) else None)"

definition hexDigit :: "nat \<Rightarrow> char" where
  "hexDigit d = (if d < 10 then char_of (48 + d) else char_of (87 + d))"

text \<open>\<^verbatim>\<open>hex.EncodeToString\<close>: two lowercase digits a byte.\<close>

definition hexByte :: "byte \<Rightarrow> string" where
  "hexByte b = [hexDigit (unat b div 16), hexDigit (unat b mod 16)]"

definition hexEncode :: "bytes \<Rightarrow> string" where
  "hexEncode bs = concat (map hexByte bs)"

definition hexVal :: "char \<Rightarrow> nat option" where
  "hexVal c =
     (let n = of_char c :: nat in
      if 48 \<le> n \<and> n \<le> 57 then Some (n - 48)
      else if 97 \<le> n \<and> n \<le> 102 then Some (n - 87)
      else if 65 \<le> n \<and> n \<le> 70 then Some (n - 55)
      else None)"

datatype hexError = HexInvalidByte char | HexOddLength

text \<open>\<^verbatim>\<open>hex.DecodeString\<close>: either case, an invalid byte reported before an odd length.\<close>

fun hexDecode :: "string \<Rightarrow> hexError + bytes" where
  "hexDecode [] = Inr []"
| "hexDecode [c] = (case hexVal c of None \<Rightarrow> Inl (HexInvalidByte c) | Some _ \<Rightarrow> Inl HexOddLength)"
| "hexDecode (c # d # s) =
     (case hexVal c of
        None \<Rightarrow> Inl (HexInvalidByte c)
      | Some h \<Rightarrow>
          (case hexVal d of
             None \<Rightarrow> Inl (HexInvalidByte d)
           | Some l \<Rightarrow> bindR (hexDecode s) (\<lambda>bs. Inr (of_nat (16 * h + l) # bs))))"

subsection \<open>Fixed-width integers as bytes\<close>

text \<open>\<^verbatim>\<open>binary.BigEndian\<close> and \<^verbatim>\<open>binary.LittleEndian\<close> at width \<open>k\<close> bytes.\<close>

primrec beBytes :: "nat \<Rightarrow> nat \<Rightarrow> bytes" where
  "beBytes 0 n = []"
| "beBytes (Suc k) n = beBytes k (n div 256) @ [of_nat (n mod 256)]"

primrec leBytes :: "nat \<Rightarrow> nat \<Rightarrow> bytes" where
  "leBytes 0 n = []"
| "leBytes (Suc k) n = of_nat (n mod 256) # leBytes k (n div 256)"

definition beVal :: "bytes \<Rightarrow> nat" where
  "beVal bs = foldl (\<lambda>a b. a * 256 + unat b) 0 bs"

subsection \<open>Lemmas: fallible calls\<close>

lemma bindR_Inl [simp, result_simps]: "bindR (Inl e) f = Inl e"
  by (simp add: bindR_def)

lemma bindR_Inr [simp, result_simps]: "bindR (Inr x) f = f x"
  by (simp add: bindR_def)

lemma bindR_eq_Inr: "bindR r f = Inr y \<longleftrightarrow> (\<exists>x. r = Inr x \<and> f x = Inr y)"
  by (cases r) auto

lemma bindR_eq_Inl: "bindR r f = Inl e \<longleftrightarrow> r = Inl e \<or> (\<exists>x. r = Inr x \<and> f x = Inl e)"
  by (cases r) auto

lemma bindR_cong [fundef_cong]:
  "r = r' \<Longrightarrow> (\<And>x. r' = Inr x \<Longrightarrow> f x = g x) \<Longrightarrow> bindR r f = bindR r' g"
  by (cases r') auto

lemma bindR_assoc: "bindR (bindR r f) g = bindR r (\<lambda>x. bindR (f x) g)"
  by (cases r) auto

lemma ensureR_simps [simp, result_simps]:
  "ensureR True e = Inr ()" "ensureR False e = Inl e"
  by (simp_all add: ensureR_def)

lemma ensureR_eq_Inr: "ensureR b e = Inr u \<longleftrightarrow> b"
  by (cases b) auto

lemma mapR_Inr_length: "mapR f xs = Inr ys \<Longrightarrow> length ys = length xs"
  by (induction xs arbitrary: ys) (auto simp: bindR_eq_Inr)

lemma mapR_eq_Inr: "mapR f xs = Inr ys \<longleftrightarrow> list_all2 (\<lambda>x y. f x = Inr y) xs ys"
  by (induction xs arbitrary: ys) (auto simp: bindR_eq_Inr list_all2_Cons1)

lemma mapR_all:
  assumes "mapR f xs = Inr ys" and "\<And>x y. f x = Inr y \<Longrightarrow> P y"
  shows "list_all P ys"
  using assms(1) by (induction xs arbitrary: ys) (auto simp: bindR_eq_Inr dest: assms(2))

lemma eachR_eq_Inr: "eachR f xs = Inr u \<longleftrightarrow> (\<forall>x \<in> set xs. f x = Inr ())"
  by (induction xs) (auto simp: bindR_eq_Inr)

lemmas result_iffs = bindR_eq_Inr bindR_eq_Inl ensureR_eq_Inr eachR_eq_Inr

subsection \<open>Lemmas: text\<close>

lemma cutPrefix_append [simp]: "cutPrefix p (p @ s) = Some s"
  by (simp add: cutPrefix_def)

lemma cutPrefix_eq_Some: "cutPrefix p s = Some r \<longleftrightarrow> s = p @ r"
  by (auto simp: cutPrefix_def) (metis append_take_drop_id)

lemma joinLines_Cons: "ls \<noteq> [] \<Longrightarrow> joinLines (l # ls) = l @ newline # joinLines ls"
  by (cases ls) simp_all

text \<open>Splitting at the first separator: the fact behind every separator-based message.\<close>

lemma append_sep_cut:
  assumes "a @ c # b = a' @ c # b'" and "c \<notin> set a" and "c \<notin> set a'"
  shows "a = a' \<and> b = b'"
  using assms
proof (induction a arbitrary: a')
  case Nil
  then show ?case by (cases a') auto
next
  case (Cons x a)
  then show ?case by (cases a') auto
qed

lemma joinLines_inj:
  assumes "joinLines ls = joinLines ls'" and "ls \<noteq> []" and "ls' \<noteq> []"
    and "\<forall>l \<in> set ls. newline \<notin> set l" and "\<forall>l \<in> set ls'. newline \<notin> set l"
  shows "ls = ls'"
  using assms
proof (induction ls arbitrary: ls')
  case Nil
  then show ?case by simp
next
  case (Cons l ls)
  obtain l' ls2 where ls': "ls' = l' # ls2"
    using Cons.prems(3) by (cases ls') auto
  show ?case
  proof (cases "ls = []"; cases "ls2 = []")
    assume "ls = []" "ls2 = []"
    then show ?thesis using Cons.prems ls' by simp
  next
    assume "ls = []" "ls2 \<noteq> []"
    then have "l = l' @ newline # joinLines ls2"
      using Cons.prems(1) ls' by (simp add: joinLines_Cons)
    then show ?thesis using Cons.prems(4) by simp
  next
    assume "ls \<noteq> []" "ls2 = []"
    then have "l' = l @ newline # joinLines ls"
      using Cons.prems(1) ls' by (simp add: joinLines_Cons)
    then show ?thesis using Cons.prems(5) ls' by simp
  next
    assume ne: "ls \<noteq> []" "ls2 \<noteq> []"
    then have "l @ newline # joinLines ls = l' @ newline # joinLines ls2"
      using Cons.prems(1) ls' by (simp add: joinLines_Cons)
    then have "l = l'" and "joinLines ls = joinLines ls2"
      using append_sep_cut [of l newline "joinLines ls" l' "joinLines ls2"] Cons.prems(4,5) ls'
      by auto
    then show ?thesis
      using Cons.IH [of ls2] Cons.prems(4,5) ne ls' by simp
  qed
qed

lemma unat_char_byte [simp]: "unat (of_nat (of_char c) :: byte) = of_char c"
  by (simp add: unat_of_nat of_char_mod_256)

lemma of_char_inj_bytes: "inj (\<lambda>c. of_nat (of_char c) :: byte)"
  by (rule injI) (metis unat_char_byte char_of_char)

lemma stringBytes_inj: "stringBytes s = stringBytes t \<longleftrightarrow> s = t"
  using inj_map_eq_map [OF of_char_inj_bytes] by (simp add: stringBytes_def)

lemma length_stringBytes [simp]: "length (stringBytes s) = length s"
  by (simp add: stringBytes_def)

subsection \<open>Lemmas: decimal and hexadecimal\<close>

lemma of_char_digitChar [simp]: "d < 10 \<Longrightarrow> of_char (digitChar d) = 48 + d"
  by (simp add: digitChar_def)

lemma isDigit_digitChar [simp]: "d < 10 \<Longrightarrow> isDigit (digitChar d)"
  by (simp add: isDigit_def)

lemma digitVal_digitChar [simp]: "d < 10 \<Longrightarrow> digitVal (digitChar d) = d"
  by (simp add: digitVal_def)

lemma digitsVal_Nil [simp]: "digitsVal [] = 0"
  by (simp add: digitsVal_def)

lemma digitsVal_snoc [simp]: "digitsVal (s @ [c]) = digitsVal s * 10 + digitVal c"
  by (simp add: digitsVal_def)

lemma formatUint_nonempty [simp]: "formatUint n \<noteq> []"
  by (subst formatUint.simps) simp

lemma formatUint_digits: "list_all isDigit (formatUint n)"
proof (induction n rule: formatUint.induct)
  case (1 n)
  then show ?case by (subst formatUint.simps) simp
qed

lemma digitsVal_formatUint [simp]: "digitsVal (formatUint n) = n"
proof (induction n rule: formatUint.induct)
  case (1 n)
  show ?case
  proof (cases "n < 10")
    case True
    then show ?thesis by (subst formatUint.simps) (simp add: digitsVal_def)
  next
    case False
    with "1" show ?thesis by (subst formatUint.simps) simp
  qed
qed

lemma parseUint_code [code]:
  "parseUint w s =
     (if s \<noteq> [] \<and> list_all isDigit s \<and> int (digitsVal s) < 2 ^ w then Some (digitsVal s) else None)"
proof -
  have "int (digitsVal s) < 2 ^ w \<longleftrightarrow> digitsVal s < 2 ^ w" by (metis of_nat_less_iff of_nat_numeral of_nat_power)
  then show ?thesis by (simp add: parseUint_def)
qed

lemma parseUint_formatUint: "parseUint w (formatUint n) = (if n < 2 ^ w then Some n else None)"
  by (simp add: parseUint_def formatUint_digits)

lemma formatUint_inj: "formatUint m = formatUint n \<longleftrightarrow> m = n"
  by (metis digitsVal_formatUint)

lemma formatUint_notin: "\<not> isDigit c \<Longrightarrow> c \<notin> set (formatUint n)"
  using formatUint_digits [of n] by (auto simp: list_all_iff)

lemma newline_notin_formatUint [simp]: "newline \<notin> set (formatUint n)"
  by (rule formatUint_notin) (simp add: isDigit_def newline_def)

lemma colon_notin_formatUint [simp]: "CHR '':'' \<notin> set (formatUint n)"
  by (rule formatUint_notin) (simp add: isDigit_def)

lemma parseUint_bound: "parseUint w s = Some n \<Longrightarrow> n < 2 ^ w"
  by (auto simp: parseUint_def split: if_splits)

lemma hexVal_hexDigit [simp]: "d < 16 \<Longrightarrow> hexVal (hexDigit d) = Some d"
  by (auto simp: hexVal_def hexDigit_def Let_def)

lemma newline_neq_hexDigit: "d < 16 \<Longrightarrow> newline \<noteq> hexDigit d"
  by (auto simp: newline_def hexDigit_def dest!: arg_cong [where f = "of_char :: char \<Rightarrow> nat"])

lemma unat_byte_less [simp]: "unat (b :: byte) < 256"
  using unsigned_less [of b] by simp

lemma nibbles_byte [simp]: "unat (b :: byte) div 16 < 16" "unat (b :: byte) mod 16 < 16"
  using unat_byte_less [of b] by (auto simp: less_mult_imp_div_less)

lemma hexDecode_hexByte: "hexDecode (hexByte b @ s) = bindR (hexDecode s) (\<lambda>bs. Inr (b # bs))"
proof -
  have "(of_nat (16 * (unat b div 16) + unat b mod 16) :: byte) = b" by (simp del: of_nat_add of_nat_mult)
  then show ?thesis by (simp add: hexByte_def)
qed

lemma hexEncode_Nil [simp]: "hexEncode [] = []"
  by (simp add: hexEncode_def)

lemma hexEncode_Cons: "hexEncode (b # bs) = hexByte b @ hexEncode bs"
  by (simp add: hexEncode_def)

lemma hexDecode_hexEncode [simp]: "hexDecode (hexEncode bs) = Inr bs"
  by (induction bs) (simp_all add: hexEncode_Cons hexDecode_hexByte)

lemma hexEncode_inj: "hexEncode xs = hexEncode ys \<longleftrightarrow> xs = ys"
  by (metis hexDecode_hexEncode sum.inject(2))

lemma length_hexEncode [simp]: "length (hexEncode bs) = 2 * length bs"
  by (induction bs) (simp_all add: hexEncode_Cons hexByte_def)

lemma newline_notin_hexEncode [simp]: "newline \<notin> set (hexEncode bs)"
proof -
  have "newline \<notin> set (hexByte b)" for b
    by (simp add: hexByte_def newline_neq_hexDigit)
  then show ?thesis by (simp add: hexEncode_def)
qed

subsection \<open>Lemmas: fixed-width integers\<close>

lemma length_beBytes [simp]: "length (beBytes k n) = k"
  by (induction k arbitrary: n) simp_all

lemma length_leBytes [simp]: "length (leBytes k n) = k"
  by (induction k arbitrary: n) simp_all

lemma beVal_Nil [simp]: "beVal [] = 0"
  by (simp add: beVal_def)

lemma beVal_snoc [simp]: "beVal (bs @ [b]) = beVal bs * 256 + unat b"
  by (simp add: beVal_def)

lemma beVal_Cons: "beVal (b # bs) = unat b * 256 ^ length bs + beVal bs"
  by (induction bs rule: rev_induct) (simp_all add: algebra_simps flip: append_Cons, simp add: beVal_def)

lemma unat_of_nat_byte [simp]: "unat (of_nat (n mod 256) :: byte) = n mod 256"
  by (simp add: unat_of_nat)

lemma beVal_beBytes: "n < 256 ^ k \<Longrightarrow> beVal (beBytes k n) = n"
proof (induction k arbitrary: n)
  case 0
  then show ?case by simp
next
  case (Suc k)
  then have "n div 256 < 256 ^ k" by (simp add: less_mult_imp_div_less mult.commute)
  then show ?case using Suc.IH by simp
qed

lemma beVal_bound: "beVal bs < 256 ^ length bs"
proof (induction bs rule: rev_induct)
  case Nil
  then show ?case by simp
next
  case (snoc b bs)
  then have "Suc (beVal bs) * 256 \<le> 256 ^ length bs * 256"
    by (intro mult_le_mono1) simp
  moreover have "beVal bs * 256 + unat b < Suc (beVal bs) * 256"
    using unat_byte_less [of b] by simp
  ultimately have "beVal bs * 256 + unat b < 256 ^ length bs * 256" by (rule order.strict_trans2 [rotated])
  then show ?case by (simp add: mult.commute)
qed

lemma beBytes_beVal: "beBytes (length bs) (beVal bs) = bs"
  by (induction bs rule: rev_induct) simp_all

lemma beBytes_inj: "m < 256 ^ k \<Longrightarrow> n < 256 ^ k \<Longrightarrow> beBytes k m = beBytes k n \<longleftrightarrow> m = n"
  by (metis beVal_beBytes)

lemma leBytes_inj: "m < 256 ^ k \<Longrightarrow> n < 256 ^ k \<Longrightarrow> leBytes k m = leBytes k n \<Longrightarrow> m = n"
proof (induction k arbitrary: m n)
  case 0
  then show ?case by simp
next
  case (Suc k)
  have "m div 256 < 256 ^ k" "n div 256 < 256 ^ k"
    using Suc.prems(1,2) by (simp_all add: less_mult_imp_div_less mult.commute)
  then have "m div 256 = n div 256" using Suc.IH Suc.prems(3) by simp
  moreover have "m mod 256 = n mod 256"
    using Suc.prems(3) by (metis leBytes.simps(2) list.inject unat_of_nat_byte)
  ultimately show ?case by (metis div_mult_mod_eq)
qed

subsection \<open>Interface: prefix-free encodings\<close>

text \<open>
  An encoding of the values satisfying \<open>ok\<close>, no code word of which is a proper prefix of
  another: a code word at the front of a stream determines the value and the rest of the
  stream.  Signed and hashed messages are concatenations of such code words, so the
  messages determine the fields.
\<close>

locale prefix_free =
  fixes ok :: "'a \<Rightarrow> bool" and enc :: "'a \<Rightarrow> 'b list"
  assumes cut: "ok x \<Longrightarrow> ok y \<Longrightarrow> enc x @ r = enc y @ s \<Longrightarrow> x = y \<and> r = s"
begin

lemma enc_inj: "ok x \<Longrightarrow> ok y \<Longrightarrow> enc x = enc y \<Longrightarrow> x = y"
  using cut [of x y "[]" "[]"] by simp

lemma enc_eq_iff: "ok x \<Longrightarrow> ok y \<Longrightarrow> enc x @ r = enc y @ s \<longleftrightarrow> x = y \<and> r = s"
  using cut by blast

lemma concat_cut:
  "\<lbrakk>list_all ok xs; list_all ok ys; length xs = length ys;
    concat (map enc xs) @ r = concat (map enc ys) @ s\<rbrakk> \<Longrightarrow> xs = ys \<and> r = s"
proof (induction xs arbitrary: ys)
  case Nil
  then show ?case by simp
next
  case (Cons x xs)
  then obtain y ys' where ys: "ys = y # ys'" by (cases ys) auto
  have "enc x @ (concat (map enc xs) @ r) = enc y @ (concat (map enc ys') @ s)"
    using Cons.prems ys by simp
  moreover have "ok x" "ok y" using Cons.prems ys by simp_all
  ultimately have hd: "x = y" and tl: "concat (map enc xs) @ r = concat (map enc ys') @ s"
    using cut by blast+
  have "xs = ys' \<and> r = s"
    using Cons.prems ys by (intro Cons.IH [OF _ _ _ tl]) simp_all
  with hd ys show ?case by blast
qed

end

text \<open>A decoder that inverts the encoder on every stream makes the encoding prefix-free.\<close>

locale prefix_codec =
  fixes ok :: "'a \<Rightarrow> bool" and enc :: "'a \<Rightarrow> 'b list"
    and dec :: "'b list \<Rightarrow> ('a \<times> 'b list) option"
  assumes dec_enc: "ok x \<Longrightarrow> dec (enc x @ r) = Some (x, r)"

sublocale prefix_codec \<subseteq> prefix_free ok enc
proof
  fix x y :: 'a and r s :: "'b list"
  assume x: "ok x" and y: "ok y" and eq: "enc x @ r = enc y @ s"
  have "Some (x, r) = Some (y, s)"
    using dec_enc [OF x, of r] dec_enc [OF y, of s] eq by metis
  then show "x = y \<and> r = s" by blast
qed

interpretation beCode: prefix_free "\<lambda>n. n < 256 ^ k" "beBytes k" for k
  by unfold_locales (auto simp: beBytes_inj)

interpretation leCode: prefix_free "\<lambda>n. n < 256 ^ k" "leBytes k" for k
  by unfold_locales (auto dest: leBytes_inj)

interpretation hexLineCode: prefix_free "\<lambda>bs. length bs = k" hexEncode for k
  by unfold_locales (auto simp: hexEncode_inj)

subsection \<open>Interface: transition systems with an invariant\<close>

text \<open>
  A component with shared state is a start state and a step relation; its safety rests on
  a predicate that holds at the start and that every step keeps.
\<close>

inductive reach :: "'s \<Rightarrow> ('s \<Rightarrow> 's \<Rightarrow> bool) \<Rightarrow> 's \<Rightarrow> bool" for s0 step where
  reach_start: "reach s0 step s0"
| reach_step: "reach s0 step s \<Longrightarrow> step s t \<Longrightarrow> reach s0 step t"

locale invariant_system =
  fixes start :: 's and step :: "'s \<Rightarrow> 's \<Rightarrow> bool" and inv :: "'s \<Rightarrow> bool"
  assumes inv_start: "inv start"
    and inv_step: "inv s \<Longrightarrow> step s t \<Longrightarrow> inv t"
begin

lemma reach_inv: "reach start step s \<Longrightarrow> inv s"
  by (induction rule: reach.induct) (auto intro: inv_start inv_step)

end

end
