(* ===== verification/Nonces.thy ===== *)
theory Nonces
  imports Prelude "HOL-Library.Multiset"
begin

text \<open>
  The transaction nonce allocator of \<^verbatim>\<open>nonces.go\<close>: the state a chain reports for an
  account, what the client remembers of it (\<^verbatim>\<open>nonceAccount\<close>), and the operations that hand
  nonces out and settle them, each of which runs under the allocator's lock and so is one
  atomic step.  The theory shows that no interleaving of these steps puts two submissions
  in flight under one unused nonce, that a nonce handed out is the lowest free one in the
  chain's window, that a hold is respected, and that what has been seen used stays used.
\<close>

subsection \<open>The chain's report\<close>

definition NonceWindow :: nat where
  "NonceWindow = 24"

text \<open>\<^verbatim>\<open>time.Duration\<close> counts nanoseconds; a \<^verbatim>\<open>time.Time\<close> is an instant in nanoseconds, and
  the zero \<^verbatim>\<open>time.Time\<close> is \<open>None\<close>.\<close>

definition NonceHold :: int where
  "NonceHold = 120 * 10 ^ 9"

record AccountNonceState =
  Base :: u64
  Used :: u32

definition IsUsed :: "AccountNonceState \<Rightarrow> u64 \<Rightarrow> bool" where
  "IsUsed s nonce =
     (if nonce \<le> Base s then True
      else let offset = nonce - Base s - 1
           in offset < of_nat NonceWindow \<and> Used s AND push_bit (unat offset) 1 \<noteq> 0)"

datatype parseError = NonceStateLength nat

definition ParseAccountNonceState :: "bytes \<Rightarrow> parseError + AccountNonceState" where
  "ParseAccountNonceState v =
     (if length v = 0 then Inr \<lparr>Base = 0, Used = 0\<rparr>
      else if length v = 8 \<or> length v = 11 then
        Inr \<lparr>Base = of_nat (beVal (take 8 v)),
             Used = (if length v = 11
                     then ucast (v ! 8) OR push_bit 8 (ucast (v ! 9)) OR push_bit 16 (ucast (v ! 10))
                     else 0)\<rparr>
      else Inl (NonceStateLength (length v)))"

subsection \<open>What a refusal leaves a nonce as\<close>

datatype nonceOutcome = NonceAccepted | NonceFree | NonceHeld | NonceUsed | NonceUnknown

definition stripNodePrefix :: "string \<Rightarrow> string" where
  "stripNodePrefix log =
     (case cutPrefix ''Signature validation failed: '' log of
        Some rest \<Rightarrow> rest
      | None \<Rightarrow> (case cutPrefix ''Nonce validation failed: '' log of
                   Some rest \<Rightarrow> rest
                 | None \<Rightarrow> log))"

definition refusalOutcome :: "string \<Rightarrow> string \<Rightarrow> u64 \<Rightarrow> nonceOutcome" where
  "refusalOutcome log0 did nonce =
     (let log = stripNodePrefix log0;
          n = formatUint (unat nonce);
          held = ''Nonce '' @ n @ '' of '' @ did @ '' is held by a pending transaction'';
          used = ''Invalid nonce: '' @ n @ '' already used''
      in if log = held \<or> hasPrefix (held @ '';'') log then NonceHeld
         else if log = used \<or> hasPrefix (used @ '' ('') log then NonceUsed
         else case cutPrefix (''Invalid nonce: '' @ n @ '' <= base nonce '') log of
                Some base \<Rightarrow> (case parseUint 64 base of Some _ \<Rightarrow> NonceUsed | None \<Rightarrow> NonceFree)
              | None \<Rightarrow> NonceFree)"

subsection \<open>The allocator's state\<close>

record nonceClaim =
  inFlight :: nat
  reserved :: "int option"
  held :: "int option"

definition emptyClaim :: nonceClaim where
  "emptyClaim = \<lparr>inFlight = 0, reserved = None, held = None\<rparr>"

definition within :: "int \<Rightarrow> int option \<Rightarrow> bool" where
  "within now at = (case at of None \<Rightarrow> False | Some t \<Rightarrow> now - t < NonceHold)"

definition live :: "nonceClaim \<Rightarrow> int \<Rightarrow> bool" where
  "live c now \<longleftrightarrow> inFlight c > 0 \<or> within now (reserved c) \<or> within now (held c)"

record nonceAccount =
  acBase :: u64
  acUsed :: "u64 list"
  acClaims :: "u64 \<rightharpoonup> nonceClaim"

definition newAccount :: nonceAccount where
  "newAccount = \<lparr>acBase = 0, acUsed = [], acClaims = Map.empty\<rparr>"

record nonceAllocator =
  accounts :: "string \<rightharpoonup> nonceAccount"

definition newNonceAllocator :: nonceAllocator where
  "newNonceAllocator = \<lparr>accounts = Map.empty\<rparr>"

definition account :: "nonceAllocator \<Rightarrow> string \<Rightarrow> nonceAccount" where
  "account a did = (case accounts a did of None \<Rightarrow> newAccount | Some acct \<Rightarrow> acct)"

definition putAccount :: "nonceAllocator \<Rightarrow> string \<Rightarrow> nonceAccount \<Rightarrow> nonceAllocator" where
  "putAccount a did acct = a\<lparr>accounts := (accounts a)(did \<mapsto> acct)\<rparr>"

subsection \<open>Merging a report\<close>

definition mergeBase :: "nonceAccount \<Rightarrow> AccountNonceState \<Rightarrow> u64" where
  "mergeBase acct state = (if Base state > acBase acct then Base state else acBase acct)"

definition mergeUsed :: "u64 list \<Rightarrow> u64 \<Rightarrow> AccountNonceState \<Rightarrow> u64 list" where
  "mergeUsed used base state =
     filter (\<lambda>n. \<not> n \<le> base)
       (foldl (\<lambda>u i. if Used state AND push_bit i 1 \<noteq> 0 \<and> Base state + 1 + of_nat i > base
                     then List.insert (Base state + 1 + of_nat i) u else u)
          used [0..<NonceWindow])"

definition mergeClaims :: "(u64 \<rightharpoonup> nonceClaim) \<Rightarrow> u64 \<Rightarrow> u64 list \<Rightarrow> int \<Rightarrow> (u64 \<rightharpoonup> nonceClaim)" where
  "mergeClaims claims base used now =
     (\<lambda>n. case claims n of
            None \<Rightarrow> None
          | Some c \<Rightarrow> if n \<le> base \<or> n \<in> set used \<or> \<not> live c now then None else Some c)"

definition merge :: "nonceAccount \<Rightarrow> AccountNonceState \<Rightarrow> int \<Rightarrow> nonceAccount" where
  "merge acct state now =
     (let base = mergeBase acct state;
          used = mergeUsed (acUsed acct) base state
      in \<lparr>acBase = base, acUsed = used, acClaims = mergeClaims (acClaims acct) base used now\<rparr>)"

definition view :: "nonceAccount \<Rightarrow> AccountNonceState" where
  "view acct =
     \<lparr>Base = acBase acct,
      Used = foldl (\<lambda>w n. let offset = n - acBase acct - 1
                          in if offset < of_nat NonceWindow then w OR push_bit (unat offset) 1 else w)
               0 (acUsed acct)\<rparr>"

definition observe :: "nonceAllocator \<Rightarrow> string \<Rightarrow> AccountNonceState \<Rightarrow> int \<Rightarrow> nonceAllocator \<times> AccountNonceState" where
  "observe a did state now =
     (let acct = merge (account a did) state now in (putAccount a did acct, view acct))"

subsection \<open>Handing nonces out\<close>

datatype nonceError = NonceSpaceExhausted u64 | NonceWindowFull u64 | ErrNonceUsed | ErrNonceInFlight

text \<open>\<^verbatim>\<open>math.MaxUint64-NonceWindow\<close>: the chain refuses a nonce at or above it.\<close>

definition nonceCeiling :: u64 where
  "nonceCeiling = - 1 - of_nat NonceWindow"

fun pickLoop :: "nonceAccount \<Rightarrow> nat list \<Rightarrow> u64 option" where
  "pickLoop acct [] = None"
| "pickLoop acct (i # is) =
     (let n = acBase acct + of_nat i
      in if n \<ge> nonceCeiling then None
         else if acClaims acct n = None \<and> n \<notin> set (acUsed acct) then Some n
         else pickLoop acct is)"

definition pick :: "nonceAllocator \<Rightarrow> string \<Rightarrow> AccountNonceState \<Rightarrow> int \<Rightarrow> (nonceClaim \<Rightarrow> nonceClaim)
    \<Rightarrow> nonceAllocator \<times> (nonceError + u64)" where
  "pick a did state now claim =
     (let acct = merge (account a did) state now
      in if acBase acct \<ge> nonceCeiling - 1
         then (putAccount a did acct, Inl (NonceSpaceExhausted (acBase acct)))
         else case pickLoop acct [1..<NonceWindow + 1] of
                Some n \<Rightarrow>
                  (putAccount a did (acct\<lparr>acClaims := (acClaims acct)(n \<mapsto> claim emptyClaim)\<rparr>), Inr n)
              | None \<Rightarrow> (putAccount a did acct, Inl (NonceWindowFull (acBase acct))))"

definition takeNonce :: "nonceAllocator \<Rightarrow> string \<Rightarrow> AccountNonceState \<Rightarrow> int \<Rightarrow> nonceAllocator \<times> (nonceError + u64)" where
  "takeNonce a did state now = pick a did state now (\<lambda>c. c\<lparr>inFlight := 1\<rparr>)"

definition reserve :: "nonceAllocator \<Rightarrow> string \<Rightarrow> AccountNonceState \<Rightarrow> int \<Rightarrow> nonceAllocator \<times> (nonceError + u64)" where
  "reserve a did state now = pick a did state now (\<lambda>c. c\<lparr>reserved := Some now\<rparr>)"

subsection \<open>Starting and settling a submission\<close>

definition beginClaim :: "nonceAccount \<Rightarrow> u64 \<Rightarrow> nonceError + nonceAccount" where
  "beginClaim acct nonce =
     (case acClaims acct nonce of
        Some c \<Rightarrow>
          if inFlight c > 0 then Inl ErrNonceInFlight
          else Inr (acct\<lparr>acClaims := (acClaims acct)(nonce \<mapsto> c\<lparr>inFlight := inFlight c + 1, reserved := None\<rparr>)\<rparr>)
      | None \<Rightarrow> Inr (acct\<lparr>acClaims := (acClaims acct)(nonce \<mapsto> emptyClaim\<lparr>inFlight := 1\<rparr>)\<rparr>))"

definition beginNonce :: "nonceAllocator \<Rightarrow> string \<Rightarrow> u64 \<Rightarrow> AccountNonceState option \<Rightarrow> int
    \<Rightarrow> nonceAllocator \<times> (nonceError + unit)" where
  "beginNonce a did nonce state now =
     (let acct = (case state of None \<Rightarrow> account a did | Some st \<Rightarrow> merge (account a did) st now)
      in if state \<noteq> None \<and> IsUsed (view acct) nonce then (putAccount a did acct, Inl ErrNonceUsed)
         else case beginClaim acct nonce of
                Inl e \<Rightarrow> (putAccount a did acct, Inl e)
              | Inr acct' \<Rightarrow> (putAccount a did acct', Inr ()))"

definition settleAccount :: "nonceAccount \<Rightarrow> u64 \<Rightarrow> nonceOutcome \<Rightarrow> int \<Rightarrow> nonceAccount" where
  "settleAccount acct nonce outcome now =
     (let claim = map_option (\<lambda>c. if inFlight c > 0 then c\<lparr>inFlight := inFlight c - 1\<rparr> else c)
                    (acClaims acct nonce)
      in if nonce \<le> acBase acct \<or> nonce \<in> set (acUsed acct) \<or> outcome = NonceUsed
         then acct\<lparr>acUsed := (if nonce > acBase acct then List.insert nonce (acUsed acct) else acUsed acct),
                   acClaims := (acClaims acct)(nonce := None)\<rparr>
         else let claim' = (if outcome \<in> {NonceAccepted, NonceUnknown, NonceHeld}
                            then Some ((case claim of None \<Rightarrow> emptyClaim | Some c \<Rightarrow> c)\<lparr>held := Some now\<rparr>)
                            else claim)
              in acct\<lparr>acClaims := (acClaims acct)(nonce :=
                        (case claim' of None \<Rightarrow> None | Some c \<Rightarrow> if live c now then Some c else None))\<rparr>)"

definition settle :: "nonceAllocator \<Rightarrow> string \<Rightarrow> u64 \<Rightarrow> nonceOutcome \<Rightarrow> int \<Rightarrow> nonceAllocator" where
  "settle a did nonce outcome now = putAccount a did (settleAccount (account a did) nonce outcome now)"

subsection \<open>What an account knows\<close>

text \<open>
  A nonce is known used when the base has passed it or it was seen used above the base;
  \<open>flying\<close> is how many submissions the account counts in flight under a nonce.
\<close>

definition knownUsed :: "nonceAccount \<Rightarrow> u64 \<Rightarrow> bool" where
  "knownUsed acct n \<longleftrightarrow> n \<le> acBase acct \<or> n \<in> set (acUsed acct)"

definition flying :: "nonceAccount \<Rightarrow> u64 \<Rightarrow> nat" where
  "flying acct n = (case acClaims acct n of None \<Rightarrow> 0 | Some c \<Rightarrow> inFlight c)"

lemma and_push_bit_1: "w AND push_bit k 1 \<noteq> 0 \<longleftrightarrow> bit w k" for w :: "'a::len word"
  by (simp add: push_bit_of_1 and_exp_eq_0_iff_not_bit)

lemma account_put [simp]:
  "account (putAccount a did acct) did' = (if did' = did then acct else account a did')"
  by (simp add: account_def putAccount_def)

lemma account_new [simp]: "account newNonceAllocator did = newAccount"
  by (simp add: account_def newNonceAllocator_def)

lemma flying_new [simp]: "flying newAccount n = 0"
  by (simp add: flying_def newAccount_def)

subsection \<open>Interface: an operation on an account\<close>

text \<open>
  Every operation on an account keeps what is known of the chain: its base never goes
  down and a nonce known used stays so.  Operations with this contract compose.
\<close>

locale account_op =
  fixes act :: "nonceAccount \<Rightarrow> nonceAccount"
  assumes base_up: "acBase acct \<le> acBase (act acct)"
    and used_kept: "n \<in> set (acUsed acct) \<Longrightarrow> knownUsed (act acct) n"
begin

lemma known_kept: "knownUsed acct n \<Longrightarrow> knownUsed (act acct) n"
  using base_up [of acct] used_kept [of n acct] by (auto simp: knownUsed_def)

lemma known_kept_put: "knownUsed (account a did) n \<Longrightarrow>
  knownUsed (account (putAccount a did' (act (account a did'))) did) n"
  by (auto intro: known_kept)

end

lemma fold_used_mono:
  "set u \<subseteq> set (foldl (\<lambda>u i. if P i then List.insert (f i) u else u) u is)"
proof (induction "is" arbitrary: u)
  case Nil
  then show ?case by simp
next
  case (Cons i "is")
  have "set u \<subseteq> set (if P i then List.insert (f i) u else u)" by auto
  also have "\<dots> \<subseteq> set (foldl (\<lambda>u i. if P i then List.insert (f i) u else u)
                         (if P i then List.insert (f i) u else u) is)"
    by (rule Cons.IH)
  finally show ?case by simp
qed

lemma set_fold_used:
  "set (foldl (\<lambda>u i. if P i then List.insert (f i) u else u) u is) = set u \<union> f ` {i \<in> set is. P i}"
  by (induction "is" arbitrary: u) auto

lemma set_mergeUsed:
  "set (mergeUsed used base state) =
     {n \<in> set used. base < n} \<union>
     {Base state + 1 + of_nat i | i. i < NonceWindow \<and> bit (Used state) i \<and> base < Base state + 1 + of_nat i}"
  by (auto simp: mergeUsed_def set_fold_used and_exp_eq_0_iff_not_bit)

lemma merge_fields [simp]:
  "acBase (merge acct st now) = mergeBase acct st"
  "acUsed (merge acct st now) = mergeUsed (acUsed acct) (mergeBase acct st) st"
  "acClaims (merge acct st now) =
     mergeClaims (acClaims acct) (mergeBase acct st) (mergeUsed (acUsed acct) (mergeBase acct st) st) now"
  by (simp_all add: merge_def Let_def)

interpretation mergeOp: account_op "\<lambda>acct. merge acct st now" for st now
  by unfold_locales (auto simp: mergeBase_def knownUsed_def set_mergeUsed)

interpretation settleOp: account_op "\<lambda>acct. settleAccount acct nonce outcome now" for nonce outcome now
  by unfold_locales (auto simp: settleAccount_def Let_def knownUsed_def)

interpretation claimOp: account_op "\<lambda>acct. acct\<lparr>acClaims := f acct\<rparr>" for f
  by unfold_locales (auto simp: knownUsed_def)

lemma flying_merge:
  "\<not> knownUsed (merge acct st now) n \<Longrightarrow> flying (merge acct st now) n = flying acct n"
  by (auto simp: flying_def mergeClaims_def knownUsed_def live_def split: option.splits)

lemma live_merge:
  "acClaims (merge acct st now) n = Some c \<Longrightarrow> live c now \<and> \<not> knownUsed (merge acct st now) n"
  by (auto simp: mergeClaims_def knownUsed_def split: option.splits if_splits)

subsection \<open>The nonce handed out\<close>

lemma pickLoop_Some:
  assumes "pickLoop acct is = Some n"
  shows "\<exists>ps i qs. is = ps @ i # qs \<and> n = acBase acct + of_nat i \<and> n < nonceCeiling
           \<and> acClaims acct n = None \<and> n \<notin> set (acUsed acct)
           \<and> (\<forall>j \<in> set ps. acBase acct + of_nat j < nonceCeiling
                \<and> (acClaims acct (acBase acct + of_nat j) \<noteq> None
                   \<or> acBase acct + of_nat j \<in> set (acUsed acct)))"
  using assms
proof (induction "is")
  case Nil
  then show ?case by simp
next
  case (Cons i "is")
  show ?case
  proof (cases "acClaims acct (acBase acct + of_nat i) = None \<and> acBase acct + of_nat i \<notin> set (acUsed acct)")
    case True
    then show ?thesis
      using Cons.prems by (intro exI [of _ "[]"] exI [of _ i] exI [of _ "is"])
        (auto simp: Let_def split: if_splits)
  next
    case False
    then have "pickLoop acct is = Some n" and i: "acBase acct + of_nat i < nonceCeiling"
      using Cons.prems by (auto simp: Let_def split: if_splits)
    then obtain ps k qs where *: "is = ps @ k # qs" "n = acBase acct + of_nat k" "n < nonceCeiling"
      "acClaims acct n = None" "n \<notin> set (acUsed acct)"
      "\<forall>j \<in> set ps. acBase acct + of_nat j < nonceCeiling
          \<and> (acClaims acct (acBase acct + of_nat j) \<noteq> None \<or> acBase acct + of_nat j \<in> set (acUsed acct))"
      using Cons.IH by blast
    show ?thesis
      by (rule exI [of _ "i # ps"], rule exI [of _ k], rule exI [of _ qs]) (use * False i in auto)
  qed
qed

text \<open>
  The specification of a choice: a nonce is free for an account under a report when it is
  in the chain's window above the merged base, below the ceiling, not known used, and no
  claim that is live at the time holds it.
\<close>

definition freeNonce :: "nonceAccount \<Rightarrow> AccountNonceState \<Rightarrow> int \<Rightarrow> u64 \<Rightarrow> bool" where
  "freeNonce acct st now n \<longleftrightarrow>
     (let seen = merge acct st now
      in acBase seen < n \<and> unat n \<le> unat (acBase seen) + NonceWindow \<and> n < nonceCeiling
         \<and> n \<notin> set (acUsed seen)
         \<and> (case acClaims acct n of None \<Rightarrow> True | Some c \<Rightarrow> \<not> live c now))"

lemma unat_nonceCeiling: "unat nonceCeiling = 2 ^ 64 - 1 - 24" "unat (nonceCeiling - 1) = 2 ^ 64 - 1 - 25"
  by (simp_all add: nonceCeiling_def NonceWindow_def)

lemma unat_window:
  assumes "b < nonceCeiling - 1" and "i \<le> NonceWindow"
  shows "unat (b + of_nat i) = unat b + i"
proof -
  have "unat b < 2 ^ 64 - 1 - 25"
    using assms(1) unat_nonceCeiling(2) by (simp add: word_less_nat_alt)
  then show ?thesis
    using assms(2) by (simp add: unat_word_ariths unat_of_nat NonceWindow_def)
qed

lemma window_index:
  assumes "b < n" and "unat n \<le> unat b + NonceWindow"
  shows "\<exists>i \<in> {1..<NonceWindow + 1}. n = b + of_nat i"
proof (intro bexI)
  show "n = b + of_nat (unat n - unat b)"
    using assms(1) by (simp add: word_less_nat_alt of_nat_diff)
qed (use assms in \<open>auto simp: word_less_nat_alt\<close>)

lemma freeNonce_index:
  assumes "acBase (merge acct st now) < nonceCeiling - 1" and "i \<in> {1..<NonceWindow + 1}"
  shows "freeNonce acct st now (acBase (merge acct st now) + of_nat i) \<longleftrightarrow>
    (let seen = merge acct st now; n = acBase seen + of_nat i
     in n < nonceCeiling \<and> acClaims seen n = None \<and> n \<notin> set (acUsed seen))"
proof -
  let ?b = "acBase (merge acct st now)"
  let ?n = "?b + of_nat i"
  have u: "unat ?n = unat ?b + i" using unat_window [OF assms(1)] assms(2) by simp
  have "?b < ?n" "unat ?n \<le> unat ?b + NonceWindow"
    unfolding word_less_nat_alt u using assms(2) by auto
  then show ?thesis
    by (auto simp: freeNonce_def Let_def mergeClaims_def split: option.splits)
qed

lemma pickLoop_in:
  assumes "pickLoop acct [1..<NonceWindow + 1] = Some n"
  obtains i where "i \<in> {1..<NonceWindow + 1}" and "n = acBase acct + of_nat i" and "n < nonceCeiling"
    and "acClaims acct n = None" and "n \<notin> set (acUsed acct)"
    and "\<forall>j \<in> {1..<i}. acClaims acct (acBase acct + of_nat j) \<noteq> None
           \<or> acBase acct + of_nat j \<in> set (acUsed acct)"
proof -
  obtain ps i qs where *: "[1..<NonceWindow + 1] = ps @ i # qs" "n = acBase acct + of_nat i"
      "n < nonceCeiling" "acClaims acct n = None" "n \<notin> set (acUsed acct)"
      "\<forall>j \<in> set ps. acBase acct + of_nat j < nonceCeiling
          \<and> (acClaims acct (acBase acct + of_nat j) \<noteq> None
             \<or> acBase acct + of_nat j \<in> set (acUsed acct))"
    using pickLoop_Some [OF assms] by blast
  have len: "length ps < NonceWindow" and i: "i = 1 + length ps"
    using arg_cong [OF *(1), of length] arg_cong [OF *(1), of "\<lambda>l. l ! length ps"]
    by (auto simp: nth_append simp del: upt_Suc)
  have "ps = take (length ps) [1..<NonceWindow + 1]" using *(1) by simp
  then have "ps = [1..<i]" using len i by simp
  then have "set ps = {1..<i}" by (metis set_upt)
  then show thesis using that [of i] * len i by auto
qed

lemma pickLoop_finds:
  "\<lbrakk>i \<in> set is; sorted is; acClaims acct (acBase acct + of_nat i) = None;
    acBase acct + of_nat i \<notin> set (acUsed acct);
    \<forall>j \<in> set is. j \<le> i \<longrightarrow> acBase acct + of_nat j < nonceCeiling\<rbrakk> \<Longrightarrow> pickLoop acct is \<noteq> None"
proof (induction "is")
  case (Cons j js)
  then have "acBase acct + of_nat j < nonceCeiling" by auto
  then show ?case using Cons by (cases "i = j") (auto simp: Let_def)
qed simp

lemma pickLoop_none_iff:
  assumes "acBase (merge acct st now) < nonceCeiling - 1"
    and "pickLoop (merge acct st now) [1..<NonceWindow + 1] = None"
  shows "\<not> freeNonce acct st now n"
proof
  assume free: "freeNonce acct st now n"
  let ?m = "merge acct st now"
  obtain i where i: "i \<in> {1..<NonceWindow + 1}" "n = acBase ?m + of_nat i"
    using window_index [of "acBase ?m" n] free by (auto simp: freeNonce_def Let_def)
  have ok: "n < nonceCeiling \<and> acClaims ?m n = None \<and> n \<notin> set (acUsed ?m)"
    using free freeNonce_index [OF assms(1) i(1)] i(2) by (simp add: Let_def)
  have below: "acBase ?m + of_nat j < nonceCeiling" if "1 \<le> j" "j \<le> i" for j
  proof -
    have "acBase ?m + of_nat j \<le> n"
      unfolding word_le_nat_alt i(2) using unat_window [OF assms(1)] i(1) that
      by (simp del: merge_fields)
    then show ?thesis using ok by (blast intro: order.strict_trans1)
  qed
  have "pickLoop ?m [1..<NonceWindow + 1] \<noteq> None"
    by (rule pickLoop_finds [of i]) (use i ok below in \<open>auto simp del: upt_Suc merge_fields\<close>)
  then show False using assms(2) by blast
qed

lemma not_free_at_ceiling:
  assumes "\<not> acBase (merge acct st now) < nonceCeiling - 1"
  shows "\<not> freeNonce acct st now n"
proof
  assume "freeNonce acct st now n"
  then have "acBase (merge acct st now) < n" "n < nonceCeiling"
    by (simp_all add: freeNonce_def Let_def del: merge_fields)
  then have "unat (acBase (merge acct st now)) < unat (nonceCeiling - 1)"
    unfolding word_less_nat_alt unat_nonceCeiling by linarith
  then show False using assms by (simp add: word_less_nat_alt del: merge_fields)
qed

lemma pickLoop_least:
  assumes b: "acBase (merge acct st now) < nonceCeiling - 1"
    and p: "pickLoop (merge acct st now) [1..<NonceWindow + 1] = Some n"
  shows "freeNonce acct st now n \<and> (\<forall>m. freeNonce acct st now m \<longrightarrow> n \<le> m)"
proof -
  let ?m = "merge acct st now"
  obtain i where i: "i \<in> {1..<NonceWindow + 1}" "n = acBase ?m + of_nat i" "n < nonceCeiling"
    "acClaims ?m n = None" "n \<notin> set (acUsed ?m)"
    and low: "\<forall>j \<in> {1..<i}. acClaims ?m (acBase ?m + of_nat j) \<noteq> None
           \<or> acBase ?m + of_nat j \<in> set (acUsed ?m)"
    using pickLoop_in [OF p] by blast
  have "n \<le> m" if free: "freeNonce acct st now m" for m
  proof -
    obtain j where j: "j \<in> {1..<NonceWindow + 1}" "m = acBase ?m + of_nat j"
      using window_index [of "acBase ?m" m] free by (auto simp: freeNonce_def Let_def)
    have "\<not> j < i"
      using bspec [OF low, of j] free freeNonce_index [OF b j(1)] j
      by (auto simp: Let_def simp del: merge_fields)
    then show ?thesis
      unfolding word_le_nat_alt i(2) j(2) using unat_window [OF b] i(1) j(1)
      by (simp del: merge_fields)
  qed
  moreover have "freeNonce acct st now n"
    using freeNonce_index [OF b i(1)] i by (simp add: Let_def del: merge_fields)
  ultimately show ?thesis by blast
qed

lemma pick_result:
  "snd (pick a did st now f) = Inr n \<longleftrightarrow>
     freeNonce (account a did) st now n \<and> (\<forall>m. freeNonce (account a did) st now m \<longrightarrow> n \<le> m)"
proof (cases "acBase (merge (account a did) st now) < nonceCeiling - 1")
  case True
  show ?thesis
  proof (cases "pickLoop (merge (account a did) st now) [1..<NonceWindow + 1]")
    case None
    then show ?thesis
      using True pickLoop_none_iff [OF True None]
      by (auto simp: pick_def Let_def simp del: upt_Suc merge_fields)
  next
    case (Some k)
    then show ?thesis
      using True pickLoop_least [OF True Some]
      by (auto simp: pick_def Let_def simp del: upt_Suc merge_fields intro: antisym)
  qed
next
  case False
  then show ?thesis
    using not_free_at_ceiling [OF False]
    by (auto simp: pick_def Let_def simp del: upt_Suc merge_fields)
qed

lemma pick_refused_iff:
  "(\<exists>e. snd (pick a did st now f) = Inl e) \<longleftrightarrow> (\<forall>n. \<not> freeNonce (account a did) st now n)"
proof
  assume "\<exists>e. snd (pick a did st now f) = Inl e"
  then show "\<forall>n. \<not> freeNonce (account a did) st now n"
    using not_free_at_ceiling pickLoop_none_iff
    by (fastforce simp: pick_def Let_def simp del: upt_Suc merge_fields split: if_splits option.splits)
next
  assume "\<forall>n. \<not> freeNonce (account a did) st now n"
  then have "\<nexists>n. snd (pick a did st now f) = Inr n" by (simp add: pick_result)
  then show "\<exists>e. snd (pick a did st now f) = Inl e" by (cases "snd (pick a did st now f)") auto
qed

lemma pick_state:
  assumes "pick a did st now f = (a', r)"
  shows "case r of
      Inl e \<Rightarrow> a' = putAccount a did (merge (account a did) st now)
    | Inr n \<Rightarrow> a' = putAccount a did ((merge (account a did) st now)
                    \<lparr>acClaims := (acClaims (merge (account a did) st now))(n \<mapsto> f emptyClaim)\<rparr>)"
  using assms
  by (auto simp: pick_def Let_def simp del: upt_Suc merge_fields split: if_splits option.splits)

text \<open>C3: a write is handed the least free nonce of its DID, and only when there is one.\<close>

theorem take_least_free:
  "snd (takeNonce a did st now) = Inr n \<longleftrightarrow>
     freeNonce (account a did) st now n \<and> (\<forall>m. freeNonce (account a did) st now m \<longrightarrow> n \<le> m)"
  by (simp add: takeNonce_def pick_result)


lemma free_witness: "snd (takeNonce newNonceAllocator ''did'' \<lparr>Base = 5, Used = 1\<rparr> 0) = Inr 7"
  by code_simp

theorem take_least_free_witness:
  "freeNonce newAccount \<lparr>Base = 5, Used = 1\<rparr> 0 7 \<and> \<not> freeNonce newAccount \<lparr>Base = 5, Used = 1\<rparr> 0 6"
proof -
  have "freeNonce newAccount \<lparr>Base = 5, Used = 1\<rparr> 0 7
      \<and> (\<forall>m. freeNonce newAccount \<lparr>Base = 5, Used = 1\<rparr> 0 m \<longrightarrow> 7 \<le> m)"
    using take_least_free [of newNonceAllocator "''did''" "\<lparr>Base = 5, Used = 1\<rparr>" 0 7] free_witness
    by simp
  moreover have "\<not> (7 :: u64) \<le> 6" by simp
  ultimately show ?thesis by blast
qed

text \<open>A write is refused a nonce exactly when its DID has no free one.\<close>

lemma take_refused_iff:
  "(\<exists>e. snd (takeNonce a did st now) = Inl e) \<longleftrightarrow> (\<forall>n. \<not> freeNonce (account a did) st now n)"
  by (simp add: takeNonce_def pick_refused_iff)


subsection \<open>The allocator under concurrent writers\<close>

text \<open>
  The allocator's lock makes each operation one step.  \<open>flights\<close> is the ghost multiset of
  submissions started (by \<^verbatim>\<open>take\<close> or \<^verbatim>\<open>begin\<close>) and not yet settled; the clock only moves on;
  the reports and outcomes are whatever the node says.
\<close>

record nonceWorld =
  alloc :: nonceAllocator
  flights :: "(string \<times> u64) multiset"
  clock :: int

inductive nonceStep :: "nonceWorld \<Rightarrow> nonceWorld \<Rightarrow> bool" where
  step_tick: "0 \<le> d \<Longrightarrow> nonceStep w (w\<lparr>clock := clock w + d\<rparr>)"
| step_observe: "observe (alloc w) did st (clock w) = (a, v) \<Longrightarrow> nonceStep w (w\<lparr>alloc := a\<rparr>)"
| step_take: "takeNonce (alloc w) did st (clock w) = (a, Inr n) \<Longrightarrow>
    nonceStep w (w\<lparr>alloc := a, flights := add_mset (did, n) (flights w)\<rparr>)"
| step_take_refused: "takeNonce (alloc w) did st (clock w) = (a, Inl e) \<Longrightarrow> nonceStep w (w\<lparr>alloc := a\<rparr>)"
| step_reserve: "reserve (alloc w) did st (clock w) = (a, r) \<Longrightarrow> nonceStep w (w\<lparr>alloc := a\<rparr>)"
| step_begin: "beginNonce (alloc w) did n st (clock w) = (a, Inr u) \<Longrightarrow>
    nonceStep w (w\<lparr>alloc := a, flights := add_mset (did, n) (flights w)\<rparr>)"
| step_begin_refused: "beginNonce (alloc w) did n st (clock w) = (a, Inl e) \<Longrightarrow> nonceStep w (w\<lparr>alloc := a\<rparr>)"
| step_settle: "(did, n) \<in># flights w \<Longrightarrow>
    nonceStep w (w\<lparr>alloc := settle (alloc w) did n outcome (clock w), flights := flights w - {#(did, n)#}\<rparr>)"

definition newWorld :: "int \<Rightarrow> nonceWorld" where
  "newWorld t = \<lparr>alloc = newNonceAllocator, flights = {#}, clock = t\<rparr>"

text \<open>The account's count of a nonce that is not known used is right, and is at most one.\<close>

definition ledgerOk :: "nonceAccount \<Rightarrow> (u64 \<Rightarrow> nat) \<Rightarrow> bool" where
  "ledgerOk acct cnt \<longleftrightarrow> (\<forall>n. knownUsed acct n \<or> flying acct n = cnt n \<and> cnt n \<le> 1)"

definition nonceInv :: "nonceWorld \<Rightarrow> bool" where
  "nonceInv w \<longleftrightarrow> (\<forall>did. ledgerOk (account (alloc w) did) (\<lambda>n. count (flights w) (did, n)))"

lemma ledger_merge: "ledgerOk acct cnt \<Longrightarrow> ledgerOk (merge acct st now) cnt"
  using mergeOp.known_kept flying_merge by (metis ledgerOk_def)

lemma known_claims [simp]: "knownUsed (acct\<lparr>acClaims := m\<rparr>) n = knownUsed acct n"
  by (simp add: knownUsed_def)

lemma flying_claims: "flying (acct\<lparr>acClaims := (acClaims acct)(n := v)\<rparr>) m =
  (if m = n then (case v of None \<Rightarrow> 0 | Some c \<Rightarrow> inFlight c) else flying acct m)"
  by (simp add: flying_def)

lemma ledger_start:
  assumes "ledgerOk acct cnt" and "flying acct n = 0" and "inFlight c = 1"
  shows "ledgerOk (acct\<lparr>acClaims := (acClaims acct)(n \<mapsto> c)\<rparr>) (cnt(n := Suc (cnt n)))"
  using assms by (auto simp: ledgerOk_def flying_claims)

lemma ledger_reserve:
  assumes "ledgerOk acct cnt" and "flying acct n = 0" and "inFlight c = 0"
  shows "ledgerOk (acct\<lparr>acClaims := (acClaims acct)(n \<mapsto> c)\<rparr>) cnt"
  using assms by (auto simp: ledgerOk_def flying_claims)

lemma flying_settle:
  "\<not> knownUsed (settleAccount acct n out now) m \<Longrightarrow>
   flying (settleAccount acct n out now) m = (if m = n then flying acct n - 1 else flying acct m)"
  by (auto simp: settleAccount_def Let_def flying_def knownUsed_def live_def emptyClaim_def
      split: if_splits option.splits)

lemma ledger_settle:
  assumes "ledgerOk acct cnt"
  shows "ledgerOk (settleAccount acct n out now) (cnt(n := cnt n - 1))"
  unfolding ledgerOk_def
proof
  fix m
  show "knownUsed (settleAccount acct n out now) m
      \<or> flying (settleAccount acct n out now) m = (cnt(n := cnt n - 1)) m \<and> (cnt(n := cnt n - 1)) m \<le> 1"
    using assms flying_settle [of acct n out now m] settleOp.known_kept [of acct m n out now]
    by (fastforce simp: ledgerOk_def)
qed

lemma count_add_fun: "(\<lambda>m. count (add_mset (did, n) M) (did, m)) =
  (\<lambda>m. count M (did, m))(n := Suc (count M (did, n)))"
  by (auto simp: fun_eq_iff)

lemma count_remove_fun: "(\<lambda>m. count (M - {#(did, n)#}) (did, m)) =
  (\<lambda>m. count M (did, m))(n := count M (did, n) - 1)"
  by (auto simp: fun_eq_iff)

lemma nonceInv_put:
  assumes "nonceInv w" and "ledgerOk acct (\<lambda>n. count fl (did, n))"
    and "\<And>d n. d \<noteq> did \<Longrightarrow> count fl (d, n) = count (flights w) (d, n)"
  shows "nonceInv (w\<lparr>alloc := putAccount (alloc w) did acct, flights := fl\<rparr>)"
  using assms by (simp add: nonceInv_def)

lemmas nonceInv_put_same = nonceInv_put [where fl = "flights w" and w = w for w, simplified]

lemma nonceInv_acct: "nonceInv w \<Longrightarrow> ledgerOk (account (alloc w) did) (\<lambda>n. count (flights w) (did, n))"
  by (simp add: nonceInv_def)

lemma pick_flying:
  assumes "pick a did st now f = (a', Inr n)"
  shows "flying (merge (account a did) st now) n = 0"
proof -
  have "pickLoop (merge (account a did) st now) [1..<NonceWindow + 1] = Some n"
    using assms
    by (auto simp: pick_def Let_def simp del: upt_Suc merge_fields split: if_splits option.splits)
  then show ?thesis by (rule pickLoop_in) (simp add: flying_def del: merge_fields)
qed

lemma take_keeps_ledger:
  assumes "takeNonce a did st now = (a', Inr n)" and "ledgerOk (account a did) cnt"
  shows "\<exists>acct. a' = putAccount a did acct \<and> ledgerOk acct (cnt(n := Suc (cnt n)))"
  using ledger_start [OF ledger_merge [OF assms(2)] pick_flying] pick_state assms(1)
  by (fastforce simp: takeNonce_def emptyClaim_def)

lemma pick_refused_ledger:
  assumes "pick a did st now f = (a', Inl e)" and "ledgerOk (account a did) cnt"
  shows "\<exists>acct. a' = putAccount a did acct \<and> ledgerOk acct cnt"
  using ledger_merge [OF assms(2)] pick_state [OF assms(1)] by auto

lemma reserve_keeps_ledger:
  assumes "reserve a did st now = (a', r)" and "ledgerOk (account a did) cnt"
  shows "\<exists>acct. a' = putAccount a did acct \<and> ledgerOk acct cnt"
proof (cases r)
  case (Inl e)
  then show ?thesis using pick_refused_ledger assms by (simp add: reserve_def)
next
  case (Inr n)
  then show ?thesis
    using ledger_reserve [OF ledger_merge [OF assms(2)] pick_flying] pick_state assms(1)
    by (fastforce simp: reserve_def emptyClaim_def)
qed

lemma begin_keeps_ledger:
  assumes "beginNonce a did n st now = (a', r)" and "ledgerOk (account a did) cnt"
  shows "\<exists>acct. a' = putAccount a did acct
      \<and> ledgerOk acct (case r of Inl _ \<Rightarrow> cnt | Inr _ \<Rightarrow> cnt(n := Suc (cnt n)))"
proof -
  define acct where "acct = (case st of None \<Rightarrow> account a did | Some s \<Rightarrow> merge (account a did) s now)"
  have ok: "ledgerOk acct cnt" using assms(2) ledger_merge by (simp add: acct_def split: option.split)
  have "ledgerOk acct' (cnt(n := Suc (cnt n)))" if "beginClaim acct n = Inr acct'" for acct'
    using that ledger_start [OF ok, of n]
    by (auto simp: beginClaim_def flying_def emptyClaim_def split: option.splits if_splits)
  then show ?thesis
    using assms(1) ok
    by (auto simp: beginNonce_def Let_def acct_def [symmetric] split: if_splits sum.splits)
qed

lemma nonceStep_inv:
  assumes "nonceInv w" and "nonceStep w w'"
  shows "nonceInv w'"
  using assms(2,1)
proof cases
  case (step_take did st a n)
  obtain acct where "a = putAccount (alloc w) did acct"
    and "ledgerOk acct (\<lambda>m. count (add_mset (did, n) (flights w)) (did, m))"
    using take_keeps_ledger [OF step_take(2) nonceInv_acct [OF assms(1)]]
    unfolding count_add_fun by blast
  then show ?thesis unfolding step_take(1) by (simp add: nonceInv_put assms(1))
next
  case (step_take_refused did st a e)
  then show ?thesis
    using pick_refused_ledger [OF _ nonceInv_acct [OF assms(1)], of did st "clock w"] assms(1)
    by (fastforce simp: takeNonce_def intro!: nonceInv_put_same)
next
  case (step_reserve did st a r)
  then show ?thesis
    using reserve_keeps_ledger [OF step_reserve(2) nonceInv_acct [OF assms(1)]] assms(1)
    by (auto intro!: nonceInv_put_same)
next
  case (step_begin did n st a u)
  obtain acct where "a = putAccount (alloc w) did acct"
    and "ledgerOk acct (\<lambda>m. count (add_mset (did, n) (flights w)) (did, m))"
    using begin_keeps_ledger [OF step_begin(2) nonceInv_acct [OF assms(1)]]
    unfolding count_add_fun by auto
  then show ?thesis unfolding step_begin(1) by (simp add: nonceInv_put assms(1))
next
  case (step_begin_refused did n st a e)
  then show ?thesis
    using begin_keeps_ledger [OF step_begin_refused(2) nonceInv_acct [OF assms(1)]] assms(1)
    by (auto intro!: nonceInv_put_same)
next
  case (step_observe did st a v)
  then show ?thesis
    using ledger_merge [OF nonceInv_acct [OF assms(1)]] assms(1)
    by (auto simp: observe_def Let_def intro!: nonceInv_put_same)
next
  case (step_settle did n out)
  have "ledgerOk (settleAccount (account (alloc w) did) n out (clock w))
          (\<lambda>m. count (flights w - {#(did, n)#}) (did, m))"
    unfolding count_remove_fun by (rule ledger_settle [OF nonceInv_acct [OF assms(1)]])
  then show ?thesis
    unfolding step_settle(1) settle_def by (intro nonceInv_put assms(1)) auto
qed (simp add: nonceInv_def)

interpretation nonceSys: invariant_system "newWorld t" nonceStep nonceInv for t
proof
  show "nonceInv (newWorld t)" by (simp add: nonceInv_def newWorld_def ledgerOk_def)
qed (rule nonceStep_inv)

inductive_cases nonceStepE: "nonceStep w w'"

lemma pick_known:
  assumes "pick a did st now f = (a', r)" and "knownUsed (account a d) n"
  shows "knownUsed (account a' d) n"
  using assms pick_state [OF assms(1)] mergeOp.known_kept
  by (auto simp del: merge_fields split: sum.splits if_splits)

lemma begin_known:
  assumes "beginNonce a did m st now = (a', r)" and "knownUsed (account a d) n"
  shows "knownUsed (account a' d) n"
  using assms mergeOp.known_kept
  by (auto simp: beginNonce_def beginClaim_def Let_def simp del: merge_fields
      split: option.splits if_splits sum.splits)

lemma nonceStep_known:
  assumes "nonceStep w w'" and "knownUsed (account (alloc w) did) n"
  shows "knownUsed (account (alloc w') did) n"
  using assms mergeOp.known_kept_put settleOp.known_kept_put
  by (cases rule: nonceStep.cases)
    (auto simp: observe_def settle_def Let_def takeNonce_def reserve_def
      simp del: merge_fields account_put intro: pick_known begin_known)

interpretation knownSys: invariant_system w nonceStep
  "\<lambda>w'. knownUsed (account (alloc w) did) n \<longrightarrow> knownUsed (account (alloc w') did) n" for w did n
  by unfold_locales (auto intro: nonceStep_known)

text \<open>
  A hold: the nonce is known used, or its claim was marked held no earlier than \<open>t\<close>.  It
  stands until the clock reaches \<^verbatim>\<open>t + NonceHold\<close>.
\<close>

definition heldSince :: "int \<Rightarrow> nonceAccount \<Rightarrow> u64 \<Rightarrow> bool" where
  "heldSince t acct n \<longleftrightarrow> knownUsed acct n \<or>
     (case acClaims acct n of None \<Rightarrow> False | Some c \<Rightarrow> (case held c of None \<Rightarrow> False | Some h \<Rightarrow> t \<le> h))"

definition heldInv :: "int \<Rightarrow> string \<Rightarrow> u64 \<Rightarrow> nonceWorld \<Rightarrow> bool" where
  "heldInv t did n w \<longleftrightarrow> t \<le> clock w \<and> (clock w - t < NonceHold \<longrightarrow> heldSince t (account (alloc w) did) n)"

lemma heldSince_live:
  "\<lbrakk>heldSince t acct n; now - t < NonceHold; acClaims acct n = Some c\<rbrakk>
   \<Longrightarrow> knownUsed acct n \<or> live c now"
  by (auto simp: heldSince_def live_def within_def split: option.splits)

lemma heldSince_merge:
  assumes "heldSince t acct n" and "now - t < NonceHold"
  shows "heldSince t (merge acct st now) n"
proof (cases "knownUsed (merge acct st now) n")
  case True
  then show ?thesis by (simp add: heldSince_def)
next
  case False
  then have "\<not> knownUsed acct n" using mergeOp.known_kept by blast
  then have "acClaims (merge acct st now) n = acClaims acct n"
    using assms False heldSince_live [OF assms]
    by (auto simp: heldSince_def mergeClaims_def knownUsed_def split: option.splits)
  then show ?thesis using assms(1) \<open>\<not> knownUsed acct n\<close> by (simp add: heldSince_def)
qed

lemma heldSince_settle:
  assumes "heldSince t acct n" and "now - t < NonceHold" and "t \<le> now"
  shows "heldSince t (settleAccount acct m out now) n"
proof (cases "knownUsed (settleAccount acct m out now) n")
  case True
  then show ?thesis by (simp add: heldSince_def)
next
  case False
  then have "\<not> knownUsed acct n" using settleOp.known_kept by blast
  then show ?thesis
    using assms False
    by (auto simp: heldSince_def settleAccount_def Let_def knownUsed_def live_def within_def
        split: option.splits if_splits)
qed

lemma heldSince_claim:
  assumes "heldSince t acct n" and "m = n \<Longrightarrow> acClaims acct n \<noteq> None \<Longrightarrow> held c = held (the (acClaims acct n))"
    and "m = n \<Longrightarrow> acClaims acct n = None \<Longrightarrow> knownUsed acct n"
  shows "heldSince t (acct\<lparr>acClaims := (acClaims acct)(m \<mapsto> c)\<rparr>) n"
  using assms by (auto simp: heldSince_def split: option.splits)

lemma pick_not_used:
  assumes "pick a did st now f = (a', Inr n)"
  shows "\<not> knownUsed (merge (account a did) st now) n" and "acClaims (merge (account a did) st now) n = None"
proof -
  have free: "freeNonce (account a did) st now n"
    using pick_result [of a did st now f n] assms by simp
  then show "\<not> knownUsed (merge (account a did) st now) n"
    by (auto simp: freeNonce_def Let_def knownUsed_def simp del: merge_fields)
  show "acClaims (merge (account a did) st now) n = None"
    using free by (auto simp: freeNonce_def Let_def mergeClaims_def split: option.splits)
qed

lemma heldSince_pick:
  assumes "pick a did st now f = (a', r)" and "heldSince t (account a d) n" and "now - t < NonceHold"
  shows "heldSince t (account a' d) n"
proof (cases "d = did")
  case False
  then show ?thesis using pick_state [OF assms(1)] assms(2) by (auto split: sum.splits)
next
  case True
  let ?m = "merge (account a did) st now"
  have m: "heldSince t ?m n" using heldSince_merge assms(2,3) True by blast
  show ?thesis
  proof (cases r)
    case (Inl e)
    then show ?thesis using pick_state [OF assms(1)] m True by simp
  next
    case (Inr k)
    have "k \<noteq> n"
      using pick_not_used [of a did st now f a' k] assms(1) Inr m
      by (auto simp: heldSince_def simp del: merge_fields)
    then show ?thesis
      using pick_state [OF assms(1)] Inr True heldSince_claim [OF m, of k "f emptyClaim"]
      by (simp del: merge_fields)
  qed
qed

lemma beginClaim_held:
  assumes "beginClaim acct m = Inr acct'" and "heldSince t acct n"
  shows "heldSince t acct' n"
  using assms heldSince_claim [OF assms(2), of m]
  by (auto simp: beginClaim_def heldSince_def split: option.splits if_splits)

lemma heldSince_begin:
  assumes "beginNonce a did m st now = (a', r)" and "heldSince t (account a d) n" and "now - t < NonceHold"
  shows "heldSince t (account a' d) n"
proof (cases "d = did")
  case False
  then show ?thesis
    using assms by (auto simp: beginNonce_def Let_def split: option.splits if_splits sum.splits)
next
  case True
  define acct where "acct = (case st of None \<Rightarrow> account a did | Some s \<Rightarrow> merge (account a did) s now)"
  have m: "heldSince t acct n"
    using heldSince_merge assms(2,3) True by (simp add: acct_def split: option.split)
  then show ?thesis
    using assms(1) beginClaim_held [OF _ m] True
    by (auto simp: beginNonce_def Let_def acct_def [symmetric] split: if_splits sum.splits)
qed

lemma heldInv_step:
  assumes "heldInv t did n w" and "nonceStep w w'"
  shows "heldInv t did n w'"
proof (cases "clock w' - t < NonceHold")
  case False
  then show ?thesis using assms by (auto simp: heldInv_def elim!: nonceStepE)
next
  case True
  have early: "clock w - t < NonceHold" and t: "t \<le> clock w"
    using assms True by (auto simp: heldInv_def elim!: nonceStepE)
  have h: "heldSince t (account (alloc w) did) n" using assms(1) early by (simp add: heldInv_def)
  have "heldSince t (account (alloc w') did) n"
    using assms(2) heldSince_merge [OF h early] heldSince_settle [OF h early t] h
      heldSince_pick [OF _ h early] heldSince_begin [OF _ h early]
    by (auto simp: observe_def settle_def Let_def takeNonce_def reserve_def
        simp del: merge_fields elim!: nonceStepE)
  then show ?thesis using assms by (auto simp: heldInv_def elim!: nonceStepE)
qed

text \<open>The world right after a submission settled, leaving its nonce held.\<close>

definition settledWorld :: "nonceWorld \<Rightarrow> string \<Rightarrow> u64 \<Rightarrow> nonceOutcome \<Rightarrow> nonceWorld" where
  "settledWorld w did n out =
     w\<lparr>alloc := settle (alloc w) did n out (clock w), flights := flights w - {#(did, n)#}\<rparr>"

lemma settle_holds:
  assumes "out \<noteq> NonceFree"
  shows "heldInv (clock w) did n (settledWorld w did n out)"
  using assms
  by (cases out) (auto simp: settledWorld_def heldInv_def heldSince_def settle_def settleAccount_def
      Let_def knownUsed_def live_def within_def NonceHold_def)

interpretation heldSys: invariant_system "settledWorld w did n out" nonceStep
  "\<lambda>w'. out \<noteq> NonceFree \<longrightarrow> heldInv (clock w) did n w'" for w did n out
  by unfold_locales (auto intro: settle_holds heldInv_step)

lemma heldInv_not_picked:
  assumes "heldInv t did n w" and "clock w - t < NonceHold"
    and "snd (pick (alloc w) did st (clock w) f) = Inr m"
  shows "m \<noteq> n"
proof -
  have "pick (alloc w) did st (clock w) f = (fst (pick (alloc w) did st (clock w) f), Inr m)"
    using assms(3) by (simp add: prod_eq_iff)
  note free = pick_not_used [OF this]
  show ?thesis
    using heldSince_merge [of t "account (alloc w) did" n "clock w" st] free assms(1,2)
    by (auto simp: heldInv_def heldSince_def simp del: merge_fields)
qed

text \<open>
  C1: no interleaving of the allocator's operations hands a write, or reserves for a
  caller, a nonce a submission is in flight under.
\<close>

theorem take_not_in_flight:
  assumes "reach (newWorld t) nonceStep w"
    and "snd (takeNonce (alloc w) did st (clock w)) = Inr n \<or> snd (reserve (alloc w) did st (clock w)) = Inr n"
  shows "(did, n) \<notin># flights w"
proof -
  obtain f a where p: "pick (alloc w) did st (clock w) f = (a, Inr n)"
    using assms(2) unfolding takeNonce_def reserve_def by (metis prod.collapse)
  have fresh: "\<not> knownUsed (merge (account (alloc w) did) st (clock w)) n"
    and "flying (merge (account (alloc w) did) st (clock w)) n = 0"
    using pick_not_used(1) [OF p] pick_flying [OF p] by blast+
  then have "flying (account (alloc w) did) n = 0" using flying_merge by metis
  moreover have "\<not> knownUsed (account (alloc w) did) n" using fresh mergeOp.known_kept by blast
  ultimately show ?thesis
    using nonceInv_acct [OF nonceSys.reach_inv [OF assms(1)]] by (metis ledgerOk_def count_eq_zero_iff)
qed

definition busyWorld :: nonceWorld where
  "busyWorld = (newWorld 0)\<lparr>
     alloc := fst (takeNonce newNonceAllocator ''did'' \<lparr>Base = 5, Used = 1\<rparr> 0),
     flights := {#(''did'', 7)#}\<rparr>"

lemma busy_reach: "reach (newWorld 0) nonceStep busyWorld"
proof -
  have "takeNonce (alloc (newWorld 0)) ''did'' \<lparr>Base = 5, Used = 1\<rparr> (clock (newWorld 0))
      = (fst (takeNonce newNonceAllocator ''did'' \<lparr>Base = 5, Used = 1\<rparr> 0), Inr 7)"
    using free_witness by (simp add: newWorld_def prod_eq_iff)
  then have "nonceStep (newWorld 0) busyWorld"
    using step_take [of "newWorld 0" "''did''" "\<lparr>Base = 5, Used = 1\<rparr>" _ 7]
    by (simp add: busyWorld_def newWorld_def)
  then show ?thesis by (rule reach_step [OF reach_start])
qed

lemma busy_next:
  "snd (takeNonce (alloc busyWorld) ''did'' \<lparr>Base = 5, Used = 1\<rparr> (clock busyWorld)) = Inr 8"
  by code_simp

theorem take_not_in_flight_witness:
  "(''did'', 8) \<notin># flights busyWorld"
  using take_not_in_flight [OF busy_reach disjI1 [OF busy_next]] .

text \<open>
  Whenever two submissions of one DID are in flight under one nonce, that nonce is
  known used, so at most one of them can still land.
\<close>

lemma shared_nonce_is_used:
  assumes "reach (newWorld t) nonceStep w" and "count (flights w) (did, n) \<ge> 2"
  shows "knownUsed (account (alloc w) did) n"
  using nonceInv_acct [OF nonceSys.reach_inv [OF assms(1)], of did] assms(2)
  by (fastforce simp: ledgerOk_def)

text \<open>
  C2: a nonce a submission left accepted, held, used or unknown is handed to no other
  write and reserved for no caller for \<^verbatim>\<open>NonceHold\<close> after it settled, whatever operations
  run in between.
\<close>

theorem hold_respected:
  assumes "reach (settledWorld w did n out) nonceStep w'" and "out \<noteq> NonceFree"
    and "clock w' - clock w < NonceHold"
    and "snd (takeNonce (alloc w') did st (clock w')) = Inr m \<or> snd (reserve (alloc w') did st (clock w')) = Inr m"
  shows "m \<noteq> n"
proof -
  have "heldInv (clock w) did n w'" using heldSys.reach_inv [OF assms(1)] assms(2) by blast
  then show ?thesis
    using heldInv_not_picked [OF _ assms(3)] assms(4) unfolding takeNonce_def reserve_def by metis
qed

lemma settled_next:
  "snd (takeNonce (alloc (settledWorld busyWorld ''did'' 7 NonceUnknown)) ''did'' \<lparr>Base = 5, Used = 1\<rparr>
     (clock (settledWorld busyWorld ''did'' 7 NonceUnknown))) = Inr 8"
  unfolding settledWorld_def by code_simp

theorem hold_respected_witness:
  "clock (settledWorld busyWorld ''did'' 7 NonceUnknown) - clock busyWorld < NonceHold \<and> (8 :: u64) \<noteq> 7"
proof -
  have early: "clock (settledWorld busyWorld ''did'' 7 NonceUnknown) - clock busyWorld < NonceHold"
    by (simp add: settledWorld_def NonceHold_def)
  with hold_respected [OF reach_start _ early disjI1 [OF settled_next]] show ?thesis by simp
qed

text \<open>
  What an account has seen used stays used through every operation, so a slow or stale
  report can neither lower the base nor free a spent nonce.
\<close>

lemma known_used_stays:
  assumes "reach w nonceStep w'" and "knownUsed (account (alloc w) did) n"
  shows "knownUsed (account (alloc w') did) n"
  using knownSys.reach_inv [OF assms(1)] assms(2) by blast

lemma known_used_stays_sample:
  "knownUsed (account (alloc busyWorld) ''did'') 6"
  by (rule known_used_stays [OF reach_start]) (unfold knownUsed_def, code_simp)

text \<open>Two submissions under the spent nonce 0, which nothing stops a caller from choosing.\<close>

definition twiceAlloc :: nonceAllocator where
  "twiceAlloc = fst (beginNonce (fst (observe (fst (beginNonce newNonceAllocator ''did'' 0 None 0))
      ''did'' \<lparr>Base = 5, Used = 0\<rparr> 0)) ''did'' 0 None 0)"

definition twiceWorld :: nonceWorld where
  "twiceWorld = \<lparr>alloc = twiceAlloc, flights = {#(''did'', 0), (''did'', 0)#}, clock = 0\<rparr>"

lemma begin_step:
  assumes "snd (beginNonce (alloc w) did n st (clock w)) = Inr u"
  shows "nonceStep w (w\<lparr>alloc := fst (beginNonce (alloc w) did n st (clock w)),
                        flights := add_mset (did, n) (flights w)\<rparr>)"
  by (rule step_begin [of _ _ _ st _ u]) (simp add: prod_eq_iff assms)

lemma observe_step: "nonceStep w (w\<lparr>alloc := fst (observe (alloc w) did st (clock w))\<rparr>)"
  by (rule step_observe [of _ did st _ "snd (observe (alloc w) did st (clock w))"]) simp

lemma twice_reach: "reach (newWorld 0) nonceStep twiceWorld"
proof -
  let ?a1 = "fst (beginNonce newNonceAllocator ''did'' 0 None 0)"
  let ?w1 = "(newWorld 0)\<lparr>alloc := ?a1, flights := {#(''did'', 0)#}\<rparr>"
  let ?a2 = "fst (observe ?a1 ''did'' \<lparr>Base = 5, Used = 0\<rparr> 0)"
  have "snd (beginNonce newNonceAllocator ''did'' 0 None 0) = Inr ()"
    and two: "snd (beginNonce ?a2 ''did'' 0 None 0) = Inr ()"
    by code_simp+
  then have "nonceStep (newWorld 0) ?w1"
    using begin_step [of "newWorld 0" "''did''" 0 None "()"] by (simp add: newWorld_def)
  moreover have "nonceStep ?w1 (?w1\<lparr>alloc := ?a2\<rparr>)"
    using observe_step [of ?w1 "''did''" "\<lparr>Base = 5, Used = 0\<rparr>"] by (simp add: newWorld_def)
  moreover have "nonceStep (?w1\<lparr>alloc := ?a2\<rparr>) twiceWorld"
    using begin_step [of "?w1\<lparr>alloc := ?a2\<rparr>" "''did''" 0 None "()"] two
    by (simp add: newWorld_def twiceWorld_def twiceAlloc_def)
  ultimately show ?thesis by (meson reach_start reach_step)
qed

lemma shared_nonce_is_used_sample: "knownUsed (account (alloc twiceWorld) ''did'') 0"
  by (rule shared_nonce_is_used [OF twice_reach]) (simp add: twiceWorld_def)

subsection \<open>Reading reports and refusals\<close>

lemma view_fields [simp]: "Base (view acct) = acBase acct"
  by (simp add: view_def)

lemma bit_view_fold:
  "bit (foldl (\<lambda>w n. let offset = n - b - 1
                     in if offset < of_nat NonceWindow then w OR push_bit (unat offset) 1 else w) w ns :: u32) k
   \<longleftrightarrow> bit w k \<or> (k < 32 \<and> (\<exists>n \<in> set ns. n - b - 1 < of_nat NonceWindow \<and> unat (n - b - 1) = k))"
  by (induction ns arbitrary: w) (auto simp: Let_def bit_simps)

lemma bit_view:
  "bit (Used (view acct)) k \<longleftrightarrow>
     (k < 32 \<and> (\<exists>n \<in> set (acUsed acct). n - acBase acct - 1 < of_nat NonceWindow \<and> unat (n - acBase acct - 1) = k))"
  unfolding view_def by (simp only: bit_view_fold AccountNonceState.select_convs) simp

lemma IsUsed_view:
  "IsUsed (view acct) n \<longleftrightarrow>
     n \<le> acBase acct \<or> n \<in> set (acUsed acct) \<and> n - acBase acct - 1 < of_nat NonceWindow"
proof -
  have same: "m = n" if "unat (m - acBase acct - 1) = unat (n - acBase acct - 1)" for m
  proof -
    have "m - acBase acct - 1 = n - acBase acct - 1" using that by (rule unsigned_word_eqI)
    then show ?thesis by simp
  qed
  have "unat (n - acBase acct - 1) < 32" if "n - acBase acct - 1 < of_nat NonceWindow"
    using that by (simp add: word_less_nat_alt NonceWindow_def)
  then show ?thesis
    by (auto simp: IsUsed_def Let_def and_exp_eq_0_iff_not_bit bit_view dest: same)
qed

text \<open>
  An 11-byte account state reads as its big-endian base and a bitmap in which bit
  \<open>i mod 8\<close> of byte \<open>i div 8\<close> marks the nonce \<open>i + 1\<close> above the base used.
\<close>

lemma parse_nonce_state_bitmap:
  assumes "length v = 11"
  shows "\<exists>st. ParseAccountNonceState v = Inr st \<and> unat (Base st) = beVal (take 8 v)
           \<and> (\<forall>i < 24. bit (Used st) i = bit (v ! (8 + i div 8)) (i mod 8))"
proof -
  have bytes: "\<not> bit b k" if "8 \<le> k" for b :: byte and k
    using that bit_imp_le_length [of b k] by auto
  have bits: "bit (ucast x OR push_bit 8 (ucast y) OR push_bit 16 (ucast z) :: u32) i
      = bit ([x, y, z] ! (i div 8)) (i mod 8)" if i24: "i < 24" for i and x y z :: byte
  proof -
    consider "i < 8" | "8 \<le> i \<and> i < 16" | "16 \<le> i \<and> i < 24" using i24 by linarith
    then show ?thesis
    proof cases
      case 1
      then show ?thesis by (simp add: bit_simps)
    next
      case 2
      then have "i div 8 = 1" "i mod 8 = i - 8" by presburger+
      then show ?thesis using 2 bytes by (auto simp: bit_simps)
    next
      case 3
      then have "i div 8 = 2" "i mod 8 = i - 16" by presburger+
      then show ?thesis using 3 bytes by (auto simp: bit_simps)
    qed
  qed
  have nth: "[v ! 8, v ! 9, v ! 10] ! k = v ! (8 + k)" if "k < 3" for k
    using that by (auto simp: less_Suc_eq numeral_3_eq_3 numeral_2_eq_2)
  have k: "i div 8 < 3" if "i < 24" for i :: nat using that by linarith
  have "unat (of_nat (beVal (take 8 v)) :: u64) = beVal (take 8 v)"
    using beVal_bound [of "take 8 v"] assms by (simp add: unat_of_nat)
  then show ?thesis
    using assms bits [of _ "v ! 8" "v ! 9" "v ! 10"] nth k by (simp add: ParseAccountNonceState_def)
qed

lemma parse_nonce_state_bitmap_sample:
  "\<exists>st. ParseAccountNonceState [0, 0, 0, 0, 0, 0, 1, 2, 0, 4, 0] = Inr st \<and> unat (Base st) = 258
      \<and> bit (Used st) 10"
proof -
  let ?v = "[0, 0, 0, 0, 0, 0, 1, 2, 0, 4, 0] :: bytes"
  obtain st where st: "ParseAccountNonceState ?v = Inr st" "unat (Base st) = beVal (take 8 ?v)"
    and bits: "\<forall>i < 24. bit (Used st) i = bit (?v ! (8 + i div 8)) (i mod 8)"
    using parse_nonce_state_bitmap [of ?v] by auto
  have "beVal (take 8 ?v) = 258" and "bit (?v ! (8 + 10 div 8)) (10 mod 8 :: nat)" by code_simp+
  moreover have "(10 :: nat) < 24" by simp
  ultimately show ?thesis using st bits by metis
qed

lemma append_digits_cut:
  assumes "formatUint m @ c # r = formatUint n @ d # s" and "\<not> isDigit c" and "\<not> isDigit d"
  shows "m = n"
proof -
  have "takeWhile isDigit (formatUint k @ e # t) = formatUint k" if "\<not> isDigit e" for k e t
    using formatUint_digits [of k] that by (simp add: takeWhile_append list_all_iff)
  then have "formatUint m = formatUint n" using assms by metis
  then show ?thesis by (simp add: formatUint_inj)
qed

lemma hasPrefix_iff: "hasPrefix p s \<longleftrightarrow> (\<exists>r. s = p @ r)"
  by (metis append_eq_conv_conj append_take_drop_id hasPrefix_def)

lemma refusal_shape:
  assumes "(if log = h \<or> hasPrefix (h @ s1) log then NonceHeld
            else if log = u \<or> hasPrefix (u @ s2) log then NonceUsed
            else case cutPrefix based log of
              Some b \<Rightarrow> (case parseUint 64 b of Some _ \<Rightarrow> NonceUsed | None \<Rightarrow> NonceFree)
            | None \<Rightarrow> NonceFree) \<noteq> NonceFree"
  shows "\<exists>p \<in> {h, u, based}. \<exists>r. log = p @ r"
  using assms by (auto simp: hasPrefix_iff cutPrefix_eq_Some split: if_splits option.splits)

lemma refusal_names:
  assumes "refusalOutcome log did n \<noteq> NonceFree"
  shows "\<exists>p r. p \<in> {''Nonce '', ''Invalid nonce: ''}
      \<and> stripNodePrefix log = p @ formatUint (unat n) @ CHR '' '' # r"
proof -
  let ?n = "formatUint (unat n)"
  let ?held = "''Nonce '' @ ?n @ '' of '' @ did @ '' is held by a pending transaction''"
  let ?used = "''Invalid nonce: '' @ ?n @ '' already used''"
  let ?based = "''Invalid nonce: '' @ ?n @ '' <= base nonce ''"
  have "\<exists>p \<in> {?held, ?used, ?based}. \<exists>r. stripNodePrefix log = p @ r"
    by (rule refusal_shape) (use assms in \<open>unfold refusalOutcome_def Let_def\<close>)
  then obtain r where
    "stripNodePrefix log = ?held @ r \<or> stripNodePrefix log = ?used @ r \<or> stripNodePrefix log = ?based @ r"
    by blast
  then have "\<exists>t. stripNodePrefix log = ''Nonce '' @ ?n @ CHR '' '' # t
      \<or> stripNodePrefix log = ''Invalid nonce: '' @ ?n @ CHR '' '' # t"
    by (simp only: append_assoc append_Cons) blast
  then show ?thesis by blast
qed

text \<open>
  A refusal settles only the nonce it names: a log that leaves one nonce held or used
  leaves every other nonce free, whatever text the log quotes.
\<close>

lemma refusal_names_one_nonce:
  assumes "refusalOutcome log did n \<noteq> NonceFree" and "m \<noteq> n"
  shows "refusalOutcome log did' m = NonceFree"
proof (rule ccontr)
  assume other: "refusalOutcome log did' m \<noteq> NonceFree"
  obtain p r where p: "p \<in> {''Nonce '', ''Invalid nonce: ''}
      \<and> stripNodePrefix log = p @ formatUint (unat m) @ CHR '' '' # r"
    using refusal_names [OF other] by (elim exE)
  obtain q s where q: "q \<in> {''Nonce '', ''Invalid nonce: ''}
      \<and> stripNodePrefix log = q @ formatUint (unat n) @ CHR '' '' # s"
    using refusal_names [OF assms(1)] by (elim exE)
  have eq: "p @ formatUint (unat m) @ CHR '' '' # r = q @ formatUint (unat n) @ CHR '' '' # s"
    using p q by argo
  have "p \<noteq> []" "q \<noteq> []" and hds: "hd p = hd q \<longrightarrow> p = q" using p q by auto
  then have "p = q" using arg_cong [OF eq, of hd] by simp
  then have "formatUint (unat m) @ CHR '' '' # r = formatUint (unat n) @ CHR '' '' # s"
    using eq by simp
  then have "unat m = unat n" by (rule append_digits_cut) (simp_all add: isDigit_def)
  then have "m = n" by (rule unsigned_word_eqI)
  then show False using assms(2) by blast
qed

lemma refusal_names_one_nonce_sample:
  "refusalOutcome ''Invalid nonce: 12 already used (replay)'' ''did'' 1 = NonceFree"
  by (rule refusal_names_one_nonce [of _ "''did''" 12]) (code_simp, simp)

end
