(* ===== verification/Uint128.thy ===== *)
theory Uint128
  imports Prelude
begin

text \<open>
  The chain's 128-bit amounts (\<^verbatim>\<open>consensus/uint128.go\<close>): two 64-bit halves, read from
  decimal digits with explicit carries, written in decimal and in little-endian bytes.
  The theory shows that reading refuses exactly the texts that are not a decimal number
  below \<open>2 ^ 128\<close>, that no carry is lost, and that writing and reading are inverse.
\<close>

subsection \<open>Double-width arithmetic\<close>

text \<open>\<^verbatim>\<open>bits.Mul64\<close>: the high and low half of a product.\<close>

definition mul64 :: "u64 \<Rightarrow> u64 \<Rightarrow> u64 \<times> u64" where
  "mul64 x y = (of_nat (unat x * unat y div 2 ^ 64), x * y)"

text \<open>\<^verbatim>\<open>bits.Add64\<close>: the sum and the carry out.\<close>

definition add64 :: "u64 \<Rightarrow> u64 \<Rightarrow> u64 \<Rightarrow> u64 \<times> u64" where
  "add64 x y c = (x + y + c, of_nat ((unat x + unat y + unat c) div 2 ^ 64))"

subsection \<open>The type and its operations\<close>

record Uint128 =
  Hi :: u64
  Lo :: u64

datatype uint128Error =
    NilNotU128
  | NegativeNotU128
  | TooManyBits nat
  | NotDecimalLong nat
  | NotDecimal string
  | TooManyDigits nat
  | MoreThanU128 string

definition NewUint128 :: "u64 \<Rightarrow> Uint128" where
  "NewUint128 v = \<lparr>Hi = 0, Lo = v\<rparr>"

text \<open>\<^verbatim>\<open>big.Int.BitLen\<close> of a magnitude.\<close>

fun bitLen :: "nat \<Rightarrow> nat" where
  "bitLen n = (if n = 0 then 0 else Suc (bitLen (n div 2)))"

declare bitLen.simps [simp del]

text \<open>A \<^verbatim>\<open>*big.Int\<close> is an optional integer, \<open>None\<close> for nil.\<close>

definition Uint128FromBig :: "int option \<Rightarrow> uint128Error + Uint128" where
  "Uint128FromBig big =
     (case big of
        None \<Rightarrow> Inl NilNotU128
      | Some v \<Rightarrow>
          if v < 0 then Inl NegativeNotU128
          else if bitLen (nat v) > 128 then Inl (TooManyBits (bitLen (nat v)))
          else let lo = v AND (2 ^ 64 - 1); hi = drop_bit 64 v
               in Inr \<lparr>Hi = of_int hi, Lo = of_int lo\<rparr>)"

definition maxUint128Digits :: nat where
  "maxUint128Digits = 39"

text \<open>\<^verbatim>\<open>strings.Trim(s, "0123456789")\<close>.\<close>

definition trimDigits :: "string \<Rightarrow> string" where
  "trimDigits s = rev (dropWhile isDigit (rev (dropWhile isDigit s)))"

fun parseDigits :: "string \<Rightarrow> string \<Rightarrow> Uint128 \<Rightarrow> uint128Error + Uint128" where
  "parseDigits digits [] u = Inr u"
| "parseDigits digits (d # ds) u =
     (let (hiCarry, hi) = mul64 (Hi u) 10;
          (loCarry, lo) = mul64 (Lo u) 10;
          (hi1, c1) = add64 hi loCarry 0;
          (lo1, c2) = add64 lo (of_nat (digitVal d)) 0;
          (hi2, c3) = add64 hi1 0 c2
      in if hiCarry \<noteq> 0 \<or> c1 \<noteq> 0 \<or> c3 \<noteq> 0 then Inl (MoreThanU128 digits)
         else parseDigits digits ds \<lparr>Hi = hi2, Lo = lo1\<rparr>)"

definition ParseUint128 :: "string \<Rightarrow> uint128Error + Uint128" where
  "ParseUint128 s =
     (let digits = dropWhile (\<lambda>c. c = CHR ''0'') s
      in if s = [] \<or> trimDigits digits \<noteq> []
         then (if length s > 64 then Inl (NotDecimalLong (length s)) else Inl (NotDecimal s))
         else if length digits > maxUint128Digits then Inl (TooManyDigits (length digits))
         else parseDigits digits digits \<lparr>Hi = 0, Lo = 0\<rparr>)"

definition Big :: "Uint128 \<Rightarrow> int" where
  "Big u = push_bit 64 (int (unat (Hi u))) OR int (unat (Lo u))"

text \<open>\<^verbatim>\<open>Uint128.String\<close>, the decimal digits of the value.\<close>

definition StringUint128 :: "Uint128 \<Rightarrow> string" where
  "StringUint128 u = formatUint (nat (Big u))"

definition IsZero :: "Uint128 \<Rightarrow> bool" where
  "IsZero u \<longleftrightarrow> Hi u = 0 \<and> Lo u = 0"

definition appendLittleEndian :: "Uint128 \<Rightarrow> bytes \<Rightarrow> bytes" where
  "appendLittleEndian u b = (b @ leBytes 8 (unat (Lo u))) @ leBytes 8 (unat (Hi u))"

definition MarshalJSON :: "Uint128 \<Rightarrow> string" where
  "MarshalJSON u = StringUint128 u"

subsection \<open>The value of a pair of halves\<close>

definition u128Val :: "Uint128 \<Rightarrow> nat" where
  "u128Val u = unat (Hi u) * 2 ^ 64 + unat (Lo u)"

lemma unat_u64 [simp]: "unat (x :: u64) < 2 ^ 64"
  using unsigned_less [of x] by simp

lemma u128Val_bound: "u128Val u < 2 ^ 128"
proof -
  have "unat (Hi u) * 2 ^ 64 \<le> (2 ^ 64 - 1) * 2 ^ 64"
    using unat_u64 [of "Hi u"] by (intro mult_le_mono1) linarith
  moreover have "unat (Lo u) < 2 ^ 64" by (rule unat_u64)
  ultimately show ?thesis by (simp add: u128Val_def)
qed

lemma u128Val_inj: "u128Val u = u128Val v \<longleftrightarrow> u = v"
proof
  assume eq: "u128Val u = u128Val v"
  have "u128Val w div 2 ^ 64 = unat (Hi w)" "u128Val w mod 2 ^ 64 = unat (Lo w)" for w
    using unat_u64 [of "Lo w"] by (simp_all add: u128Val_def)
  then have "unat (Hi u) = unat (Hi v)" "unat (Lo u) = unat (Lo v)" using eq by metis+
  then show "u = v" by (simp add: unsigned_word_eqI)
qed simp

lemma push_or: "0 \<le> b \<Longrightarrow> b < 2 ^ k \<Longrightarrow> push_bit k a OR b = a * 2 ^ k + b" for a b :: int
  using concat_bit_eq [of k b a] concat_bit_def [of k b a]
  by (simp add: take_bit_int_eq_self or.commute push_bit_eq_mult add.commute)

lemma Big_val: "Big u = int (u128Val u)"
proof -
  have "int (unat (Lo u)) < int (2 ^ 64)" using unat_u64 [of "Lo u"] by (simp only: of_nat_less_iff)
  then show ?thesis by (simp add: Big_def push_or u128Val_def)
qed

lemma bitLen_le: "bitLen n \<le> k \<longleftrightarrow> n < 2 ^ k"
proof (induction n arbitrary: k rule: bitLen.induct)
  case (1 n)
  show ?case
  proof (cases "n = 0")
    case True
    then show ?thesis by (simp add: bitLen.simps)
  next
    case False
    have step: "bitLen n = Suc (bitLen (n div 2))" using False by (subst bitLen.simps) simp
    show ?thesis
    proof (cases k)
      case 0
      then show ?thesis using False step by simp
    next
      case (Suc j)
      have "bitLen (n div 2) \<le> j \<longleftrightarrow> n div 2 < 2 ^ j" using "1" False by blast
      then show ?thesis using Suc step by (simp add: div_less_iff_less_mult mult.commute)
    qed
  qed
qed

lemma of_halves:
  assumes "v < 2 ^ 128"
  shows "u128Val \<lparr>Hi = of_nat (v div 2 ^ 64), Lo = of_nat (v mod 2 ^ 64)\<rparr> = v"
proof -
  have "v div 2 ^ 64 < 2 ^ 64" using assms by (simp add: less_mult_imp_div_less)
  then show ?thesis by (simp add: u128Val_def unat_of_nat)
qed

subsection \<open>One digit\<close>

lemma unat_add64:
  "unat (fst (add64 x y c)) + 2 ^ 64 * ((unat x + unat y + unat c) div 2 ^ 64) = unat x + unat y + unat c"
  by (simp add: add64_def unat_word_ariths mod_add_left_eq)

lemma unat_mul64:
  "unat (snd (mul64 x y)) + 2 ^ 64 * (unat x * unat y div 2 ^ 64) = unat x * unat y"
  by (simp add: mul64_def unat_word_ariths)

lemma of_nat_u64_0: "n < 2 ^ 64 \<Longrightarrow> (of_nat n :: u64) = 0 \<longleftrightarrow> n = 0"
  by (auto simp: word_of_nat_eq_0_iff dest: nat_dvd_not_less)

lemma carry_nat:
  fixes B :: nat
  assumes "h10 = hc * B + hi" and "l10 = lc * B + lo" and "hi + lc = c1 * B + hi1"
    and "lo + d = c2 * B + lo1" and "hi1 + c2 = c3 * B + hi2" and "hi2 < B" and "lo1 < B"
  shows "h10 * B + l10 + d = (hc + c1 + c3) * (B * B) + (hi2 * B + lo1)" and "hi2 * B + lo1 < B * B"
proof -
  have "h10 * B + l10 + d = hc * B * B + (hi + lc) * B + (lo + d)"
    using assms(1,2) by (simp add: algebra_simps)
  also have "\<dots> = hc * B * B + (c1 * B + hi1) * B + (c2 * B + lo1)" using assms(3,4) by simp
  also have "\<dots> = hc * B * B + c1 * B * B + (hi1 + c2) * B + lo1" by (simp add: algebra_simps)
  also have "\<dots> = (hc + c1 + c3) * (B * B) + (hi2 * B + lo1)" using assms(5) by (simp add: algebra_simps)
  finally show "h10 * B + l10 + d = (hc + c1 + c3) * (B * B) + (hi2 * B + lo1)" .
  have "Suc hi2 * B \<le> B * B" using assms(6) by (intro mult_le_mono1) simp
  then show "hi2 * B + lo1 < B * B" using assms(7) by simp
qed

definition digitStep :: "Uint128 \<Rightarrow> nat \<Rightarrow> Uint128 option" where
  "digitStep u d =
     (let (hiCarry, hi) = mul64 (Hi u) 10; (loCarry, lo) = mul64 (Lo u) 10;
          (hi1, c1) = add64 hi loCarry 0; (lo1, c2) = add64 lo (of_nat d) 0; (hi2, c3) = add64 hi1 0 c2
      in if hiCarry \<noteq> 0 \<or> c1 \<noteq> 0 \<or> c3 \<noteq> 0 then None else Some \<lparr>Hi = hi2, Lo = lo1\<rparr>)"

lemma parseDigits_step:
  "parseDigits ds (c # cs) u =
     (case digitStep u (digitVal c) of None \<Rightarrow> Inl (MoreThanU128 ds) | Some v \<Rightarrow> parseDigits ds cs v)"
  by (simp add: digitStep_def Let_def split: prod.splits)

lemma of_nat_mod_u64: "(of_nat (n mod 2 ^ 64) :: u64) = of_nat n"
  by (simp add: word_of_nat_eq_iff take_bit_eq_mod)

lemma unat_carry: "n < 2 ^ 64 \<Longrightarrow> unat (of_nat n :: u64) = n"
  by (simp add: unat_of_nat)

lemma add64_nat:
  assumes "x < 2 ^ 64" and "y < 2 ^ 64" and "c < 2 ^ 64"
  shows "add64 (of_nat x) (of_nat y) (of_nat c) =
    (of_nat ((x + y + c) mod 2 ^ 64), of_nat ((x + y + c) div 2 ^ 64))"
  using assms unfolding of_nat_mod_u64 by (simp add: add64_def unat_carry)

lemma digitStep_correct:
  assumes "d < 10"
  shows "(case digitStep u d of
            None \<Rightarrow> 2 ^ 128 \<le> u128Val u * 10 + d
          | Some v \<Rightarrow> u128Val v = u128Val u * 10 + d)"
proof -
  define B :: nat where "B = 2 ^ 64"
  have B: "10 < B" "2 ^ 128 = B * B" by (simp_all add: B_def)
  let ?h = "unat (Hi u) * 10" and ?l = "unat (Lo u) * 10"
  define hi lc lo where "hi = ?h mod B" and "lc = ?l div B" and "lo = ?l mod B"
  define hi1 c2 lo1 where "hi1 = (hi + lc) mod B" and "c2 = (lo + d) div B" and "lo1 = (lo + d) mod B"
  note defs = hi_def lc_def lo_def hi1_def c2_def lo1_def
  have ub: "unat x < B" for x :: u64 unfolding B_def by (rule unat_u64)
  have lc10: "lc < 10" unfolding lc_def using ub [of "Lo u"] by (simp add: less_mult_imp_div_less)
  have hc10: "?h div B < 10" using ub [of "Hi u"] by (simp add: less_mult_imp_div_less)
  have mods: "hi < B" "lo < B" "hi1 < B" "lo1 < B" unfolding defs using B(1) by simp_all
  have c2b: "c2 < 2" unfolding c2_def using mods(2) assms B(1) by (intro less_mult_imp_div_less) simp
  have c1b: "(hi + lc) div B < 2" using mods(1) lc10 B(1) by (intro less_mult_imp_div_less) simp
  have c3b: "(hi1 + c2) div B < 2" using mods(3) c2b B(1) by (intro less_mult_imp_div_less) simp
  have w: "mul64 (Hi u) 10 = (of_nat (?h div B), of_nat hi)" "mul64 (Lo u) 10 = (of_nat lc, of_nat lo)"
    unfolding mul64_def defs B_def of_nat_mod_u64 by simp_all
  have a: "add64 (of_nat hi) (of_nat lc) 0 = (of_nat hi1, of_nat ((hi + lc) div B))"
    "add64 (of_nat lo) (of_nat d) 0 = (of_nat lo1, of_nat c2)"
    "add64 (of_nat hi1) 0 (of_nat c2) = (of_nat ((hi1 + c2) mod B), of_nat ((hi1 + c2) div B))"
    using add64_nat [of hi lc 0, folded B_def] add64_nat [of lo d 0, folded B_def]
      add64_nat [of hi1 0 c2, folded B_def] mods lc10 c2b assms B(1)
    by (simp_all add: hi1_def lo1_def c2_def)
  have z: "(of_nat (?h div B) :: u64) = 0 \<longleftrightarrow> ?h div B = 0"
    "(of_nat ((hi + lc) div B) :: u64) = 0 \<longleftrightarrow> (hi + lc) div B = 0"
    "(of_nat ((hi1 + c2) div B) :: u64) = 0 \<longleftrightarrow> (hi1 + c2) div B = 0"
    using hc10 c1b c3b by (simp_all add: of_nat_u64_0)
  have e: "?h = ?h div B * B + hi" "?l = lc * B + lo" "hi + lc = (hi + lc) div B * B + hi1"
    "lo + d = c2 * B + lo1" "hi1 + c2 = (hi1 + c2) div B * B + (hi1 + c2) mod B" "(hi1 + c2) mod B < B"
    using B(1) unfolding defs by simp_all
  have "u128Val u * 10 + d = ?h * B + ?l + d"
    unfolding u128Val_def B_def by (simp only: distrib_left distrib_right mult.assoc mult.commute mult.left_commute)
  then have tot: "u128Val u * 10 + d
      = (?h div B + (hi + lc) div B + (hi1 + c2) div B) * (B * B) + ((hi1 + c2) mod B * B + lo1)"
    using carry_nat(1) [OF e mods(4)] by argo
  have val: "u128Val \<lparr>Hi = of_nat ((hi1 + c2) mod B), Lo = of_nat lo1\<rparr> = (hi1 + c2) mod B * B + lo1"
    using mods B(1) by (simp add: u128Val_def unat_carry B_def)
  show ?thesis
  proof (cases "?h div B + (hi + lc) div B + (hi1 + c2) div B")
    case 0
    then show ?thesis using tot val z by (simp add: digitStep_def w a)
  next
    case (Suc k)
    then have "B * B \<le> u128Val u * 10 + d" using tot by simp
    moreover have "digitStep u d = None" using Suc z by (auto simp: digitStep_def w a)
    ultimately show ?thesis using B(2) by simp
  qed
qed

subsection \<open>The whole number\<close>

lemma foldl_digits_ge: "a \<le> foldl (\<lambda>a c. a * 10 + digitVal c) a ds"
proof (induction ds arbitrary: a)
  case Nil
  then show ?case by simp
next
  case (Cons d ds)
  have "a \<le> a * 10 + digitVal d" by simp
  also have "\<dots> \<le> foldl (\<lambda>a c. a * 10 + digitVal c) (a * 10 + digitVal d) ds" by (rule Cons.IH)
  finally show ?case by simp
qed

lemma parseDigits_correct:
  assumes "list_all isDigit cs"
  shows "(case parseDigits ds cs u of
            Inl _ \<Rightarrow> 2 ^ 128 \<le> foldl (\<lambda>a c. a * 10 + digitVal c) (u128Val u) cs
          | Inr v \<Rightarrow> u128Val v = foldl (\<lambda>a c. a * 10 + digitVal c) (u128Val u) cs)"
  using assms
proof (induction cs arbitrary: u)
  case Nil
  then show ?case by simp
next
  case (Cons c cs)
  have "digitVal c < 10" using Cons.prems by (auto simp: isDigit_def digitVal_def)
  note step = digitStep_correct [OF this, of u]
  show ?case
  proof (cases "digitStep u (digitVal c)")
    case None
    then have "2 ^ 128 \<le> u128Val u * 10 + digitVal c" using step by simp
    also have "\<dots> \<le> foldl (\<lambda>a c. a * 10 + digitVal c) (u128Val u * 10 + digitVal c) cs"
      by (rule foldl_digits_ge)
    finally show ?thesis using None by (simp only: parseDigits_step foldl_Cons option.case sum.case)
  next
    case (Some v)
    then have "u128Val v = u128Val u * 10 + digitVal c" using step by simp
    then show ?thesis
      using Cons.IH [of v] Cons.prems Some by (simp only: parseDigits_step foldl_Cons option.case list.pred_inject)
  qed
qed

lemma digitsVal_dropZeros: "digitsVal (dropWhile (\<lambda>c. c = CHR ''0'') s) = digitsVal s"
  by (induction s) (simp_all add: digitsVal_def digitVal_def)

lemma trimDigits_Nil: "trimDigits s = [] \<longleftrightarrow> list_all isDigit s"
proof -
  have "list_all isDigit (dropWhile isDigit s) \<longleftrightarrow> list_all isDigit s"
    by (induction s) auto
  then show ?thesis by (auto simp: trimDigits_def list_all_iff)
qed

lemma all_dropZeros:
  "list_all isDigit (dropWhile (\<lambda>c. c = CHR ''0'') s) \<longleftrightarrow> list_all isDigit s"
  by (induction s) (auto simp: isDigit_def)

lemma digits_ge:
  "a * 10 ^ length cs \<le> foldl (\<lambda>a c. a * 10 + digitVal c) a cs"
proof (induction cs arbitrary: a)
  case Nil
  then show ?case by simp
next
  case (Cons c cs)
  have "a * 10 ^ length (c # cs) \<le> (a * 10 + digitVal c) * 10 ^ length cs" by (simp add: algebra_simps)
  also have "\<dots> \<le> foldl (\<lambda>a c. a * 10 + digitVal c) (a * 10 + digitVal c) cs" by (rule Cons.IH)
  finally show ?case by simp
qed

lemma long_digits:
  assumes "list_all isDigit s" and "maxUint128Digits < length (dropWhile (\<lambda>c. c = CHR ''0'') s)"
  shows "2 ^ 128 \<le> digitsVal s"
proof -
  obtain c cs where t: "dropWhile (\<lambda>c. c = CHR ''0'') s = c # cs"
    using assms(2) by (cases "dropWhile (\<lambda>c. c = CHR ''0'') s") auto
  then have c0: "c \<noteq> CHR ''0''"
    using hd_dropWhile [of "\<lambda>c. c = CHR ''0''" s] by simp
  have "isDigit c" using all_dropZeros [of s] assms(1) t by simp
  moreover have "of_char c \<noteq> (48 :: nat)"
  proof
    assume "of_char c = (48 :: nat)"
    then have "char_of (of_char c :: nat) = (char_of (48 :: nat) :: char)" by (rule arg_cong)
    moreover have "(char_of (48 :: nat) :: char) = CHR ''0''" by code_simp
    ultimately show False using c0 by simp
  qed
  ultimately have "1 \<le> digitVal c" by (auto simp: isDigit_def digitVal_def)
  have "(2 :: nat) ^ 128 \<le> 10 ^ 39" by simp
  also have "\<dots> \<le> 10 ^ length cs" using assms(2) t by (intro power_increasing) (simp_all add: maxUint128Digits_def)
  also have "\<dots> \<le> digitVal c * 10 ^ length cs" using \<open>1 \<le> digitVal c\<close> by simp
  also have "\<dots> \<le> digitsVal (c # cs)" using digits_ge [of "digitVal c" cs] by (simp add: digitsVal_def)
  finally show ?thesis using digitsVal_dropZeros [of s] t by simp
qed

lemma ParseUint128_iff:
  "(\<exists>u. ParseUint128 s = Inr u \<and> u128Val u = v) \<longleftrightarrow>
     s \<noteq> [] \<and> list_all isDigit s \<and> digitsVal s = v \<and> v < 2 ^ 128"
proof (cases "s \<noteq> [] \<and> list_all isDigit s \<and> length (dropWhile (\<lambda>c. c = CHR ''0'') s) \<le> maxUint128Digits")
  case True
  let ?d = "dropWhile (\<lambda>c. c = CHR ''0'') s"
  have digits: "list_all isDigit ?d" using True by (simp add: all_dropZeros)
  have p: "ParseUint128 s = parseDigits ?d ?d \<lparr>Hi = 0, Lo = 0\<rparr>"
    using True digits by (simp add: ParseUint128_def trimDigits_Nil Let_def)
  have z: "u128Val \<lparr>Hi = 0, Lo = 0\<rparr> = 0" by (simp add: u128Val_def)
  have "case ParseUint128 s of Inl _ \<Rightarrow> 2 ^ 128 \<le> digitsVal s | Inr u \<Rightarrow> u128Val u = digitsVal s"
    using parseDigits_correct [OF digits, where ds = ?d and u = "\<lparr>Hi = 0, Lo = 0\<rparr>"] digitsVal_dropZeros [of s]
    unfolding p z digitsVal_def by (simp only:)
  then show ?thesis
    using True u128Val_bound [of "projr (ParseUint128 s)"] by (cases "ParseUint128 s") auto
next
  case False
  then have "\<nexists>u. ParseUint128 s = Inr u"
    by (auto simp: ParseUint128_def Let_def trimDigits_Nil all_dropZeros split: if_splits)
  then show ?thesis using False long_digits [of s] by force
qed

lemma ParseUint128_decimal [simp]: "ParseUint128 (StringUint128 u) = Inr u"
proof -
  have "\<exists>v. ParseUint128 (StringUint128 u) = Inr v \<and> u128Val v = u128Val u"
    using u128Val_bound [of u] unfolding ParseUint128_iff
    by (simp add: StringUint128_def Big_val formatUint_digits)
  then show ?thesis by (auto simp: u128Val_inj)
qed

lemma appendLittleEndian_cut:
  "appendLittleEndian u b @ r = appendLittleEndian v b @ s \<Longrightarrow> u = v \<and> r = s"
  using leCode.cut [of "unat (Lo u)" 8 "unat (Lo v)"] leCode.cut [of "unat (Hi u)" 8 "unat (Hi v)" r s]
    unat_u64 [of "Lo u"] unat_u64 [of "Lo v"] unat_u64 [of "Hi u"] unat_u64 [of "Hi v"]
  by (auto simp: appendLittleEndian_def u128Val_def simp flip: u128Val_inj)

interpretation u128Code: prefix_free "\<lambda>_. True" "\<lambda>u. appendLittleEndian u []"
  by unfold_locales (auto dest: appendLittleEndian_cut)

lemma FromBig_correct:
  "(\<exists>u. Uint128FromBig big = Inr u \<and> big = Some (Big u)) \<longleftrightarrow> (\<exists>v. big = Some v \<and> 0 \<le> v \<and> v < 2 ^ 128)"
proof
  assume "\<exists>u. Uint128FromBig big = Inr u \<and> big = Some (Big u)"
  then obtain u where "big = Some (Big u)" by blast
  moreover have "int (u128Val u) < int (2 ^ 128)" using u128Val_bound [of u] by (simp only: of_nat_less_iff)
  ultimately show "\<exists>v. big = Some v \<and> 0 \<le> v \<and> v < 2 ^ 128" by (simp add: Big_val)
next
  assume "\<exists>v. big = Some v \<and> 0 \<le> v \<and> v < 2 ^ 128"
  then obtain v where v: "big = Some v" "0 \<le> v" "v < 2 ^ 128" by blast
  then have small: "nat v < 2 ^ 128" by (simp add: nat_less_iff)
  have mask: "v AND (2 ^ 64 - 1) = v mod 2 ^ 64"
    by (metis mask_eq_exp_minus_1 take_bit_eq_mask take_bit_eq_mod)
  let ?u = "\<lparr>Hi = of_nat (nat v div 2 ^ 64), Lo = of_nat (nat v mod 2 ^ 64)\<rparr> :: Uint128"
  have w: "(of_int (v div 2 ^ 64) :: u64) = of_nat (nat v div 2 ^ 64)"
    "(of_int (v mod 2 ^ 64) :: u64) = of_nat (nat v mod 2 ^ 64)"
  proof -
    obtain n where n: "v = int n" using v(2) nonneg_int_cases by blast
    have "v div 2 ^ 64 = int (n div 2 ^ 64)" "v mod 2 ^ 64 = int (n mod 2 ^ 64)"
      unfolding n by (simp_all add: zdiv_int zmod_int)
    then show "(of_int (v div 2 ^ 64) :: u64) = of_nat (nat v div 2 ^ 64)"
      "(of_int (v mod 2 ^ 64) :: u64) = of_nat (nat v mod 2 ^ 64)"
      using n by (simp_all only: of_int_of_nat_eq nat_int)
  qed
  have "Uint128FromBig big = Inr ?u"
    using v small bitLen_le [of "nat v" 128] mask w
    by (simp add: Uint128FromBig_def drop_bit_eq_div not_less [symmetric])
  then show "\<exists>u. Uint128FromBig big = Inr u \<and> big = Some (Big u)"
    using v of_halves [OF small] by (simp add: Big_val)
qed

end
