(* ===== verification/HttpBody.thy ===== *)
theory HttpBody
  imports Prelude
begin

text \<open>
  Reading answers under a cap (\<^verbatim>\<open>internal/httpbody/httpbody.go\<close>): the capped reader under
  \<^verbatim>\<open>io.ReadAll\<close>, and the scan that bounds how much JSON an answer holds before it is decoded.
  The theory shows that reading under a cap returns the whole body or refuses it, that the
  scan accepts an answer exactly when the tokens in it cost at most the limit and nest at
  most the depth, and that the discount for byte arrays is at most a sixteenth.
\<close>

subsection \<open>The caps\<close>

definition Small :: nat where "Small = 4 * 2 ^ 20"
definition Chunk :: nat where "Chunk = 2 * 2 ^ 20"
definition Tx :: nat where "Tx = 12 * 2 ^ 20"
definition Block :: nat where "Block = 32 * 2 ^ 20"
definition Large :: nat where "Large = 64 * 2 ^ 20"

subsection \<open>Readers\<close>

text \<open>
  An \<^verbatim>\<open>io.Reader\<close> delivers chunks, each read returning at most as many bytes as it has room
  for, and then an ending: \<^verbatim>\<open>io.EOF\<close> or the error of a connection that failed.
\<close>

datatype ioError = EOF | ReadFailed string | TooLargeError nat

record source =
  chunks :: "string list"
  ending :: ioError

definition readSource :: "nat \<Rightarrow> source \<Rightarrow> (string \<times> ioError option) \<times> source" where
  "readSource k r =
     (case chunks r of
        [] \<Rightarrow> (([], Some (ending r)), r)
      | c # cs \<Rightarrow> ((take k c, None), r\<lparr>chunks := (if length c \<le> k then cs else drop k c # cs)\<rparr>))"

text \<open>\<^verbatim>\<open>io.LimitReader\<close> with \<open>N\<close> bytes left.\<close>

definition readLimited :: "nat \<Rightarrow> source \<times> nat \<Rightarrow> (string \<times> ioError option) \<times> (source \<times> nat)" where
  "readLimited k rn =
     (case rn of (r, n) \<Rightarrow>
        if n = 0 then (([], Some EOF), (r, 0))
        else case readSource (min k n) r of ((p, err), r') \<Rightarrow> ((p, err), (r', n - length p)))"

record capped =
  capR :: "source \<times> nat"
  capLimit :: nat
  capRead :: nat

definition Reader :: "source \<Rightarrow> nat \<Rightarrow> capped" where
  "Reader r limit = \<lparr>capR = (r, limit + 1), capLimit = limit, capRead = 0\<rparr>"

definition readCapped :: "nat \<Rightarrow> capped \<Rightarrow> (string \<times> ioError option) \<times> capped" where
  "readCapped k c =
     (case readLimited k (capR c) of ((p, err), rn) \<Rightarrow>
        let c' = c\<lparr>capR := rn, capRead := capRead c + length p\<rparr>;
            over = int (capRead c') - int (capLimit c')
        in if over > 0 then ((take (nat (max (int (length p) - over) 0)) p, Some (TooLargeError (capLimit c'))), c')
           else ((p, err), c'))"

text \<open>What is left to deliver, which every read that returns no error makes smaller.\<close>

definition pending :: "source \<Rightarrow> nat" where
  "pending r = length (concat (chunks r)) + length (chunks r)"

lemma readSource_pending:
  "readSource k r = ((p, None), r') \<Longrightarrow> 0 < k \<Longrightarrow> pending r' < pending r"
  by (auto simp: readSource_def pending_def split: list.splits if_splits)

lemma readCapped_pending:
  "readCapped k c = ((p, None), c') \<Longrightarrow> 0 < k \<Longrightarrow> pending (fst (capR c')) < pending (fst (capR c))"
  by (auto simp: readCapped_def readLimited_def Let_def split: prod.splits if_splits
      intro: readSource_pending [of "min k n" for n])

text \<open>
  \<^verbatim>\<open>io.ReadAll\<close>: it reads into the spare capacity of its buffer, which is at least one byte
  and depends on how the buffer has grown; \<open>spare\<close> gives it for a buffer of a length.
\<close>

function readLoop :: "(nat \<Rightarrow> nat) \<Rightarrow> capped \<Rightarrow> string \<Rightarrow> ioError + string" where
  "readLoop spare c b =
     (case readCapped (Suc (spare (length b))) c of
        ((p, Some e), c') \<Rightarrow> if e = EOF then Inr (b @ p) else Inl e
      | ((p, None), c') \<Rightarrow> readLoop spare c' (b @ p))"
  by pat_completeness auto
termination
  by (relation "measure (\<lambda>(spare, c, b). pending (fst (capR c)))") (auto dest!: readCapped_pending [OF sym])

declare readLoop.simps [simp del]

definition ReadAll :: "(nat \<Rightarrow> nat) \<Rightarrow> source \<Rightarrow> nat \<Rightarrow> ioError + string" where
  "ReadAll spare r limit = readLoop spare (Reader r limit) []"

subsection \<open>Counting JSON\<close>

definition MaxValues :: int where "MaxValues = 2 ^ 21"
definition ContainerCost :: int where "ContainerCost = 8"
definition MaxDepth :: int where "MaxDepth = 512"
definition freeNumbersPerUnit :: int where "freeNumbersPerUnit = 16"

datatype jsonError = TooMuchJSONError bool

type_synonym byteArrays = "(string \<times> nat) list"

definition sqlProofBytes :: byteArrays where
  "sqlProofBytes = [(''value_hash'', 1), (''merkle_proof'', 1), (''state_root'', 1), (''tx_hash'', 1)]"

definition ethBytes :: byteArrays where
  "ethBytes = [(''address'', 1), (''block_hash'', 1), (''state_root'', 1), (''balance'', 1),
     (''storage_hash'', 1), (''code_hash'', 1), (''key'', 1), (''value'', 1), (''slot'', 1),
     (''proof_nodes'', 2)]"

definition isScalarByte :: "char \<Rightarrow> bool" where
  "isScalarByte c \<longleftrightarrow>
     (let n = of_char c :: nat
      in 48 \<le> n \<and> n \<le> 57 \<or> 97 \<le> n \<and> n \<le> 122 \<or> 65 \<le> n \<and> n \<le> 90
         \<or> c = CHR ''.'' \<or> c = CHR ''+'' \<or> c = CHR ''-'')"

definition jsonSpace :: "char \<Rightarrow> bool" where
  "jsonSpace c \<longleftrightarrow> c \<in> {CHR '' '', CHR 0x09, CHR 0x0A, CHR 0x0D}"

definition opensContainerAfterColon :: "string \<Rightarrow> char list \<Rightarrow> bool" where
  "opensContainerAfterColon rest opens =
     (case dropWhile jsonSpace rest of
        [] \<Rightarrow> False
      | c # cs \<Rightarrow> c = CHR '':'' \<and>
          (case dropWhile jsonSpace cs of [] \<Rightarrow> False | d # ds \<Rightarrow> d \<in> set opens))"

text \<open>
  The inner loop over a string: the text up to the closing quote and what follows it, or
  \<open>None\<close> when the data ends first.  A backslash skips the byte after it.
\<close>

fun scanString :: "string \<Rightarrow> (string \<times> string) option" where
  "scanString [] = None"
| "scanString (c # cs) =
     (if c = CHR 0x22 then Some ([], cs)
      else if c = CHR 0x5C then
        (case cs of [] \<Rightarrow> None | d # ds \<Rightarrow> map_option (\<lambda>(k, r). (c # d # k, r)) (scanString ds))
      else map_option (\<lambda>(k, r). (c # k, r)) (scanString cs))"

record scanState =
  units :: int
  depth :: int
  freeNumbers :: int
  freeAt :: int
  freeBase :: int
  underProof :: bool

definition startScan :: scanState where
  "startScan = \<lparr>units = 0, depth = 0, freeNumbers = 0, freeAt = - 1, freeBase = - 1, underProof = False\<rparr>"

definition freeNesting :: "byteArrays \<Rightarrow> string \<Rightarrow> nat" where
  "freeNesting free key = (case map_of free key of Some n \<Rightarrow> n | None \<Rightarrow> 0)"

text \<open>What the key before a container does: it opens the proof, or a byte array.\<close>

definition scanKey :: "byteArrays option \<Rightarrow> bool \<Rightarrow> (string \<times> string) option \<Rightarrow> scanState \<Rightarrow> scanState" where
  "scanKey free onlyUnderProof str s =
     (case (free, str) of
        (Some arrays, Some (key, after)) \<Rightarrow>
          if freeAt s \<ge> 0 \<or> \<not> opensContainerAfterColon after [CHR ''['', CHR ''{''] then s
          else if onlyUnderProof \<and> depth s = 1 \<and> key = ''proof'' then s\<lparr>underProof := True\<rparr>
          else if freeNesting arrays key > 0 \<and> (underProof s \<or> \<not> onlyUnderProof)
                  \<and> opensContainerAfterColon after [CHR ''['']
          then s\<lparr>freeBase := depth s, freeAt := depth s + int (freeNesting arrays key)\<rparr>
          else s
      | _ \<Rightarrow> s)"

definition scanNumber :: "scanState \<Rightarrow> scanState" where
  "scanNumber s =
     (if depth s = freeAt s
      then (if freeNumbers s + 1 = freeNumbersPerUnit then s\<lparr>units := units s + 1, freeNumbers := 0\<rparr>
            else s\<lparr>freeNumbers := freeNumbers s + 1\<rparr>)
      else s\<lparr>units := units s + 1\<rparr>)"

definition scanClose :: "scanState \<Rightarrow> scanState" where
  "scanClose s =
     (let s1 = s\<lparr>depth := depth s - 1\<rparr>;
          s2 = (if depth s1 \<le> freeBase s1 then s1\<lparr>freeAt := - 1, freeBase := - 1\<rparr> else s1)
      in if depth s2 \<le> 1 then s2\<lparr>underProof := False\<rparr> else s2)"

definition isQuote :: "char \<Rightarrow> bool" where
  "isQuote c \<longleftrightarrow> c = CHR 0x22"

definition isOpen :: "char \<Rightarrow> bool" where
  "isOpen c \<longleftrightarrow> c = CHR ''['' \<or> c = CHR ''{''"

definition isClose :: "char \<Rightarrow> bool" where
  "isClose c \<longleftrightarrow> c = CHR '']'' \<or> c = CHR ''}''"

definition isNumberStart :: "char \<Rightarrow> bool" where
  "isNumberStart c \<longleftrightarrow> c = CHR ''-'' \<or> (48 \<le> (of_char c :: nat) \<and> (of_char c :: nat) \<le> 57)"

definition isLower :: "char \<Rightarrow> bool" where
  "isLower c \<longleftrightarrow> 97 \<le> (of_char c :: nat) \<and> (of_char c :: nat) \<le> 122"

lemma scanString_shorter: "scanString cs = Some (k, r) \<Longrightarrow> length r < length cs"
  by (induction cs arbitrary: k r rule: scanString.induct) (force split: if_splits list.splits)+

function scanLoop :: "int \<Rightarrow> int \<Rightarrow> byteArrays option \<Rightarrow> bool \<Rightarrow> string \<Rightarrow> scanState \<Rightarrow> jsonError + unit" where
  "scanLoop maxValues maxDepth free onlyUnderProof [] s = Inr ()"
| "scanLoop maxValues maxDepth free onlyUnderProof (c # cs) s =
     (if isQuote c then
        (let str = scanString cs; s' = scanKey free onlyUnderProof str (s\<lparr>units := units s + 1\<rparr>)
         in if units s' > maxValues then Inl (TooMuchJSONError False)
            else case str of None \<Rightarrow> Inr ()
                 | Some (key, after) \<Rightarrow> scanLoop maxValues maxDepth free onlyUnderProof after s')
      else if isOpen c then
        (let s' = s\<lparr>units := units s + ContainerCost, depth := depth s + 1\<rparr>
         in if depth s' > maxDepth then Inl (TooMuchJSONError True)
            else if units s' > maxValues then Inl (TooMuchJSONError False)
            else scanLoop maxValues maxDepth free onlyUnderProof cs s')
      else
        let s' = (if isClose c then scanClose s
                  else if isNumberStart c then scanNumber s
                  else if isLower c then s\<lparr>units := units s + 1\<rparr> else s);
            rest = (if isNumberStart c \<or> isLower c then dropWhile isScalarByte cs else cs)
        in if units s' > maxValues then Inl (TooMuchJSONError False)
           else scanLoop maxValues maxDepth free onlyUnderProof rest s')"
  by pat_completeness auto
termination
  by (relation "measure (\<lambda>(mv, md, f, under, cs, s). length cs)")
    (auto dest!: scanString_shorter [OF sym] simp: le_imp_less_Suc length_dropWhile_le)

definition scanJSON :: "string \<Rightarrow> int \<Rightarrow> int \<Rightarrow> byteArrays option \<Rightarrow> bool \<Rightarrow> jsonError + unit" where
  "scanJSON data maxValues maxDepth free onlyUnderProof =
     scanLoop maxValues maxDepth free onlyUnderProof data startScan"

definition CheckJSON :: "string \<Rightarrow> jsonError + unit" where
  "CheckJSON data = scanJSON data MaxValues MaxDepth None False"

definition CheckJSONWithProof :: "string \<Rightarrow> jsonError + unit" where
  "CheckJSONWithProof data = scanJSON data MaxValues MaxDepth (Some sqlProofBytes) True"

definition checkJSON :: "string \<Rightarrow> int \<Rightarrow> int \<Rightarrow> jsonError + unit" where
  "checkJSON data maxValues maxDepth = scanJSON data maxValues maxDepth None False"

text \<open>
  Decoding proper is \<^verbatim>\<open>encoding/json\<close>'s, into whatever Go value the caller passes: the
  decoder is an argument.
\<close>

datatype 'e decodeError = ReadRefused ioError | TooMuchJSON jsonError | DecodeFailed 'e

definition liftE :: "('e \<Rightarrow> 'f) \<Rightarrow> 'e + 'a \<Rightarrow> 'f + 'a" where
  "liftE f r = (case r of Inl e \<Rightarrow> Inl (f e) | Inr x \<Rightarrow> Inr x)"

definition Unmarshal :: "(string \<Rightarrow> 'e + 'a) \<Rightarrow> string \<Rightarrow> 'e decodeError + 'a" where
  "Unmarshal json data =
     bindR (liftE TooMuchJSON (CheckJSON data)) (\<lambda>_. liftE DecodeFailed (json data))"

definition UnmarshalEthereum :: "(string \<Rightarrow> 'e + 'a) \<Rightarrow> string \<Rightarrow> 'e decodeError + 'a" where
  "UnmarshalEthereum json data =
     bindR (liftE TooMuchJSON (scanJSON data MaxValues MaxDepth (Some ethBytes) False))
       (\<lambda>_. liftE DecodeFailed (json data))"

definition DecodeWithProof :: "(nat \<Rightarrow> nat) \<Rightarrow> (string \<Rightarrow> 'e + 'a) \<Rightarrow> source \<Rightarrow> nat \<Rightarrow> 'e decodeError + 'a" where
  "DecodeWithProof spare json r limit =
     bindR (liftE ReadRefused (ReadAll spare r limit)) (\<lambda>data.
     bindR (liftE TooMuchJSON (CheckJSONWithProof data)) (\<lambda>_. liftE DecodeFailed (json data)))"

definition Decode :: "(nat \<Rightarrow> nat) \<Rightarrow> (string \<Rightarrow> 'e + 'a) \<Rightarrow> source \<Rightarrow> nat \<Rightarrow> 'e decodeError + 'a" where
  "Decode spare json r limit =
     bindR (liftE ReadRefused (ReadAll spare r limit)) (Unmarshal json)"

subsection \<open>Reading under a cap\<close>

definition readerOk :: "string \<Rightarrow> source \<Rightarrow> nat \<Rightarrow> capped \<Rightarrow> bool" where
  "readerOk b src limit c \<longleftrightarrow>
     capLimit c = limit \<and> capRead c = length b \<and> length b \<le> limit
     \<and> snd (capR c) = limit + 1 - length b
     \<and> ending (fst (capR c)) = ending src
     \<and> concat (chunks src) = b @ concat (chunks (fst (capR c)))"

lemma readSource_result:
  assumes "readSource k r = ((p, err), r')"
  shows "length p \<le> k" and "ending r' = ending r" and "concat (chunks r) = p @ concat (chunks r')"
    and "err = (if chunks r = [] then Some (ending r) else None)"
  using assms by (auto simp: readSource_def split: list.splits if_splits)

lemma readLoop_result:
  assumes "readerOk b src limit c"
  shows "readLoop spare c b =
    (if length (concat (chunks src)) > limit then Inl (TooLargeError limit)
     else if ending src = EOF then Inr (concat (chunks src)) else Inl (ending src))"
  using assms
proof (induction spare c b rule: readLoop.induct)
  case (1 spare c b)
  obtain r n where rn: "capR c = (r, n)" by fastforce
  have inv: "capLimit c = limit" "capRead c = length b" "length b \<le> limit" "n = limit + 1 - length b"
    "ending r = ending src" "concat (chunks src) = b @ concat (chunks r)"
    using "1.prems"(1) rn by (auto simp: readerOk_def)
  let ?k = "min (Suc (spare (length b))) n"
  obtain p err r' where rd: "readSource ?k r = ((p, err), r')" by (metis prod.exhaust)
  note res = readSource_result [OF rd]
  have lim: "readLimited (Suc (spare (length b))) (capR c) = ((p, err), (r', n - length p))"
    using inv rn rd by (simp add: readLimited_def)
  show ?case
  proof (cases "length b + length p > limit")
    case True
    then have "length (concat (chunks src)) > limit" using inv res by simp
    moreover have "readLoop spare c b = Inl (TooLargeError limit)"
      using True inv by (subst readLoop.simps) (simp add: readCapped_def lim Let_def)
    ultimately show ?thesis by simp
  next
    case False
    define c' where "c' = c\<lparr>capR := (r', n - length p), capRead := capRead c + length p\<rparr>"
    have rc: "readCapped (Suc (spare (length b))) c = ((p, err), c')"
      using False inv by (simp add: readCapped_def lim c'_def Let_def)
    show ?thesis
    proof (cases err)
      case None
      have "readerOk (b @ p) src limit c'" using inv res False by (simp add: readerOk_def c'_def)
      then show ?thesis
        using "1.IH" [of "(p, err)" c' p] rc None by (subst readLoop.simps) simp
    next
      case (Some e)
      then have "chunks r = []" "e = ending src" using res(4) inv by (auto split: if_splits)
      moreover from this have "p = []" using res(3) by simp
      ultimately show ?thesis
        using inv Some rc by (subst readLoop.simps) simp
    qed
  qed
qed

lemma ReadAll_eq:
  "ReadAll spare src limit =
    (if length (concat (chunks src)) > limit then Inl (TooLargeError limit)
     else if ending src = EOF then Inr (concat (chunks src)) else Inl (ending src))"
  unfolding ReadAll_def
  by (rule readLoop_result) (simp add: readerOk_def Reader_def)

text \<open>
  C4: reading an answer under a cap returns the whole body when it is at most the cap and
  the stream ends well, refuses it as too large exactly when it is longer than the cap,
  and otherwise reports the stream's own error; it never returns a truncated body.
\<close>

theorem ReadAll_whole_or_refused:
  "ReadAll spare src limit =
    (if length (concat (chunks src)) > limit then Inl (TooLargeError limit)
     else if ending src = EOF then Inr (concat (chunks src)) else Inl (ending src))"
  by (rule ReadAll_eq)

subsection \<open>The scan against a token count\<close>

text \<open>
  A reference for the scan: the tokens of the data, each with its cost, and the depth the
  brackets reach.
\<close>

datatype jsonToken = TString | TOpen | TClose | TNumber | TWord

function jsonTokens :: "string \<Rightarrow> jsonToken list" where
  "jsonTokens [] = []"
| "jsonTokens (c # cs) =
     (if isQuote c then TString # (case scanString cs of None \<Rightarrow> [] | Some (k, r) \<Rightarrow> jsonTokens r)
      else if isOpen c then TOpen # jsonTokens cs
      else if isClose c then TClose # jsonTokens cs
      else if isNumberStart c then TNumber # jsonTokens (dropWhile isScalarByte cs)
      else if isLower c then TWord # jsonTokens (dropWhile isScalarByte cs)
      else jsonTokens cs)"
  by pat_completeness auto
termination
  by (relation "measure length")
    (auto dest!: scanString_shorter simp: le_imp_less_Suc length_dropWhile_le)

fun tokenCost :: "jsonToken \<Rightarrow> int" where
  "tokenCost TOpen = ContainerCost"
| "tokenCost TClose = 0"
| "tokenCost t = 1"

fun tokenDepth :: "jsonToken list \<Rightarrow> int" where
  "tokenDepth [] = 0"
| "tokenDepth (t # ts) = (case t of TOpen \<Rightarrow> 1 | TClose \<Rightarrow> - 1 | _ \<Rightarrow> 0) + tokenDepth ts"

definition depthsIn :: "int \<Rightarrow> int \<Rightarrow> int \<Rightarrow> jsonToken list \<Rightarrow> bool" where
  "depthsIn lo hi d ts \<longleftrightarrow> (\<forall>k \<le> length ts. lo \<le> d + tokenDepth (take k ts) \<and> d + tokenDepth (take k ts) \<le> hi)"

lemma all_le_Suc: "(\<forall>k \<le> Suc n. P k) \<longleftrightarrow> P 0 \<and> (\<forall>k \<le> n. P (Suc k))"
  by (metis Suc_le_mono le0 not0_implies_Suc)

lemma depthsIn_Nil [simp]: "depthsIn lo hi d [] \<longleftrightarrow> lo \<le> d \<and> d \<le> hi"
  by (simp add: depthsIn_def)

lemma depthsIn_Cons [simp]:
  "depthsIn lo hi d (t # ts) \<longleftrightarrow>
     lo \<le> d \<and> d \<le> hi \<and> depthsIn lo hi (d + (case t of TOpen \<Rightarrow> 1 | TClose \<Rightarrow> - 1 | _ \<Rightarrow> 0)) ts"
  unfolding depthsIn_def length_Cons all_le_Suc by (auto simp: algebra_simps)

definition tokensCost :: "jsonToken list \<Rightarrow> int" where
  "tokensCost ts = (\<Sum>t \<leftarrow> ts. tokenCost t)"

lemma tokensCost_simps [simp]:
  "tokensCost [] = 0" "tokensCost (t # ts) = tokenCost t + tokensCost ts"
  by (simp_all add: tokensCost_def)

lemma tokensCost_nonneg: "0 \<le> tokensCost ts"
proof -
  have "0 \<le> tokenCost t" for t by (cases t) (simp_all add: ContainerCost_def)
  then show ?thesis by (induction ts) simp_all
qed

lemma depthsIn_start: "depthsIn lo hi d ts \<Longrightarrow> lo \<le> d \<and> d \<le> hi"
  by (cases ts) auto

lemma close_not_scalar: "isClose c \<Longrightarrow> \<not> isNumberStart c" "isClose c \<Longrightarrow> \<not> isLower c"
  by (auto simp: isClose_def isNumberStart_def isLower_def)

lemma scan_tokens:
  assumes "freeAt s = - 1" and "freeBase s = - 1" and "units s \<le> mv" and "depth s \<le> md"
    and "depthsIn 0 hi (depth s) (jsonTokens cs)"
  shows "scanLoop mv md None onlyProof cs s = Inr () \<longleftrightarrow>
     units s + tokensCost (jsonTokens cs) \<le> mv \<and> depthsIn 0 md (depth s) (jsonTokens cs)"
  using assms
proof (induction mv md "None :: byteArrays option" onlyProof cs s rule: scanLoop.induct)
  case (1 mv md onlyProof s)
  then show ?case by simp
next
  case (2 mv md onlyProof c cs s)
  note n = tokensCost_nonneg [of "jsonTokens cs"]
    tokensCost_nonneg [of "jsonTokens (dropWhile isScalarByte cs)"]
  consider (str) "isQuote c" | (opn) "\<not> isQuote c" "isOpen c" | (cls) "\<not> isQuote c" "\<not> isOpen c" "isClose c"
    | (scalar) "\<not> isQuote c" "\<not> isOpen c" "\<not> isClose c" "isNumberStart c \<or> isLower c"
    | (other) "\<not> isQuote c" "\<not> isOpen c" "\<not> isClose c" "\<not> isNumberStart c" "\<not> isLower c" by blast
  then show ?case
  proof cases
    case str
    have key: "scanKey None onlyProof x t = t" for x t by (simp add: scanKey_def split: option.split prod.split)
    show ?thesis
    proof (cases "scanString cs")
      case None
      then show ?thesis using "2.prems" str by (auto simp: key)
    next
      case (Some kr)
      obtain k r where kr: "kr = (k, r)" by fastforce
      show ?thesis
        using "2.hyps"(1) [OF str refl refl _ Some kr [symmetric]] "2.prems" str Some kr tokensCost_nonneg [of "jsonTokens r"]
        by (auto simp: key Let_def)
    qed
  next
    case opn
    then show ?thesis
      using "2.hyps"(2) [OF opn refl] "2.prems" n
      by (auto simp: Let_def dest: depthsIn_start)
  next
    case cls
    have nc: "\<not> isNumberStart c" "\<not> isLower c" using cls(3) by (rule close_not_scalar)+
    have "0 \<le> depth s - 1" using "2.prems"(5) cls by (cases "jsonTokens cs") auto
    then show ?thesis
      using "2.hyps"(3) [OF cls(1,2) refl refl] "2.prems" cls nc by (auto simp: Let_def scanClose_def)
  next
    case scalar
    have "depth s \<noteq> freeAt s" using "2.prems"(1) depthsIn_start [OF "2.prems"(5)] by auto
    then have one: "(if isNumberStart c then scanNumber s else if isLower c then s\<lparr>units := units s + 1\<rparr> else s)
        = s\<lparr>units := units s + 1\<rparr>"
      using scalar(4) by (auto simp: scanNumber_def)
    have "\<exists>t. jsonTokens (c # cs) = t # jsonTokens (dropWhile isScalarByte cs) \<and> tokenCost t = 1
        \<and> (case t of TOpen \<Rightarrow> 1 | TClose \<Rightarrow> - 1 | _ \<Rightarrow> 0) = (0 :: int)"
      using scalar by auto
    then obtain t where t: "jsonTokens (c # cs) = t # jsonTokens (dropWhile isScalarByte cs)" "tokenCost t = 1"
      "(case t of TOpen \<Rightarrow> 1 | TClose \<Rightarrow> - 1 | _ \<Rightarrow> 0) = (0 :: int)" by blast
    then show ?thesis
      using "2.hyps"(3) [OF scalar(1,2) refl refl] "2.prems" scalar n
      by (auto simp: Let_def one simp del: jsonTokens.simps)
  next
    case other
    then show ?thesis
      using "2.hyps"(3) [OF other(1,2) refl refl] "2.prems" by (simp add: Let_def)
  qed
qed

text \<open>
  C5: on data whose brackets never close more than they opened (every valid JSON text),
  the check before decoding passes exactly when the tokens cost at most \<^verbatim>\<open>MaxValues\<close> units and
  nest at most \<^verbatim>\<open>MaxDepth\<close> deep.
\<close>

theorem CheckJSON_exact:
  assumes "depthsIn 0 hi 0 (jsonTokens data)"
  shows "CheckJSON data = Inr () \<longleftrightarrow>
    tokensCost (jsonTokens data) \<le> MaxValues \<and> depthsIn 0 MaxDepth 0 (jsonTokens data)"
  using scan_tokens [of startScan MaxValues MaxDepth hi data False] assms
  by (simp add: CheckJSON_def scanJSON_def startScan_def MaxValues_def MaxDepth_def)

lemma sample_tokens: "jsonTokens ''[1,{}]'' = [TOpen, TNumber, TOpen, TClose, TClose]"
  by code_simp

theorem CheckJSON_exact_witness: "CheckJSON ''[1,{}]'' = Inr ()"
  using CheckJSON_exact [of 2 "''[1,{}]''"] unfolding sample_tokens
  by (simp add: ContainerCost_def MaxValues_def MaxDepth_def)

text \<open>The least an accepted answer can have been charged: numbers at a sixteenth of a unit.\<close>

fun tokenWeight :: "jsonToken \<Rightarrow> int" where
  "tokenWeight TOpen = 16 * ContainerCost"
| "tokenWeight TClose = 0"
| "tokenWeight TNumber = 1"
| "tokenWeight t = 16"

definition paid :: "scanState \<Rightarrow> int" where
  "paid s = 16 * units s + freeNumbers s"

definition countersOk :: "scanState \<Rightarrow> bool" where
  "countersOk s \<longleftrightarrow> 0 \<le> freeNumbers s \<and> freeNumbers s < 16"

lemma scanKey_counters [simp]:
  "units (scanKey f u x s) = units s" "freeNumbers (scanKey f u x s) = freeNumbers s"
  "depth (scanKey f u x s) = depth s"
  by (auto simp: scanKey_def split: option.split prod.split)

lemma scanClose_counters [simp]:
  "units (scanClose s) = units s" "freeNumbers (scanClose s) = freeNumbers s"
  by (auto simp: scanClose_def Let_def)

lemma scanNumber_counters:
  "countersOk s \<Longrightarrow> countersOk (scanNumber s) \<and> paid s + 1 \<le> paid (scanNumber s)"
  by (auto simp: scanNumber_def countersOk_def paid_def freeNumbersPerUnit_def)

lemma scan_paid:
  assumes "scanLoop mv md f u cs s = Inr ()" and "countersOk s" and "units s \<le> mv"
  shows "paid s + (\<Sum>t \<leftarrow> jsonTokens cs. tokenWeight t) \<le> 16 * mv + 15"
  using assms
proof (induction mv md f u cs s rule: scanLoop.induct)
  case (1 mv md f u s)
  then show ?case by (simp add: paid_def countersOk_def)
next
  case (2 mv md f u c cs s)
  consider (str) "isQuote c" | (opn) "\<not> isQuote c" "isOpen c" | (rest) "\<not> isQuote c" "\<not> isOpen c" by blast
  then show ?case
  proof cases
    case str
    show ?thesis
    proof (cases "scanString cs")
      case None
      then show ?thesis using "2.prems" str by (auto simp: paid_def countersOk_def Let_def split: if_splits)
    next
      case (Some kr)
      obtain k r where kr: "kr = (k, r)" by fastforce
      show ?thesis
        using "2.IH"(1) [OF str refl refl _ Some kr [symmetric]] "2.prems" str Some kr
        by (auto simp: paid_def countersOk_def Let_def split: if_splits)
    qed
  next
    case opn
    then show ?thesis
      using "2.IH"(2) [OF opn refl] "2.prems"
      by (auto simp: paid_def countersOk_def ContainerCost_def Let_def split: if_splits)
  next
    case rest
    let ?s = "if isClose c then scanClose s
              else if isNumberStart c then scanNumber s
              else if isLower c then s\<lparr>units := units s + 1\<rparr> else s"
    have "countersOk ?s" using "2.prems"(2) scanNumber_counters by (auto simp: countersOk_def)
    moreover have "units ?s \<le> mv" using "2.prems"(1) rest by (auto simp: Let_def split: if_splits)
    ultimately show ?thesis
      using "2.IH"(3) [OF rest refl refl] "2.prems" rest scanNumber_counters [of s]
      by (auto simp: paid_def close_not_scalar Let_def split: if_splits)
  qed
qed

text \<open>
  Whatever discount an answer's byte arrays get, an answer that passes the scan holds
  at most as many tokens as the limit pays for with every number at a sixteenth of a unit:
  its containers and strings always count in full.
\<close>

lemma scanJSON_bounds_tokens:
  assumes "scanJSON data maxValues maxDepth free onlyUnderProof = Inr ()" and "0 \<le> maxValues"
  shows "(\<Sum>t \<leftarrow> jsonTokens data. tokenWeight t) \<le> 16 * maxValues + 15"
  using scan_paid [OF assms(1) [unfolded scanJSON_def]] assms(2)
  by (simp add: startScan_def countersOk_def paid_def)

lemma scanJSON_bounds_tokens_sample:
  "(\<Sum>t \<leftarrow> jsonTokens ''{\"key\":[1,2,3]}''. tokenWeight t) \<le> 16 * 20 + 15"
  by (rule scanJSON_bounds_tokens [of _ 20 3 "Some ethBytes" False]) code_simp+

end
