(* ===== verification/Sha256.thy ===== *)
theory Sha256
  imports Prelude
begin

text \<open>
  \<^verbatim>\<open>crypto/sha256\<close>, which the file chunks, the event sets and the GroveDB walk hash with, as
  FIPS 180-4 defines it and executable, with the one fact the components rest on: a digest
  is 32 bytes.  A component that only needs that fact is proved against the interface
  \<^verbatim>\<open>digest32\<close>.
\<close>

text \<open>The constants, eight words to a number.\<close>

definition eightWords :: "256 word \<Rightarrow> u32 list" where
  "eightWords n = map (\<lambda>i. ucast (drop_bit (32 * (7 - i)) n)) [0..<8]"

definition sha256K :: "u32 list" where
  "sha256K = concat (map eightWords [
    0x428a2f9871374491b5c0fbcfe9b5dba53956c25b59f111f1923f82a4ab1c5ed5,
    0xd807aa9812835b01243185be550c7dc372be5d7480deb1fe9bdc06a7c19bf174,
    0xe49b69c1efbe47860fc19dc6240ca1cc2de92c6f4a7484aa5cb0a9dc76f988da,
    0x983e5152a831c66db00327c8bf597fc7c6e00bf3d5a7914706ca635114292967,
    0x27b70a852e1b21384d2c6dfc53380d13650a7354766a0abb81c2c92e92722c85,
    0xa2bfe8a1a81a664bc24b8b70c76c51a3d192e819d6990624f40e3585106aa070,
    0x19a4c1161e376c082748774c34b0bcb5391c0cb34ed8aa4a5b9cca4f682e6ff3,
    0x748f82ee78a5636f84c878148cc7020890befffaa4506cebbef9a3f7c67178f2])"

definition sha256Init :: "u32 list" where
  "sha256Init = eightWords 0x6a09e667bb67ae853c6ef372a54ff53a510e527f9b05688c1f83d9ab5be0cd19"

definition rotr :: "nat \<Rightarrow> u32 \<Rightarrow> u32" where
  "rotr n x = drop_bit n x OR push_bit (32 - n) x"

definition sigma0 :: "u32 \<Rightarrow> u32" where
  "sigma0 x = rotr 7 x XOR rotr 18 x XOR drop_bit 3 x"

definition sigma1 :: "u32 \<Rightarrow> u32" where
  "sigma1 x = rotr 17 x XOR rotr 19 x XOR drop_bit 10 x"

definition Sigma0 :: "u32 \<Rightarrow> u32" where
  "Sigma0 x = rotr 2 x XOR rotr 13 x XOR rotr 22 x"

definition Sigma1 :: "u32 \<Rightarrow> u32" where
  "Sigma1 x = rotr 6 x XOR rotr 11 x XOR rotr 25 x"

definition chooseBits :: "u32 \<Rightarrow> u32 \<Rightarrow> u32 \<Rightarrow> u32" where
  "chooseBits e f g = (e AND f) XOR (NOT e AND g)"

definition majority :: "u32 \<Rightarrow> u32 \<Rightarrow> u32 \<Rightarrow> u32" where
  "majority a b c = (a AND b) XOR (a AND c) XOR (b AND c)"

text \<open>The message schedule, most recent word first.\<close>

fun schedule :: "nat \<Rightarrow> u32 list \<Rightarrow> u32 list" where
  "schedule 0 w = w"
| "schedule (Suc n) w = schedule n ((sigma1 (w ! 1) + w ! 6 + sigma0 (w ! 14) + w ! 15) # w)"

fun rounds :: "(u32 \<times> u32) list \<Rightarrow> u32 list \<Rightarrow> u32 list" where
  "rounds ((k, w) # kws) [a, b, c, d, e, f, g, h] =
     (let t1 = h + Sigma1 e + chooseBits e f g + k + w; t2 = Sigma0 a + majority a b c
      in rounds kws [t1 + t2, a, b, c, d + t1, e, f, g])"
| "rounds _ s = s"

definition word32 :: "bytes \<Rightarrow> u32" where
  "word32 bs = of_nat (beVal bs)"

fun words32 :: "bytes \<Rightarrow> u32 list" where
  "words32 (a # b # c # d # bs) = word32 [a, b, c, d] # words32 bs"
| "words32 _ = []"

definition compressBlock :: "u32 list \<Rightarrow> bytes \<Rightarrow> u32 list" where
  "compressBlock s b =
     map2 (+) s (rounds (zip sha256K (rev (schedule 48 (rev (words32 b))))) s)"

function blocks :: "bytes \<Rightarrow> bytes list" where
  "blocks bs = (if bs = [] then [] else take 64 bs # blocks (drop 64 bs))"
  by pat_completeness auto
termination
  by (relation "measure length") auto

declare blocks.simps [simp del]

definition sha256Pad :: "bytes \<Rightarrow> bytes" where
  "sha256Pad m = m @ 0x80 # replicate ((119 - length m mod 64) mod 64) 0 @ beBytes 8 (8 * length m mod 2 ^ 64)"

definition sha256 :: "bytes \<Rightarrow> bytes" where
  "sha256 m = concat (map (\<lambda>w. beBytes 4 (unat w)) (foldl compressBlock sha256Init (blocks (sha256Pad m))))"

subsection \<open>The length of a digest\<close>

lemma length_rounds [simp]: "length s = 8 \<Longrightarrow> length (rounds kws s) = 8"
  by (induction kws s rule: rounds.induct) (simp_all add: Let_def)

lemma length_compress: "length s = 8 \<Longrightarrow> length (compressBlock s b) = 8"
  by (simp add: compressBlock_def)

lemma length_compress_all: "length s = 8 \<Longrightarrow> length (foldl compressBlock s bs) = 8"
  by (induction bs arbitrary: s) (simp_all add: length_compress)

lemma length_concat_const: "(\<And>x. x \<in> set xs \<Longrightarrow> length (f x) = k) \<Longrightarrow> length (concat (map f xs)) = k * length xs"
  by (induction xs) simp_all

lemma length_sha256 [simp]: "length (sha256 m) = 32"
proof -
  have "length (foldl compressBlock sha256Init bs) = 8" for bs
    by (rule length_compress_all) (simp add: sha256Init_def eightWords_def)
  then show ?thesis by (simp add: sha256_def length_concat_const)
qed

text \<open>Interface: a hash with 32-byte digests.\<close>

locale digest32 =
  fixes H :: "bytes \<Rightarrow> bytes"
  assumes length_digest: "length (H m) = 32"
begin

text \<open>A digest at the front of a stream is cut off it by its length.\<close>

lemma digest_cut: "H a @ r = H b @ s \<longleftrightarrow> H a = H b \<and> r = s"
  using length_digest by (metis append_eq_append_conv)

lemma concat_digests_inj:
  "concat (map H xs) = concat (map H ys) \<Longrightarrow> map H xs = map H ys"
proof (induction xs arbitrary: ys)
  case Nil
  then show ?case using length_digest by (cases ys) (auto, metis list.size(3) zero_neq_numeral)
next
  case (Cons x xs)
  then show ?case
    using length_digest by (cases ys) (auto simp: digest_cut, metis list.size(3) zero_neq_numeral)
qed

lemma hexDigest_length: "length (hexEncode (H m)) = 64"
  by (simp add: length_digest)

end

interpretation sha256Digest: digest32 sha256
  by unfold_locales simp

end
