(* ===== verification/Merk.thy ===== *)
theory Merk
  imports Sha256
begin

text \<open>
  The Merk half of the package \<^verbatim>\<open>grovedb\<close> (\<^verbatim>\<open>grovedb/types.go\<close>, and \<^verbatim>\<open>grovedb/verifier.go\<close> up to
  \<^verbatim>\<open>ExecuteMerkProof\<close>): hashes, nodes, the tree a proof builds, the decoder of proof
  operations and the stack machine that runs them.  A \<^verbatim>\<open>MerkDecoder\<close> is the bytes from its
  offset on.  The theory shows that the decoder accepts exactly the canonical encodings,
  that a run collects the pushed key-value pairs in order, and the weakness the package
  documents: a run can be made to return any root beside any key and value.
\<close>

subsection \<open>Hashes\<close>

definition HashLength :: nat where
  "HashLength = 32"

definition IsZeroHash :: "bytes \<Rightarrow> bool" where
  "IsZeroHash h \<longleftrightarrow> list_all (\<lambda>b. b = 0) h"

definition EqualsHash :: "bytes \<Rightarrow> bytes \<Rightarrow> bool" where
  "EqualsHash h other \<longleftrightarrow> h = other"

definition NullHash :: bytes where
  "NullHash = replicate HashLength 0"

text \<open>\<^verbatim>\<open>copy(h[:], b)\<close> into an array of 32 zero bytes.\<close>

definition HashFromBytes :: "bytes \<Rightarrow> bytes" where
  "HashFromBytes b = take HashLength b @ replicate (HashLength - length b) 0"

datatype groveError =
    EndOfKeyLength | EndOfU16 | EndOfU32 | EndOfBytes nat
  | LargeTooShort nat | LargeTooLong nat | UnknownOp byte
  | Underflow string | StackItems nat | NotAVL
  | VarintTruncated | VarintWidth | VarintBody | ByteVecTruncated
  | ProofVersion nat | NestingTooDeep | OptionsTruncated | TrailingBytes nat
  | MissingRootLayer | NonDefaultOptions | NoLowerLayer nat bytes | UnexpectedLowerLayers
  | ProvedTwice string | LayerHashMismatch string bytes bytes | RootHashMismatch string string
  | InvalidRootLength | InvalidRootFormat hexError | NoTrustedRoot
  | InvalidHashHex hexError | InvalidHashLength

definition HashFromHex :: "string \<Rightarrow> groveError + bytes" where
  "HashFromHex s =
     (case hexDecode s of
        Inl e \<Rightarrow> Inl (InvalidHashHex e)
      | Inr b \<Rightarrow> if length b \<noteq> HashLength then Inl InvalidHashLength else Inr (HashFromBytes b))"

definition ComputeHash :: "bytes \<Rightarrow> bytes" where
  "ComputeHash data = sha256 data"

definition ValueHash :: "bytes \<Rightarrow> bytes" where
  "ValueHash value = ComputeHash value"

definition ComputeNodeHash :: "bytes \<Rightarrow> bytes \<Rightarrow> bytes \<Rightarrow> bytes" where
  "ComputeNodeHash kvHash leftHash rightHash = ComputeHash (kvHash @ leftHash @ rightHash)"

definition KVHash :: "bytes \<Rightarrow> bytes \<Rightarrow> bytes" where
  "KVHash key value = ComputeHash (key @ ValueHash value)"

definition CombineHash :: "bytes \<Rightarrow> bytes \<Rightarrow> bytes" where
  "CombineHash l r = ComputeHash (l @ r)"

subsection \<open>Nodes, operations and trees\<close>

datatype MerkNode =
    NodeHash bytes
  | NodeKVHash bytes
  | NodeKV bytes bytes
  | NodeKVValueHash bytes bytes bytes
  | NodeKVDigest bytes bytes
  | NodeKVRefValueHash bytes bytes bytes
  | NodeKVValueHashFeatureType bytes bytes bytes

datatype MerkOp =
    OpPush MerkNode | OpPushInverted MerkNode
  | OpParent | OpChild | OpParentInverted | OpChildInverted

text \<open>A tree node: the node, the children, and the heights of the children.\<close>

datatype MerkTree = MerkTree "MerkNode option" "MerkTree option" "MerkTree option" nat nat

definition NewTree :: "MerkNode \<Rightarrow> MerkTree" where
  "NewTree node = MerkTree (Some node) None None 0 0"

fun Height :: "MerkTree \<Rightarrow> nat" where
  "Height (MerkTree node l r leftH rightH) = (if leftH > rightH then leftH + 1 else rightH + 1)"

fun nodeKVHash :: "MerkNode \<Rightarrow> bytes" where
  "nodeKVHash (NodeHash h) = NullHash"
| "nodeKVHash (NodeKVHash h) = h"
| "nodeKVHash (NodeKV k v) = KVHash k v"
| "nodeKVHash (NodeKVValueHash k v vh) = ComputeHash (k @ vh)"
| "nodeKVHash (NodeKVRefValueHash k v vh) = ComputeHash (k @ vh)"
| "nodeKVHash (NodeKVValueHashFeatureType k v vh) = ComputeHash (k @ vh)"
| "nodeKVHash (NodeKVDigest k vh) = ComputeHash (k @ vh)"

fun HashTree :: "MerkTree \<Rightarrow> bytes" where
  "HashTree (MerkTree None l r lh rh) = NullHash"
| "HashTree (MerkTree (Some node) l r lh rh) =
     (case node of
        NodeHash h \<Rightarrow> h
      | _ \<Rightarrow>
          ComputeNodeHash (nodeKVHash node)
            (case l of None \<Rightarrow> NullHash | Some t \<Rightarrow> HashTree t)
            (case r of None \<Rightarrow> NullHash | Some t \<Rightarrow> HashTree t))"

fun IntoHash :: "MerkTree \<Rightarrow> MerkTree" where
  "IntoHash (MerkTree node l r lh rh) =
     MerkTree (Some (NodeHash (HashTree (MerkTree node l r lh rh)))) None None lh rh"

fun AttachWithHeight :: "MerkTree \<Rightarrow> bool \<Rightarrow> MerkTree \<Rightarrow> nat \<Rightarrow> MerkTree" where
  "AttachWithHeight (MerkTree node l r lh rh) isLeft child height =
     (if isLeft then MerkTree node (Some child) r height rh else MerkTree node l (Some child) lh height)"

subsection \<open>The decoder\<close>

definition LargeValueThreshold :: nat where
  "LargeValueThreshold = 65536"

definition MaxValueLen :: nat where
  "MaxValueLen = 64 * 1024 * 1024"

type_synonym 'a decoding = "groveError + 'a \<times> bytes"

definition readBytes :: "nat \<Rightarrow> bytes \<Rightarrow> bytes decoding" where
  "readBytes n d = (if n > length d then Inl (EndOfBytes n) else Inr (take n d, drop n d))"

fun readU16 :: "bytes \<Rightarrow> nat decoding" where
  "readU16 (a # b # d) = Inr (unat (push_bit 8 (ucast a) OR ucast b :: u16), d)"
| "readU16 _ = Inl EndOfU16"

fun readU32 :: "bytes \<Rightarrow> nat decoding" where
  "readU32 (a # b # c # e # d) =
     Inr (unat (push_bit 24 (ucast a) OR push_bit 16 (ucast b) OR push_bit 8 (ucast c) OR ucast e :: u32), d)"
| "readU32 _ = Inl EndOfU32"

definition readValueLen :: "bool \<Rightarrow> bytes \<Rightarrow> nat decoding" where
  "readValueLen large d =
     (if \<not> large then readU16 d
      else bindR (readU32 d) (\<lambda>(v, d).
        if v < LargeValueThreshold then Inl (LargeTooShort v)
        else if v > MaxValueLen then Inl (LargeTooLong v)
        else Inr (v, d)))"

text \<open>The key every keyed node starts with: its length in one byte, then the key.\<close>

definition readKey :: "bytes \<Rightarrow> bytes decoding" where
  "readKey d = (case d of [] \<Rightarrow> Inl EndOfKeyLength | n # d \<Rightarrow> readBytes (unat n) d)"

definition decodeHash :: "bytes \<Rightarrow> MerkNode decoding" where
  "decodeHash d = bindR (readBytes HashLength d) (\<lambda>(h, d). Inr (NodeHash (HashFromBytes h), d))"

definition decodeKVHash :: "bytes \<Rightarrow> MerkNode decoding" where
  "decodeKVHash d = bindR (readBytes HashLength d) (\<lambda>(h, d). Inr (NodeKVHash (HashFromBytes h), d))"

definition decodeKV :: "bool \<Rightarrow> bytes \<Rightarrow> MerkNode decoding" where
  "decodeKV large d =
     bindR (readKey d) (\<lambda>(key, d).
     bindR (readValueLen large d) (\<lambda>(valueLen, d).
     bindR (readBytes valueLen d) (\<lambda>(value, d).
     Inr (NodeKV key value, d))))"

definition decodeKVValueHash :: "bool \<Rightarrow> bytes \<Rightarrow> MerkNode decoding" where
  "decodeKVValueHash large d =
     bindR (readKey d) (\<lambda>(key, d).
     bindR (readValueLen large d) (\<lambda>(valueLen, d).
     bindR (readBytes valueLen d) (\<lambda>(value, d).
     bindR (readBytes HashLength d) (\<lambda>(valueHash, d).
     Inr (NodeKVValueHash key value (HashFromBytes valueHash), d)))))"

definition decodeKVDigest :: "bytes \<Rightarrow> MerkNode decoding" where
  "decodeKVDigest d =
     bindR (readKey d) (\<lambda>(key, d).
     bindR (readBytes HashLength d) (\<lambda>(valueHash, d).
     Inr (NodeKVDigest key (HashFromBytes valueHash), d)))"

definition decodeKVRefValueHash :: "bool \<Rightarrow> bytes \<Rightarrow> MerkNode decoding" where
  "decodeKVRefValueHash large d =
     bindR (readKey d) (\<lambda>(key, d).
     bindR (readValueLen large d) (\<lambda>(valueLen, d).
     bindR (readBytes valueLen d) (\<lambda>(value, d).
     bindR (readBytes HashLength d) (\<lambda>(valueHash, d).
     Inr (NodeKVRefValueHash key value (HashFromBytes valueHash), d)))))"

definition pushOp :: "bool \<Rightarrow> MerkNode decoding \<Rightarrow> MerkOp decoding" where
  "pushOp inverted r = bindR r (\<lambda>(node, d). Inr (if inverted then OpPushInverted node else OpPush node, d))"

text \<open>\<^verbatim>\<open>MerkDecoder.Next\<close> on a decoder that has more.\<close>

definition NextOp :: "byte \<Rightarrow> bytes \<Rightarrow> MerkOp decoding" where
  "NextOp opCode d =
     (if opCode = 0x01 then pushOp False (decodeHash d)
      else if opCode = 0x02 then pushOp False (decodeKVHash d)
      else if opCode = 0x03 then pushOp False (decodeKV False d)
      else if opCode = 0x04 then pushOp False (decodeKVValueHash False d)
      else if opCode = 0x05 then pushOp False (decodeKVDigest d)
      else if opCode = 0x06 then pushOp False (decodeKVRefValueHash False d)
      else if opCode = 0x08 then pushOp True (decodeHash d)
      else if opCode = 0x09 then pushOp True (decodeKVHash d)
      else if opCode = 0x0a then pushOp True (decodeKV False d)
      else if opCode = 0x0b then pushOp True (decodeKVValueHash False d)
      else if opCode = 0x0c then pushOp True (decodeKVDigest d)
      else if opCode = 0x0d then pushOp True (decodeKVRefValueHash False d)
      else if opCode \<in> {0x20, 0x21, 0x22, 0x28, 0x29, 0x2a} then
        pushOp (opCode \<ge> 0x28)
          (if opCode = 0x20 \<or> opCode = 0x28 then decodeKV True d
           else if opCode = 0x21 \<or> opCode = 0x29 then decodeKVValueHash True d
           else decodeKVRefValueHash True d)
      else if opCode = 0x10 then Inr (OpParent, d)
      else if opCode = 0x11 then Inr (OpChild, d)
      else if opCode = 0x12 then Inr (OpParentInverted, d)
      else if opCode = 0x13 then Inr (OpChildInverted, d)
      else Inl (UnknownOp opCode))"

text \<open>Decoding never lengthens what is left, so the loop over the operations ends.\<close>

lemma readBytes_shrinks: "readBytes n d = Inr (x, d') \<Longrightarrow> length d' \<le> length d"
  by (auto simp: readBytes_def split: if_splits)

lemma readKey_shrinks: "readKey d = Inr (x, d') \<Longrightarrow> length d' \<le> length d"
  by (auto simp: readKey_def dest: readBytes_shrinks split: list.splits)

lemma readU16_shrinks: "readU16 d = Inr (x, d') \<Longrightarrow> length d' \<le> length d"
  by (cases d rule: readU16.cases) auto

lemma readU32_shrinks: "readU32 d = Inr (x, d') \<Longrightarrow> length d' \<le> length d"
  by (cases d rule: readU32.cases) auto

lemma readValueLen_shrinks: "readValueLen l d = Inr (x, d') \<Longrightarrow> length d' \<le> length d"
  by (auto simp: readValueLen_def bindR_eq_Inr dest: readU16_shrinks readU32_shrinks split: if_splits)

lemmas reads_shrink = readBytes_shrinks readKey_shrinks readValueLen_shrinks

lemmas decoders = decodeHash_def decodeKVHash_def decodeKV_def decodeKVValueHash_def decodeKVDigest_def
  decodeKVRefValueHash_def

lemma decoders_shrink:
  "decodeHash d = Inr (x, d') \<Longrightarrow> length d' \<le> length d"
  "decodeKVHash d = Inr (x, d') \<Longrightarrow> length d' \<le> length d"
  "decodeKV l d = Inr (x, d') \<Longrightarrow> length d' \<le> length d"
  "decodeKVValueHash l d = Inr (x, d') \<Longrightarrow> length d' \<le> length d"
  "decodeKVDigest d = Inr (x, d') \<Longrightarrow> length d' \<le> length d"
  "decodeKVRefValueHash l d = Inr (x, d') \<Longrightarrow> length d' \<le> length d"
  by (fastforce simp: decoders bindR_eq_Inr dest!: reads_shrink)+

lemma pushOp_Inr: "pushOp i r = Inr (op, d) \<longleftrightarrow>
  (\<exists>node. r = Inr (node, d) \<and> op = (if i then OpPushInverted node else OpPush node))"
  by (cases r) (auto simp: pushOp_def)

lemma NextOp_shrinks: "NextOp c d = Inr (op, d') \<Longrightarrow> length d' \<le> length d"
  unfolding NextOp_def by (auto simp: pushOp_Inr split: if_splits dest: decoders_shrink)

subsection \<open>Running a proof\<close>

record ProvedKeyValue =
  pKey :: bytes
  pValue :: "bytes option"
  pProofHash :: bytes

record MerkExecutionResult =
  RootHash :: bytes
  ResultSet :: "ProvedKeyValue list"

text \<open>The pair a pushed node proves; a nil value is \<open>None\<close>.\<close>

fun provedOf :: "MerkNode \<Rightarrow> ProvedKeyValue list" where
  "provedOf (NodeKV k v) = [\<lparr>pKey = k, pValue = Some v, pProofHash = ValueHash v\<rparr>]"
| "provedOf (NodeKVValueHash k v vh) = [\<lparr>pKey = k, pValue = Some v, pProofHash = vh\<rparr>]"
| "provedOf (NodeKVRefValueHash k v vh) = [\<lparr>pKey = k, pValue = Some v, pProofHash = vh\<rparr>]"
| "provedOf (NodeKVValueHashFeatureType k v vh) = [\<lparr>pKey = k, pValue = Some v, pProofHash = vh\<rparr>]"
| "provedOf (NodeKVDigest k vh) = [\<lparr>pKey = k, pValue = None, pProofHash = vh\<rparr>]"
| "provedOf _ = []"

text \<open>The stack, its top first, and the pairs collected.\<close>

type_synonym merkState = "MerkTree list \<times> ProvedKeyValue list"

definition attachTop :: "bool \<Rightarrow> MerkTree \<Rightarrow> MerkTree \<Rightarrow> MerkTree" where
  "attachTop isLeft parent child = AttachWithHeight parent isLeft (IntoHash child) (Height child)"

fun execOp :: "MerkOp \<Rightarrow> merkState \<Rightarrow> groveError + merkState" where
  "execOp (OpPush node) (stack, res) = Inr (NewTree node # stack, res @ provedOf node)"
| "execOp (OpPushInverted node) (stack, res) = Inr (NewTree node # stack, res @ provedOf node)"
| "execOp OpParent (parent # child # stack, res) = Inr (attachTop True parent child # stack, res)"
| "execOp OpParent (stack, res) = Inl (Underflow ''Parent'')"
| "execOp OpChild (child # parent # stack, res) = Inr (attachTop False parent child # stack, res)"
| "execOp OpChild (stack, res) = Inl (Underflow ''Child'')"
| "execOp OpParentInverted (parent # child # stack, res) = Inr (attachTop False parent child # stack, res)"
| "execOp OpParentInverted (stack, res) = Inl (Underflow ''ParentInverted'')"
| "execOp OpChildInverted (child # parent # stack, res) = Inr (attachTop True parent child # stack, res)"
| "execOp OpChildInverted (stack, res) = Inl (Underflow ''ChildInverted'')"

function runMerk :: "bytes \<Rightarrow> merkState \<Rightarrow> groveError + merkState" where
  "runMerk [] s = Inr s"
| "runMerk (c # d) s = bindR (NextOp c d) (\<lambda>(op, d'). bindR (execOp op s) (\<lambda>s'. runMerk d' s'))"
  by pat_completeness auto
termination
  by (relation "measure (\<lambda>(d, s). length d)") (auto dest: NextOp_shrinks)

definition ExecuteMerkProof :: "bytes \<Rightarrow> groveError + MerkExecutionResult" where
  "ExecuteMerkProof proofBytes =
     bindR (runMerk proofBytes ([], [])) (\<lambda>(stack, results).
       case stack of
         [MerkTree node l r leftH rightH] \<Rightarrow>
           if leftH - rightH > 1 \<or> rightH - leftH > 1 then Inl NotAVL
           else Inr \<lparr>RootHash = HashTree (MerkTree node l r leftH rightH), ResultSet = results\<rparr>
       | _ \<Rightarrow> Inl (StackItems (length stack)))"

subsection \<open>The canonical encoding of operations\<close>

text \<open>
  The prover's encoding, as the decoder documents it: a key length in a byte, a value
  length in two bytes below the large-value threshold and in four from there on.
\<close>

definition isLarge :: "bytes \<Rightarrow> bool" where
  "isLarge v \<longleftrightarrow> LargeValueThreshold \<le> length v"

definition encodeKey :: "bytes \<Rightarrow> bytes" where
  "encodeKey k = of_nat (length k) # k"

definition encodeValue :: "bytes \<Rightarrow> bytes" where
  "encodeValue v = (if isLarge v then beBytes 4 (length v) else beBytes 2 (length v)) @ v"

fun encodeNode :: "bool \<Rightarrow> MerkNode \<Rightarrow> bytes" where
  "encodeNode i (NodeHash h) = (if i then 0x08 else 0x01) # h"
| "encodeNode i (NodeKVHash h) = (if i then 0x09 else 0x02) # h"
| "encodeNode i (NodeKV k v) =
     (if isLarge v then if i then 0x28 else 0x20 else if i then 0x0a else 0x03) # encodeKey k @ encodeValue v"
| "encodeNode i (NodeKVValueHash k v h) =
     (if isLarge v then if i then 0x29 else 0x21 else if i then 0x0b else 0x04) # encodeKey k @ encodeValue v @ h"
| "encodeNode i (NodeKVDigest k h) = (if i then 0x0c else 0x05) # encodeKey k @ h"
| "encodeNode i (NodeKVRefValueHash k v h) =
     (if isLarge v then if i then 0x2a else 0x22 else if i then 0x0d else 0x06) # encodeKey k @ encodeValue v @ h"
| "encodeNode i (NodeKVValueHashFeatureType k v h) = []"

fun encodeOp :: "MerkOp \<Rightarrow> bytes" where
  "encodeOp (OpPush n) = encodeNode False n"
| "encodeOp (OpPushInverted n) = encodeNode True n"
| "encodeOp OpParent = [0x10]"
| "encodeOp OpChild = [0x11]"
| "encodeOp OpParentInverted = [0x12]"
| "encodeOp OpChildInverted = [0x13]"

definition keyOk :: "bytes \<Rightarrow> bool" where "keyOk k \<longleftrightarrow> length k < 256"
definition valueOk :: "bytes \<Rightarrow> bool" where "valueOk v \<longleftrightarrow> length v \<le> MaxValueLen"
definition hashOk :: "bytes \<Rightarrow> bool" where "hashOk h \<longleftrightarrow> length h = HashLength"

fun nodeOk :: "MerkNode \<Rightarrow> bool" where
  "nodeOk (NodeHash h) = hashOk h"
| "nodeOk (NodeKVHash h) = hashOk h"
| "nodeOk (NodeKV k v) = (keyOk k \<and> valueOk v)"
| "nodeOk (NodeKVValueHash k v h) = (keyOk k \<and> valueOk v \<and> hashOk h)"
| "nodeOk (NodeKVDigest k h) = (keyOk k \<and> hashOk h)"
| "nodeOk (NodeKVRefValueHash k v h) = (keyOk k \<and> valueOk v \<and> hashOk h)"
| "nodeOk (NodeKVValueHashFeatureType k v h) = False"

fun opOk :: "MerkOp \<Rightarrow> bool" where
  "opOk (OpPush n) = nodeOk n"
| "opOk (OpPushInverted n) = nodeOk n"
| "opOk _ = True"

lemma readBytes_Inr: "readBytes n d = Inr (x, r) \<longleftrightarrow> length x = n \<and> d = x @ r"
  by (auto simp: readBytes_def)

lemma HashFromBytes_id [simp]: "length h = HashLength \<Longrightarrow> HashFromBytes h = h"
  by (simp add: HashFromBytes_def)

lemma bit_byte: "bit b n \<Longrightarrow> n < 8" for b :: byte
  using bit_imp_le_length [of b n] by simp

lemma unat_ucast16: "unat (ucast b :: u16) = unat b" for b :: byte
proof -
  have "unat b < 2 ^ 16" by (rule less_trans [OF unat_byte_less]) simp
  then show ?thesis by (simp add: unsigned_ucast_eq take_bit_nat_eq_self)
qed

lemma unat_ucast32: "unat (ucast b :: u32) = unat b" for b :: byte
proof -
  have "unat b < 2 ^ 32" by (rule less_trans [OF unat_byte_less]) simp
  then show ?thesis by (simp add: unsigned_ucast_eq take_bit_nat_eq_self)
qed

lemma mods16: "\<lbrakk>a < 256; b < 256\<rbrakk> \<Longrightarrow> (a * 256 mod 65536 + b) mod 65536 = a * 256 + b" for a b :: nat
  by simp

lemma mods32:
  "\<lbrakk>a < 256; b < 256; c < 256; e < 256\<rbrakk> \<Longrightarrow>
   (a * 16777216 mod 4294967296
     + (b * 65536 mod 4294967296 + (c * 256 mod 4294967296 + e) mod 4294967296) mod 4294967296) mod 4294967296
   = ((a * 256 + b) * 256 + c) * 256 + e" for a b c e :: nat
  by simp

lemma u16_val: "unat (push_bit 8 (ucast a) OR ucast b :: u16) = beVal [a, b]" for a b :: byte
proof -
  have "push_bit 8 (ucast a) OR ucast b = (push_bit 8 (ucast a) + ucast b :: u16)"
    by (rule disjunctive_add [symmetric]) (auto simp: bit_simps dest: bit_byte)
  moreover have "unat (push_bit 8 (ucast a) + ucast b :: u16) = unat a * 256 + unat b"
    using mods16 [of "unat a" "unat b"]
    by (simp add: push_bit_eq_mult unat_word_ariths unat_ucast16)
  ultimately show ?thesis by (simp add: beVal_def)
qed

lemma u32_val:
  "unat (push_bit 24 (ucast a) OR push_bit 16 (ucast b) OR push_bit 8 (ucast c) OR ucast e :: u32) = beVal [a, b, c, e]"
  for a b c e :: byte
proof -
  have "push_bit 8 (ucast c) OR ucast e = (push_bit 8 (ucast c) + ucast e :: u32)"
    "push_bit 16 (ucast b) OR push_bit 8 (ucast c) OR ucast e
       = (push_bit 16 (ucast b) + (push_bit 8 (ucast c) OR ucast e) :: u32)"
    "push_bit 24 (ucast a) OR push_bit 16 (ucast b) OR push_bit 8 (ucast c) OR ucast e
       = (push_bit 24 (ucast a) + (push_bit 16 (ucast b) OR push_bit 8 (ucast c) OR ucast e) :: u32)"
    by (rule disjunctive_add [symmetric], auto simp: bit_simps dest!: bit_byte)+
  then have "push_bit 24 (ucast a) OR push_bit 16 (ucast b) OR push_bit 8 (ucast c) OR ucast e
       = (push_bit 24 (ucast a) + (push_bit 16 (ucast b) + (push_bit 8 (ucast c) + ucast e)) :: u32)"
    by simp
  also have "unat \<dots> = ((unat a * 256 + unat b) * 256 + unat c) * 256 + unat e"
    using mods32 [of "unat a" "unat b" "unat c" "unat e"]
    by (simp add: push_bit_eq_mult unat_word_ariths unat_ucast32)
  finally show ?thesis by (simp add: beVal_def)
qed

lemma be_cut:
  assumes "length bs = k"
  shows "beVal bs = n \<and> d = r \<longleftrightarrow> n < 256 ^ k \<and> bs @ d = beBytes k n @ r"
proof
  assume "beVal bs = n \<and> d = r"
  then show "n < 256 ^ k \<and> bs @ d = beBytes k n @ r"
    using beVal_bound [of bs] beBytes_beVal [of bs] assms by auto
next
  assume "n < 256 ^ k \<and> bs @ d = beBytes k n @ r"
  then show "beVal bs = n \<and> d = r"
    using assms beVal_beBytes [of n k] by (simp add: append_eq_append_conv)
qed

lemma readU16_Inr: "readU16 d = Inr (n, r) \<longleftrightarrow> n < 65536 \<and> d = beBytes 2 n @ r"
proof (cases d rule: readU16.cases)
  case (1 a b d')
  then show ?thesis using be_cut [of "[a, b]" 2 n d' r] by (simp add: u16_val)
qed (auto dest: arg_cong [where f = length])

lemma readU32_Inr: "readU32 d = Inr (n, r) \<longleftrightarrow> n < 2 ^ 32 \<and> d = beBytes 4 n @ r"
proof (cases d rule: readU32.cases)
  case (1 a b c e d')
  then show ?thesis using be_cut [of "[a, b, c, e]" 4 n d' r] by (simp add: u32_val)
qed (auto dest: arg_cong [where f = length])

lemma readKey_Inr: "readKey d = Inr (k, r) \<longleftrightarrow> keyOk k \<and> d = encodeKey k @ r"
proof -
  have "of_nat (unat b) = b" for b :: byte by simp
  moreover have "unat (of_nat n :: byte) = n" if "n < 256" for n using that by (simp add: unat_of_nat)
  ultimately show ?thesis
    by (auto simp: readKey_def readBytes_Inr encodeKey_def keyOk_def split: list.splits) 
qed

lemma readValueLen_Inr: "readValueLen l d = Inr (n, r) \<longleftrightarrow>
  (if l then LargeValueThreshold \<le> n \<and> n \<le> MaxValueLen \<and> d = beBytes 4 n @ r
   else n < LargeValueThreshold \<and> d = beBytes 2 n @ r)"
proof (cases l)
  case True
  have "n < 2 ^ 32" if "n \<le> MaxValueLen" using that by (simp add: MaxValueLen_def)
  then show ?thesis
    using True by (auto simp: readValueLen_def bindR_eq_Inr readU32_Inr split: if_splits)
next
  case False
  then show ?thesis by (simp add: readValueLen_def readU16_Inr LargeValueThreshold_def)
qed

lemma encodeValue_Inr:
  "(\<exists>n d'. readValueLen l d = Inr (n, d') \<and> readBytes n d' = Inr (v, r)) \<longleftrightarrow>
     isLarge v = l \<and> valueOk v \<and> d = encodeValue v @ r"
proof -
  have "LargeValueThreshold \<le> MaxValueLen" by (simp add: LargeValueThreshold_def MaxValueLen_def)
  then show ?thesis
    by (auto simp: readValueLen_Inr readBytes_Inr isLarge_def valueOk_def encodeValue_def split: if_splits)
qed

lemma hash_Inr:
  "(\<exists>x. readBytes HashLength d = Inr (x, r) \<and> h = HashFromBytes x) \<longleftrightarrow> hashOk h \<and> d = h @ r"
  by (auto simp: readBytes_Inr hashOk_def)

lemma decodeKV_Inr: "decodeKV l d = Inr (n, r) \<longleftrightarrow>
  (\<exists>k v. n = NodeKV k v \<and> nodeOk n \<and> isLarge v = l \<and> d = encodeKey k @ encodeValue v @ r)"
proof -
  have "decodeKV l d = Inr (n, r) \<longleftrightarrow> (\<exists>k v d1. readKey d = Inr (k, d1) \<and> n = NodeKV k v
      \<and> (\<exists>m d2. readValueLen l d1 = Inr (m, d2) \<and> readBytes m d2 = Inr (v, r)))"
    by (auto simp: decodeKV_def bindR_eq_Inr)
  then show ?thesis unfolding encodeValue_Inr readKey_Inr by auto
qed

lemma decodeKVValueHash_Inr: "decodeKVValueHash l d = Inr (n, r) \<longleftrightarrow>
  (\<exists>k v h. n = NodeKVValueHash k v h \<and> nodeOk n \<and> isLarge v = l \<and> d = encodeKey k @ encodeValue v @ h @ r)"
proof -
  have "decodeKVValueHash l d = Inr (n, r) \<longleftrightarrow> (\<exists>k v h d1 d3. readKey d = Inr (k, d1)
      \<and> (\<exists>m d2. readValueLen l d1 = Inr (m, d2) \<and> readBytes m d2 = Inr (v, d3))
      \<and> (\<exists>x. readBytes HashLength d3 = Inr (x, r) \<and> h = HashFromBytes x) \<and> n = NodeKVValueHash k v h)"
    by (auto simp: decodeKVValueHash_def bindR_eq_Inr)
  then show ?thesis unfolding encodeValue_Inr readKey_Inr hash_Inr by auto
qed

lemma decodeKVRefValueHash_Inr: "decodeKVRefValueHash l d = Inr (n, r) \<longleftrightarrow>
  (\<exists>k v h. n = NodeKVRefValueHash k v h \<and> nodeOk n \<and> isLarge v = l \<and> d = encodeKey k @ encodeValue v @ h @ r)"
proof -
  have "decodeKVRefValueHash l d = Inr (n, r) \<longleftrightarrow> (\<exists>k v h d1 d3. readKey d = Inr (k, d1)
      \<and> (\<exists>m d2. readValueLen l d1 = Inr (m, d2) \<and> readBytes m d2 = Inr (v, d3))
      \<and> (\<exists>x. readBytes HashLength d3 = Inr (x, r) \<and> h = HashFromBytes x) \<and> n = NodeKVRefValueHash k v h)"
    by (auto simp: decodeKVRefValueHash_def bindR_eq_Inr)
  then show ?thesis unfolding encodeValue_Inr readKey_Inr hash_Inr by auto
qed

lemma decodeKVDigest_Inr: "decodeKVDigest d = Inr (n, r) \<longleftrightarrow>
  (\<exists>k h. n = NodeKVDigest k h \<and> nodeOk n \<and> d = encodeKey k @ h @ r)"
  by (auto simp: decodeKVDigest_def bindR_eq_Inr readKey_Inr readBytes_Inr hashOk_def)

lemma decodeHash_Inr: "decodeHash d = Inr (n, r) \<longleftrightarrow> (\<exists>h. n = NodeHash h \<and> nodeOk n \<and> d = h @ r)"
  by (auto simp: decodeHash_def bindR_eq_Inr readBytes_Inr hashOk_def)

lemma decodeKVHash_Inr: "decodeKVHash d = Inr (n, r) \<longleftrightarrow> (\<exists>h. n = NodeKVHash h \<and> nodeOk n \<and> d = h @ r)"
  by (auto simp: decodeKVHash_def bindR_eq_Inr readBytes_Inr hashOk_def)

lemmas decodes_Inr = decodeHash_Inr decodeKVHash_Inr decodeKV_Inr decodeKVValueHash_Inr decodeKVDigest_Inr
  decodeKVRefValueHash_Inr

lemma NextOp_sound:
  assumes "NextOp c d = Inr (op, r)"
  shows "opOk op \<and> c # d = encodeOp op @ r"
  using assms unfolding NextOp_def
  by (auto simp: pushOp_Inr decodes_Inr split: if_splits)

lemma NextOp_complete_push:
  assumes "nodeOk n" and "c # d = encodeNode i n @ r"
  shows "NextOp c d = Inr (if i then OpPushInverted n else OpPush n, r)"
proof -
  have [simp]: "decodeHash (h @ r) = Inr (NodeHash h, r)" "decodeKVHash (h @ r) = Inr (NodeKVHash h, r)"
    if "hashOk h" for h using that by (simp_all add: decodes_Inr)
  have [simp]: "decodeKV l (encodeKey k @ encodeValue v @ r) = Inr (NodeKV k v, r)"
    if "keyOk k" "valueOk v" "isLarge v = l" for k v l using that by (auto simp: decodes_Inr)
  have [simp]: "decodeKVValueHash l (encodeKey k @ encodeValue v @ h @ r) = Inr (NodeKVValueHash k v h, r)"
    "decodeKVRefValueHash l (encodeKey k @ encodeValue v @ h @ r) = Inr (NodeKVRefValueHash k v h, r)"
    if "keyOk k" "valueOk v" "hashOk h" "isLarge v = l" for k v h l using that by (auto simp: decodes_Inr)
  have [simp]: "decodeKVDigest (encodeKey k @ h @ r) = Inr (NodeKVDigest k h, r)"
    if "keyOk k" "hashOk h" for k h using that by (auto simp: decodes_Inr)
  show ?thesis
    using assms by (cases n; cases i) (auto simp: NextOp_def pushOp_def split: if_splits)
qed

lemma NextOp_complete:
  assumes "opOk op" and "c # d = encodeOp op @ r"
  shows "NextOp c d = Inr (op, r)"
proof (cases op)
  case (OpPush n)
  then show ?thesis using NextOp_complete_push [of n c d False r] assms by simp
next
  case (OpPushInverted n)
  then show ?thesis using NextOp_complete_push [of n c d True r] assms by simp
qed (use assms in \<open>auto simp: NextOp_def\<close>)

lemma encodeOp_nonempty: "opOk op \<Longrightarrow> encodeOp op \<noteq> []"
proof (cases op)
  case (OpPush n)
  then show "opOk op \<Longrightarrow> ?thesis" by (cases n) auto
next
  case (OpPushInverted n)
  then show "opOk op \<Longrightarrow> ?thesis" by (cases n) auto
qed auto

text \<open>
  The decoder of Merk operations accepts exactly the canonical encodings: it reads an
  operation off the front of the bytes if and only if they start with the one encoding of
  a well-formed operation, so no operation (a large value included) has two encodings.
\<close>

lemma Next_canonical:
  "NextOp c d = Inr (op, r) \<longleftrightarrow> opOk op \<and> c # d = encodeOp op @ r"
  using NextOp_sound NextOp_complete by blast

interpretation merkCode: prefix_codec opOk encodeOp
  "\<lambda>d. case d of [] \<Rightarrow> None | c # d' \<Rightarrow> (case NextOp c d' of Inl _ \<Rightarrow> None | Inr x \<Rightarrow> Some x)"
proof
  fix op and r :: bytes
  assume ok: "opOk op"
  then obtain c e where e: "encodeOp op = c # e" using encodeOp_nonempty by (metis list.exhaust)
  then have "NextOp c (e @ r) = Inr (op, r)" using NextOp_complete [OF ok, of c "e @ r" r] by simp
  then show "(case encodeOp op @ r of [] \<Rightarrow> None
      | c # d' \<Rightarrow> (case NextOp c d' of Inl _ \<Rightarrow> None | Inr x \<Rightarrow> Some x)) = Some (op, r)"
    using e by simp
qed

subsection \<open>Runs over decoded operations\<close>

primrec execOps :: "MerkOp list \<Rightarrow> merkState \<Rightarrow> groveError + merkState" where
  "execOps [] s = Inr s"
| "execOps (op # ops) s = bindR (execOp op s) (execOps ops)"

lemma runMerk_encode:
  "list_all opOk ops \<Longrightarrow> runMerk (concat (map encodeOp ops)) s = execOps ops s"
proof (induction ops arbitrary: s)
  case Nil
  then show ?case by simp
next
  case (Cons op ops)
  then have ok: "opOk op" by simp
  then obtain c e where e: "encodeOp op = c # e" using encodeOp_nonempty by (metis list.exhaust)
  then have "NextOp c (e @ concat (map encodeOp ops)) = Inr (op, concat (map encodeOp ops))"
    using NextOp_complete [OF ok] by simp
  moreover have "runMerk (concat (map encodeOp ops)) = execOps ops" using Cons by auto
  ultimately show ?case using e by simp
qed

lemma runMerk_decodes:
  "runMerk d s = Inr s' \<Longrightarrow> \<exists>ops. list_all opOk ops \<and> d = concat (map encodeOp ops) \<and> execOps ops s = Inr s'"
proof (induction d s rule: runMerk.induct)
  case (1 s)
  then show ?case by (intro exI [of _ "[]"]) simp
next
  case (2 c d s)
  then obtain op d' s1 where n: "NextOp c d = Inr (op, d')" and e: "execOp op s = Inr s1" and r: "runMerk d' s1 = Inr s'"
    by (auto simp: bindR_eq_Inr)
  then obtain ops where "list_all opOk ops" "d' = concat (map encodeOp ops)" "execOps ops s1 = Inr s'"
    using "2.IH" [OF n refl e] by blast
  then show ?case using NextOp_sound [OF n] e by (intro exI [of _ "op # ops"]) simp
qed

fun pushedNodes :: "MerkOp list \<Rightarrow> MerkNode list" where
  "pushedNodes [] = []"
| "pushedNodes (OpPush n # ops) = n # pushedNodes ops"
| "pushedNodes (OpPushInverted n # ops) = n # pushedNodes ops"
| "pushedNodes (_ # ops) = pushedNodes ops"

lemma execOps_results:
  "execOps ops (st, res) = Inr (st', res') \<Longrightarrow>
     res' = res @ concat (map provedOf (pushedNodes ops))
     \<and> length st' + length ops = length st + 2 * length (pushedNodes ops)"
proof (induction ops arbitrary: st res rule: pushedNodes.induct)
  case 1
  then show ?case by simp
qed (force simp: bindR_eq_Inr elim!: execOp.elims)+

lemma ExecuteMerkProof_run:
  assumes "ExecuteMerkProof d = Inr res"
  shows "\<exists>t. runMerk d ([], []) = Inr ([t], ResultSet res) \<and> RootHash res = HashTree t"
proof -
  obtain st rs where run: "runMerk d ([], []) = Inr (st, rs)"
    using assms by (auto simp: ExecuteMerkProof_def bindR_eq_Inr)
  show ?thesis
  proof (cases st)
    case Nil
    then show ?thesis using assms run by (simp add: ExecuteMerkProof_def)
  next
    case (Cons t ts)
    obtain node l r lh rh where "t = MerkTree node l r lh rh" by (cases t)
    then show ?thesis
      using assms run Cons by (cases ts) (auto simp: ExecuteMerkProof_def split: if_splits)
  qed
qed

text \<open>
  A Merk proof that runs is the canonical encoding of a sequence of operations with one
  more push than attachments, and its result set is the pairs of the pushed nodes in order.
\<close>

lemma ExecuteMerkProof_collects:
  assumes "ExecuteMerkProof d = Inr res"
  shows "\<exists>ops. list_all opOk ops \<and> d = concat (map encodeOp ops)
           \<and> ResultSet res = concat (map provedOf (pushedNodes ops))
           \<and> length ops + 1 = 2 * length (pushedNodes ops)"
proof -
  obtain t rs where run: "runMerk d ([], []) = Inr ([t], rs)" and rs: "ResultSet res = rs"
    using ExecuteMerkProof_run [OF assms] by blast
  obtain ops where ops: "list_all opOk ops" "d = concat (map encodeOp ops)" "execOps ops ([], []) = Inr ([t], rs)"
    using runMerk_decodes [OF run] by blast
  then show ?thesis using execOps_results [OF ops(3)] rs by (intro exI [of _ ops]) simp
qed

lemma ExecuteMerkProof_collects_sample:
  "\<exists>ops. list_all opOk ops \<and> 0x01 # replicate 32 7 = concat (map encodeOp ops)
     \<and> [] = concat (map provedOf (pushedNodes ops)) \<and> length ops + 1 = 2 * length (pushedNodes ops)"
proof -
  have "ExecuteMerkProof (0x01 # replicate 32 7) = Inr \<lparr>RootHash = replicate 32 7, ResultSet = []\<rparr>"
    by code_simp
  then show ?thesis using ExecuteMerkProof_collects by fastforce
qed

text \<open>
  C16: the walk of a proof proves nothing about the root it returns: for every 32-byte root
  and every key and value there is a proof whose run returns that root and that pair (the
  children under a Hash node are not hashed), which is why the package documents its
  verification as unusable.
\<close>

theorem ExecuteMerkProof_unsound:
  assumes "length root = 32" and "length k < 256" and "length v \<le> MaxValueLen"
  shows "\<exists>d. ExecuteMerkProof d =
    Inr \<lparr>RootHash = root, ResultSet = [\<lparr>pKey = k, pValue = Some v, pProofHash = ValueHash v\<rparr>]\<rparr>"
proof -
  let ?ops = "[OpPush (NodeKV k v), OpPush (NodeHash root), OpParent]"
  have "list_all opOk ?ops" using assms by (simp add: keyOk_def valueOk_def hashOk_def HashLength_def)
  note run = runMerk_encode [OF this, of "([], [])"]
  have "ExecuteMerkProof (concat (map encodeOp ?ops)) =
      Inr \<lparr>RootHash = root, ResultSet = [\<lparr>pKey = k, pValue = Some v, pProofHash = ValueHash v\<rparr>]\<rparr>"
    unfolding ExecuteMerkProof_def run by (simp add: attachTop_def NewTree_def)
  then show ?thesis by blast
qed

theorem ExecuteMerkProof_unsound_witness:
  "\<exists>d. ExecuteMerkProof d =
    Inr \<lparr>RootHash = replicate 32 7, ResultSet = [\<lparr>pKey = [1], pValue = Some [2, 3], pProofHash = ValueHash [2, 3]\<rparr>]\<rparr>"
  by (rule ExecuteMerkProof_unsound) (simp_all add: MaxValueLen_def)

end
