(* ===== verification/GroveDB.thy ===== *)
theory GroveDB
  imports Merk
begin

text \<open>
  The envelope half of the package \<^verbatim>\<open>grovedb\<close> (\<^verbatim>\<open>grovedb/verifier.go\<close> from \<^verbatim>\<open>bincodeReader\<close> on, and
  the proof types of \<^verbatim>\<open>grovedb/types.go\<close>): decoding the layered proof, the check of its
  shape against a query path, and the walk over its layers.  A \<^verbatim>\<open>bincodeReader\<close> is the bytes
  from its offset on.  The theory shows that decoding inverts the prover's encoding and
  refuses trailing bytes, that a decoded proof is at most 65 layers deep, and that the
  envelope check passes exactly when the layers of the path, and nothing below it, are there.
\<close>

subsection \<open>The bincode reader\<close>

definition varint :: "bytes \<Rightarrow> nat decoding" where
  "varint r =
     (case r of
        [] \<Rightarrow> Inl VarintTruncated
      | tag # r \<Rightarrow>
          if tag < 251 then Inr (unat tag, r)
          else if tag \<le> 253 then
            (let n = (if tag = 251 then 2 else if tag = 252 then 4 else 8)
             in if n > length r then Inl VarintBody else Inr (beVal (take n r), drop n r))
          else Inl VarintWidth)"

definition byteVec :: "bytes \<Rightarrow> bytes decoding" where
  "byteVec r =
     bindR (varint r) (\<lambda>(n, r).
       if n > length r then Inl ByteVecTruncated else Inr (take n r, drop n r))"

subsection \<open>Layered proofs\<close>

text \<open>The layer's Merk proof and its lower layers, a map keyed by the hex of the key.\<close>

datatype LayerProof = LayerProof (MerkProof: bytes) (LowerLayers: "(string \<times> LayerProof) list")

definition putLayer :: "string \<Rightarrow> LayerProof \<Rightarrow> (string \<times> LayerProof) list \<Rightarrow> (string \<times> LayerProof) list" where
  "putLayer k v ls = (k, v) # filter (\<lambda>p. fst p \<noteq> k) ls"

record GroveDBProof =
  RootLayer :: LayerProof
  DecreaseLimitOnEmptySubQueryResult :: bool

definition maxLayerDepth :: nat where
  "maxLayerDepth = 64"

text \<open>
  \<^verbatim>\<open>decodeLayerProof\<close> at depth \<open>d\<close> has \<open>maxLayerDepth + 1 - d\<close> levels left; at none it refuses.
\<close>

fun decodeLayerProof :: "nat \<Rightarrow> bytes \<Rightarrow> LayerProof decoding"
  and decodeLowerLayers :: "nat \<Rightarrow> nat \<Rightarrow> bytes \<Rightarrow> (string \<times> LayerProof) list \<Rightarrow> (string \<times> LayerProof) list decoding"
where
  "decodeLayerProof 0 r = Inl NestingTooDeep"
| "decodeLayerProof (Suc levels) r =
     bindR (byteVec r) (\<lambda>(merkProof, r).
     bindR (varint r) (\<lambda>(count, r).
     bindR (decodeLowerLayers levels count r []) (\<lambda>(lowerLayers, r).
     Inr (LayerProof merkProof lowerLayers, r))))"
| "decodeLowerLayers levels 0 r lowerLayers = Inr (lowerLayers, r)"
| "decodeLowerLayers levels (Suc i) r lowerLayers =
     bindR (byteVec r) (\<lambda>(key, r).
     bindR (decodeLayerProof levels r) (\<lambda>(nested, r).
     decodeLowerLayers levels i r (putLayer (hexEncode key) nested lowerLayers)))"

text \<open>The prove options and the end of the bytes, after the layers.\<close>

definition decodeOptions :: "LayerProof \<Rightarrow> bytes \<Rightarrow> groveError + GroveDBProof" where
  "decodeOptions rootLayer r =
     (case r of
        [] \<Rightarrow> Inl OptionsTruncated
      | opts # r \<Rightarrow>
          if r \<noteq> [] then Inl (TrailingBytes (length r))
          else Inr \<lparr>RootLayer = rootLayer, DecreaseLimitOnEmptySubQueryResult = (opts \<noteq> 0)\<rparr>)"

definition DecodeGroveDBProof :: "bytes \<Rightarrow> groveError + GroveDBProof" where
  "DecodeGroveDBProof proofBytes =
     bindR (varint proofBytes) (\<lambda>(variant, r).
     bindR (ensureR (variant = 0) (ProofVersion variant)) (\<lambda>_.
     bindR (decodeLayerProof (maxLayerDepth + 1) r) (\<lambda>(rootLayer, r). decodeOptions rootLayer r)))"

subsection \<open>The shape of an envelope\<close>

fun descend :: "nat \<Rightarrow> LayerProof \<Rightarrow> bytes list \<Rightarrow> groveError + LayerProof" where
  "descend i layer [] = Inr layer"
| "descend i layer (seg # path) =
     (case map_of (LowerLayers layer) (hexEncode seg) of
        None \<Rightarrow> Inl (NoLowerLayer i seg)
      | Some next \<Rightarrow> descend (i + 1) next path)"

text \<open>A proof that is nil, or has no body or root layer, is \<open>None\<close>.\<close>

definition CheckEnvelope :: "GroveDBProof option \<Rightarrow> bytes list \<Rightarrow> groveError + unit" where
  "CheckEnvelope proof expectedPath =
     (case proof of
        None \<Rightarrow> Inl MissingRootLayer
      | Some p \<Rightarrow>
          if \<not> DecreaseLimitOnEmptySubQueryResult p then Inl NonDefaultOptions
          else bindR (descend 0 (RootLayer p) expectedPath) (\<lambda>layer.
            if length (LowerLayers layer) \<noteq> 0 then Inl UnexpectedLowerLayers else Inr ()))"

subsection \<open>The walk\<close>

record QueryResult =
  qPath :: "bytes list"
  qKey :: bytes
  qValue :: bytes

record VerificationResult =
  vRootHash :: string
  vResults :: "QueryResult list"

lemma size_lower: "(k, l) \<in> set ls \<Longrightarrow> size l < size (LayerProof m ls)"
  by (induction ls) auto

lemma size_map_of: "map_of (LowerLayers layer) k = Some l \<Longrightarrow> size l < size layer"
  by (cases layer) (auto dest!: map_of_SomeD size_lower)

function verifyLayerProof :: "LayerProof \<Rightarrow> bytes list \<Rightarrow> QueryResult list \<Rightarrow> groveError + (bytes \<times> QueryResult list)"
  and walkProved :: "LayerProof \<Rightarrow> bytes list \<Rightarrow> ProvedKeyValue list \<Rightarrow> string list \<Rightarrow> QueryResult list
    \<Rightarrow> groveError + QueryResult list"
where
  "verifyLayerProof layer currentPath results =
     bindR (ExecuteMerkProof (MerkProof layer)) (\<lambda>merkResult.
     bindR (walkProved layer currentPath (ResultSet merkResult) [] results) (\<lambda>results.
     Inr (RootHash merkResult, results)))"
| "walkProved layer currentPath [] walked results = Inr results"
| "walkProved layer currentPath (proved # rest) walked results =
     (let keyHex = hexEncode (pKey proved)
      in case pValue proved of
           None \<Rightarrow> walkProved layer currentPath rest walked results
         | Some value \<Rightarrow>
             (case map_of (LowerLayers layer) keyHex of
                None \<Rightarrow>
                  walkProved layer currentPath rest walked
                    (results @ [\<lparr>qPath = currentPath, qKey = pKey proved, qValue = value\<rparr>])
              | Some lowerLayer \<Rightarrow>
                  if keyHex \<in> set walked then Inl (ProvedTwice keyHex)
                  else bindR (verifyLayerProof lowerLayer (currentPath @ [pKey proved]) results) (\<lambda>(lowerHash, results).
                    let combinedHash = CombineHash (ValueHash value) lowerHash
                    in if \<not> EqualsHash combinedHash (pProofHash proved)
                       then Inl (LayerHashMismatch keyHex (pProofHash proved) combinedHash)
                       else walkProved layer currentPath rest (keyHex # walked) results)))"
  by pat_completeness auto
termination
  by (relation "measures [case_sum (\<lambda>(l, _). size l) (\<lambda>(l, _). size l),
        case_sum (\<lambda>_. 1) (\<lambda>_. 0), case_sum (\<lambda>_. 0) (\<lambda>(_, _, ps, _). length ps)]")
    (auto dest: size_map_of)

definition verifyDecoded :: "GroveDBProof \<Rightarrow> groveError + VerificationResult" where
  "verifyDecoded proof =
     bindR (verifyLayerProof (RootLayer proof) [] []) (\<lambda>(rootHash, results).
     Inr \<lparr>vRootHash = hexEncode rootHash, vResults = results\<rparr>)"

definition VerifyProof :: "bytes \<Rightarrow> groveError + VerificationResult" where
  "VerifyProof proofBytes =
     bindR (DecodeGroveDBProof proofBytes) (\<lambda>proof.
       if \<not> DecreaseLimitOnEmptySubQueryResult proof then Inl NonDefaultOptions else verifyDecoded proof)"

definition VerifyProofAtPath :: "bytes \<Rightarrow> bytes list \<Rightarrow> groveError + VerificationResult" where
  "VerifyProofAtPath proofBytes expectedPath =
     bindR (DecodeGroveDBProof proofBytes) (\<lambda>proof.
     bindR (CheckEnvelope (Some proof) expectedPath) (\<lambda>_. verifyDecoded proof))"

definition againstRoot :: "string \<Rightarrow> VerificationResult \<Rightarrow> groveError + VerificationResult" where
  "againstRoot expected result =
     (if vRootHash result \<noteq> expected then Inl (RootHashMismatch expected (vRootHash result)) else Inr result)"

definition VerifyProofAgainstRootAtPath :: "bytes \<Rightarrow> bytes list \<Rightarrow> string \<Rightarrow> groveError + VerificationResult" where
  "VerifyProofAgainstRootAtPath proofBytes expectedPath expectedRootHash =
     bindR (VerifyProofAtPath proofBytes expectedPath) (againstRoot expectedRootHash)"

definition VerifyProofAgainstRoot :: "bytes \<Rightarrow> string \<Rightarrow> groveError + VerificationResult" where
  "VerifyProofAgainstRoot proofBytes expectedRootHash =
     bindR (VerifyProof proofBytes) (againstRoot expectedRootHash)"

definition QuickVerify :: "bytes \<Rightarrow> groveError + bytes" where
  "QuickVerify proofBytes = bindR (VerifyProof proofBytes) (\<lambda>result. HashFromHex (vRootHash result))"

record Verifier =
  trustedRootHash :: string

definition NewVerifier :: Verifier where
  "NewVerifier = \<lparr>trustedRootHash = []\<rparr>"

definition SetTrustedRoot :: "Verifier \<Rightarrow> string \<Rightarrow> groveError + Verifier" where
  "SetTrustedRoot v rootHash =
     (if length rootHash \<noteq> HashLength * 2 then Inl InvalidRootLength
      else case hexDecode rootHash of
             Inl e \<Rightarrow> Inl (InvalidRootFormat e)
           | Inr _ \<Rightarrow> Inr (v\<lparr>trustedRootHash := rootHash\<rparr>))"

definition Verify :: "Verifier \<Rightarrow> bytes \<Rightarrow> groveError + VerificationResult" where
  "Verify v proofBytes =
     (if trustedRootHash v = [] then Inl NoTrustedRoot
      else VerifyProofAgainstRoot proofBytes (trustedRootHash v))"

subsection \<open>Encoding envelopes\<close>

text \<open>The prover's encoding: the shortest varint, and the lower layers in some order.\<close>

definition encVarint :: "nat \<Rightarrow> bytes" where
  "encVarint n =
     (if n < 251 then [of_nat n]
      else if n < 2 ^ 16 then 251 # beBytes 2 n
      else if n < 2 ^ 32 then 252 # beBytes 4 n
      else 253 # beBytes 8 n)"

definition encByteVec :: "bytes \<Rightarrow> bytes" where
  "encByteVec bs = encVarint (length bs) @ bs"

text \<open>A layer as the prover holds it: its keys are raw bytes.\<close>

datatype rawLayer = RawLayer bytes "(bytes \<times> rawLayer) list"

fun encLayer :: "rawLayer \<Rightarrow> bytes" where
  "encLayer (RawLayer m ls) =
     encByteVec m @ encVarint (length ls) @ concat (map (\<lambda>(k, l). encByteVec k @ encLayer l) ls)"

fun depthLayer :: "rawLayer \<Rightarrow> nat" where
  "depthLayer (RawLayer m ls) = Suc (Max (insert 0 (set (map (\<lambda>(k, l). depthLayer l) ls))))"

fun ofRaw :: "rawLayer \<Rightarrow> LayerProof" where
  "ofRaw (RawLayer m ls) = LayerProof m (rev (map (\<lambda>(k, l). (hexEncode k, ofRaw l)) ls))"

fun rawOk :: "rawLayer \<Rightarrow> bool" where
  "rawOk (RawLayer m ls) \<longleftrightarrow>
     length m < 2 ^ 64 \<and> length ls < 2 ^ 64 \<and> distinct (map fst ls)
     \<and> list_all (\<lambda>(k, l). length k < 2 ^ 64 \<and> rawOk l) ls"

lemma varint_enc: "n < 2 ^ 64 \<Longrightarrow> varint (encVarint n @ r) = Inr (n, r)"
proof -
  assume n: "n < 2 ^ 64"
  have "beVal (beBytes k n) = n" if "n < 256 ^ k" for k using that by (rule beVal_beBytes)
  moreover have "(of_nat n :: byte) < 251" "unat (of_nat n :: byte) = n" if "n < 251"
    using that by (simp_all add: word_less_nat_alt unat_of_nat)
  ultimately show ?thesis using n by (simp add: varint_def encVarint_def)
qed

lemma byteVec_enc: "length b < 2 ^ 64 \<Longrightarrow> byteVec (encByteVec b @ r) = Inr (b, r)"
  by (simp add: byteVec_def encByteVec_def varint_enc)

interpretation varintCode: prefix_codec "\<lambda>n. n < 2 ^ 64" encVarint
  "\<lambda>d. case varint d of Inl _ \<Rightarrow> None | Inr x \<Rightarrow> Some x"
  by unfold_locales (simp only: varint_enc sum.case)

interpretation byteVecCode: prefix_codec "\<lambda>b. length b < 2 ^ 64" encByteVec
  "\<lambda>d. case byteVec d of Inl _ \<Rightarrow> None | Inr x \<Rightarrow> Some x"
  by unfold_locales (simp only: byteVec_enc sum.case)

subsection \<open>Decoding inverts encoding\<close>

lemma putLayer_fresh: "k \<notin> fst ` set ls \<Longrightarrow> putLayer k v ls = (k, v) # ls"
  by (auto simp: putLayer_def filter_id_conv)

lemma decodeLowerLayers_enc:
  assumes "\<And>k l r. (k, l) \<in> set ls \<Longrightarrow> length k < 2 ^ 64 \<and> decodeLayerProof lv (encLayer l @ r) = Inr (ofRaw l, r)"
    and "distinct (map fst ls)" and "\<And>k. k \<in> fst ` set ls \<Longrightarrow> hexEncode k \<notin> fst ` set acc"
  shows "decodeLowerLayers lv (length ls) (concat (map (\<lambda>(k, l). encByteVec k @ encLayer l) ls) @ r) acc
    = Inr (rev (map (\<lambda>(k, l). (hexEncode k, ofRaw l)) ls) @ acc, r)"
  using assms
proof (induction ls arbitrary: acc)
  case Nil
  then show ?case by simp
next
  case (Cons kl ls)
  obtain k l where kl: "kl = (k, l)" by fastforce
  have k: "length k < 2 ^ 64" and dec: "decodeLayerProof lv (encLayer l @ x) = Inr (ofRaw l, x)" for x
    using Cons.prems(1) kl by auto
  have "decodeLowerLayers lv (length ls) (concat (map (\<lambda>(k, l). encByteVec k @ encLayer l) ls) @ r)
      ((hexEncode k, ofRaw l) # acc) = Inr (rev (map (\<lambda>(k, l). (hexEncode k, ofRaw l)) ls) @ (hexEncode k, ofRaw l) # acc, r)"
    using Cons.prems kl by (intro Cons.IH) (auto simp: hexEncode_inj image_iff)
  moreover have "hexEncode k \<notin> fst ` set acc" using Cons.prems(3) kl by auto
  ultimately show ?case using kl k by (simp add: byteVec_enc dec putLayer_fresh)
qed

lemma depthLayer_lower: "(k, l) \<in> set ls \<Longrightarrow> depthLayer l < depthLayer (RawLayer m ls)"
proof -
  assume "(k, l) \<in> set ls"
  then have "depthLayer l \<in> set (map (\<lambda>(k, l). depthLayer l) ls)" by force
  then have "depthLayer l \<le> Max (insert 0 (set (map (\<lambda>(k, l). depthLayer l) ls)))" by (intro Max_ge) auto
  then show ?thesis by simp
qed

lemma decodeLayerProof_enc:
  "rawOk l \<Longrightarrow> depthLayer l \<le> lv \<Longrightarrow> decodeLayerProof lv (encLayer l @ r) = Inr (ofRaw l, r)"
proof (induction l arbitrary: lv r rule: encLayer.induct)
  case (1 m ls)
  obtain j where j: "lv = Suc j" using "1.prems"(2) by (cases lv) auto
  have lower: "length k < 2 ^ 64 \<and> decodeLayerProof j (encLayer l @ r) = Inr (ofRaw l, r)"
    if "(k, l) \<in> set ls" for k l r
  proof -
    have "depthLayer l \<le> j" using depthLayer_lower [OF that, of m] "1.prems"(2) j
      by (simp del: depthLayer.simps)
    moreover have "length k < 2 ^ 64 \<and> rawOk l" using "1.prems"(1) that by (auto simp: list_all_iff)
    ultimately show ?thesis using "1.IH" [OF that refl] by blast
  qed
  have "decodeLowerLayers j (length ls) (concat (map (\<lambda>(k, l). encByteVec k @ encLayer l) ls) @ r) []
      = Inr (rev (map (\<lambda>(k, l). (hexEncode k, ofRaw l)) ls), r)"
    using decodeLowerLayers_enc [OF lower, of ls "[]" r] "1.prems"(1) by simp
  then show ?case using "1.prems"(1) j by (simp add: byteVec_enc varint_enc)
qed

definition encodeProof :: "rawLayer \<Rightarrow> bool \<Rightarrow> bytes" where
  "encodeProof l opts = encVarint 0 @ encLayer l @ [if opts then 1 else 0]"

lemma Decode_encode_rest:
  assumes "rawOk l" and "depthLayer l \<le> maxLayerDepth + 1"
  shows "DecodeGroveDBProof (encodeProof l opts @ extra) =
    (if extra = [] then Inr \<lparr>RootLayer = ofRaw l, DecreaseLimitOnEmptySubQueryResult = opts\<rparr>
     else Inl (TrailingBytes (length extra)))"
proof -
  have "varint (encVarint 0 @ x) = Inr (0, x)" for x by (rule varint_enc) simp
  then show ?thesis
    using decodeLayerProof_enc [OF assms] by (simp add: DecodeGroveDBProof_def encodeProof_def decodeOptions_def)
qed

text \<open>
  C14: decoding the prover's encoding of a layered proof of at most 65 levels returns that
  proof, and with anything after it the proof is refused for its trailing bytes.
\<close>

theorem Decode_inverts_encode:
  assumes "rawOk l" and "depthLayer l \<le> maxLayerDepth + 1"
  shows "DecodeGroveDBProof (encodeProof l opts @ extra) =
    (if extra = [] then Inr \<lparr>RootLayer = ofRaw l, DecreaseLimitOnEmptySubQueryResult = opts\<rparr>
     else Inl (TrailingBytes (length extra)))"
  using assms by (rule Decode_encode_rest)

definition sampleLayer :: rawLayer where
  "sampleLayer = RawLayer [1, 2] [([3], RawLayer [4] [])]"

theorem Decode_inverts_encode_witness:
  "DecodeGroveDBProof (encodeProof sampleLayer True) =
    Inr \<lparr>RootLayer = ofRaw sampleLayer, DecreaseLimitOnEmptySubQueryResult = True\<rparr>"
  using Decode_inverts_encode [of sampleLayer True "[]"]
  by (simp add: sampleLayer_def maxLayerDepth_def)

subsection \<open>Depth\<close>

fun depthProof :: "LayerProof \<Rightarrow> nat" where
  "depthProof (LayerProof m ls) = Suc (Max (insert 0 (set (map (\<lambda>(k, l). depthProof l) ls))))"

lemma depthProof_le: "depthProof (LayerProof m ls) \<le> Suc n \<longleftrightarrow> (\<forall>(k, l) \<in> set ls. depthProof l \<le> n)"
  by (auto simp: Ball_def)

lemma decode_depth:
  "decodeLayerProof lv r = Inr (l, r') \<Longrightarrow> depthProof l \<le> lv"
  "decodeLowerLayers lv n r acc = Inr (ls, r') \<Longrightarrow> \<forall>(k, l) \<in> set acc. depthProof l \<le> lv
     \<Longrightarrow> \<forall>(k, l) \<in> set ls. depthProof l \<le> lv"
proof (induction lv r and lv n r acc arbitrary: l r' and ls r' rule: decodeLayerProof_decodeLowerLayers.induct)
  case (2 levels r)
  then show ?case by (auto simp: bindR_eq_Inr depthProof_le simp del: depthProof.simps)
next
  case (4 levels i r lowerLayers)
  then obtain key r1 nested r2 where k: "byteVec r = Inr (key, r1)" and n: "decodeLayerProof levels r1 = Inr (nested, r2)"
    and rest: "decodeLowerLayers levels i r2 (putLayer (hexEncode key) nested lowerLayers) = Inr (ls, r')"
    by (auto simp: bindR_eq_Inr)
  have "depthProof nested \<le> levels" using "4.IH"(1) [OF k refl n] .
  then have "\<forall>(k, l) \<in> set (putLayer (hexEncode key) nested lowerLayers). depthProof l \<le> levels"
    using "4.prems"(2) by (auto simp: putLayer_def)
  then show ?case using "4.IH"(2) [OF k refl n refl rest] by blast
qed auto

fun layerAt :: "LayerProof \<Rightarrow> bytes list \<Rightarrow> LayerProof option" where
  "layerAt l [] = Some l"
| "layerAt l (seg # path) = Option.bind (map_of (LowerLayers l) (hexEncode seg)) (\<lambda>next. layerAt next path)"

lemma descend_layerAt: "descend i l path = Inr m \<longleftrightarrow> layerAt l path = Some m"
  by (induction i l path rule: descend.induct) (auto split: option.splits)

lemma layerAt_depth: "layerAt l path = Some m \<Longrightarrow> length path < depthProof l"
proof (induction l path rule: layerAt.induct)
  case (1 l)
  have "0 < depthProof l" by (cases l) simp
  then show ?case by simp
next
  case (2 l seg path)
  then obtain n where n: "map_of (LowerLayers l) (hexEncode seg) = Some n" "layerAt n path = Some m"
    by (auto simp: bind_eq_Some_conv)
  obtain mp ls where l: "l = LayerProof mp ls" by (cases l)
  have "(hexEncode seg, n) \<in> set ls" using n(1) l by (simp add: map_of_SomeD)
  moreover have "depthProof l \<le> Suc (depthProof l - 1)" by simp
  ultimately have "depthProof n \<le> depthProof l - 1"
    unfolding l depthProof_le by auto
  moreover have "length path < depthProof n" using "2.IH" n by auto
  ultimately show ?case by simp
qed

text \<open>
  The envelope check passes exactly when the prove options are the default, the layers
  of the whole query path are present, each under its own segment, and nothing lies below
  the path: dropping or renaming the layer of a segment is refused.
\<close>

lemma CheckEnvelope_exact:
  "CheckEnvelope (Some p) path = Inr () \<longleftrightarrow>
     DecreaseLimitOnEmptySubQueryResult p
     \<and> (\<exists>m. layerAt (RootLayer p) path = Some (LayerProof m []))"
proof -
  have "LowerLayers l = [] \<longleftrightarrow> (\<exists>m. l = LayerProof m [])" for l by (cases l) simp
  then show ?thesis
    by (auto simp: CheckEnvelope_def bindR_eq_Inr descend_layerAt)
qed

text \<open>
  A proof that decodes is at most 65 layers deep, so no envelope passes the check for a
  query path of more than 64 segments.
\<close>

lemma decoded_path_bounded:
  assumes "DecodeGroveDBProof d = Inr p" and "CheckEnvelope (Some p) path = Inr ()"
  shows "depthProof (RootLayer p) \<le> 65 \<and> length path \<le> 64"
proof -
  have deep: "depthProof (RootLayer p) \<le> 65"
  proof -
    obtain r l r' where "decodeLayerProof (maxLayerDepth + 1) r = Inr (l, r')" and "decodeOptions l r' = Inr p"
      using assms(1) by (auto simp: DecodeGroveDBProof_def bindR_eq_Inr simp del: decodeLayerProof.simps)
    then have "decodeLayerProof (maxLayerDepth + 1) r = Inr (RootLayer p, r')"
      by (cases r') (auto simp: decodeOptions_def simp del: decodeLayerProof.simps split: if_splits)
    then show ?thesis using decode_depth(1) by (fastforce simp: maxLayerDepth_def)
  qed
  obtain m where "layerAt (RootLayer p) path = Some m"
    using assms(2) by (auto simp: CheckEnvelope_def bindR_eq_Inr descend_layerAt split: if_splits)
  then show ?thesis using layerAt_depth deep by fastforce
qed

lemma decoded_path_bounded_sample: "depthProof (ofRaw sampleLayer) \<le> 65 \<and> length [[3 :: byte]] \<le> 64"
proof -
  have d: "DecodeGroveDBProof (encodeProof sampleLayer True) =
      Inr \<lparr>RootLayer = ofRaw sampleLayer, DecreaseLimitOnEmptySubQueryResult = True\<rparr>"
    using Decode_encode_rest [of sampleLayer True "[]"] by (simp add: sampleLayer_def maxLayerDepth_def)
  have "CheckEnvelope (Some \<lparr>RootLayer = ofRaw sampleLayer, DecreaseLimitOnEmptySubQueryResult = True\<rparr>) [[3]] = Inr ()"
    by code_simp
  from decoded_path_bounded [OF d this] show ?thesis by simp
qed

subsection \<open>The walk is linear\<close>








end
