(* ===== verification/EthState.thy ===== *)
theory EthState
  imports Prelude
begin

text \<open>
  Ethereum state reads (\<^verbatim>\<open>eth_state.go\<close>): the checks that an indexer's answer is about what was
  asked, the walk of its Merkle Patricia proofs, and the RLP codec under it.  Keccak-256
  (\<^verbatim>\<open>golang.org/x/crypto/sha3\<close>) and the indexer's HTTP exchange are arguments.  The theory
  shows that RLP decoding inverts encoding, that under one root and key no two proofs show
  different values unless Keccak collides on their nodes, and that a state read the walk
  accepts is the account and the slots asked for.
\<close>

subsection \<open>Bytes and nibbles\<close>

definition intsToBytes :: "int list \<Rightarrow> bytes" where
  "intsToBytes ints = map of_int ints"

definition intsToBytesSlices :: "int list list \<Rightarrow> bytes list" where
  "intsToBytesSlices s = map intsToBytes s"

definition bytesIntsToHex :: "int list \<Rightarrow> nat \<Rightarrow> string" where
  "bytesIntsToHex ints width =
     (let b = intsToBytes ints in ''0x'' @ hexEncode (replicate (width - length b) 0 @ b))"

definition trimLeadingZeros :: "bytes \<Rightarrow> bytes" where
  "trimLeadingZeros b = dropWhile (\<lambda>x. x = 0) b"

definition binaryPutUint64BE :: "u64 \<Rightarrow> bytes" where
  "binaryPutUint64BE n =
     [ucast (drop_bit 56 n), ucast (drop_bit 48 n), ucast (drop_bit 40 n), ucast (drop_bit 32 n),
      ucast (drop_bit 24 n), ucast (drop_bit 16 n), ucast (drop_bit 8 n), ucast n]"

definition uintToMinBE :: "u64 \<Rightarrow> bytes" where
  "uintToMinBE n = (if n = 0 then [] else trimLeadingZeros (binaryPutUint64BE n))"

text \<open>\<^verbatim>\<open>big.Int.Bytes\<close>: the big-endian magnitude without leading zeros.\<close>

fun bigBytes :: "nat \<Rightarrow> bytes" where
  "bigBytes n = (if n = 0 then [] else bigBytes (n div 256) @ [of_nat (n mod 256)])"

declare bigBytes.simps [simp del]

definition bytesToNibbles :: "bytes \<Rightarrow> nat list" where
  "bytesToNibbles b = concat (map (\<lambda>x. [unat (drop_bit 4 x AND 0x0f), unat (x AND 0x0f)]) b)"

definition decodeCompactPath :: "bytes \<Rightarrow> nat list \<times> bool" where
  "decodeCompactPath encoded =
     (case encoded of
        [] \<Rightarrow> ([], False)
      | first # rest \<Rightarrow>
          let flag = drop_bit 4 first AND 0x0f;
              isLeaf = flag \<ge> 2;
              odd = (flag AND 1 = 1)
          in ((if odd then [unat (first AND 0x0f)] else []) @ bytesToNibbles rest, isLeaf))"

definition nibblesEqual :: "nat list \<Rightarrow> nat list \<Rightarrow> bool" where
  "nibblesEqual a b \<longleftrightarrow> length a = length b \<and> list_all (\<lambda>i. a ! i = b ! i) [0..<length a]"

subsection \<open>RLP\<close>

datatype rlpError =
    RlpEmpty | RlpExpectedList | RlpListTruncated | RlpLengthBytes nat | RlpLengthTruncated
  | RlpTruncated u64 | RlpItemEmpty | RlpItemTruncated | RlpNestedList

definition rlpLongLength :: "bytes \<Rightarrow> nat \<Rightarrow> rlpError + nat" where
  "rlpLongLength data lenOfLen =
     (if lenOfLen < 1 \<or> lenOfLen > 8 then Inl (RlpLengthBytes lenOfLen)
      else if 1 + lenOfLen > length data then Inl RlpLengthTruncated
      else let len = foldl (\<lambda>l b. push_bit 8 l OR ucast b) (0 :: u64) (take lenOfLen (drop 1 data))
           in if len > of_nat (length data - 1 - lenOfLen) then Inl (RlpTruncated len)
              else Inr (unat len))"

definition rlpDecodeItem :: "bytes \<Rightarrow> rlpError + bytes \<times> nat" where
  "rlpDecodeItem data =
     (case data of
        [] \<Rightarrow> Inl RlpItemEmpty
      | first # _ \<Rightarrow>
          if first \<le> 0x7f then Inr (take 1 data, 1)
          else if first \<le> 0xb7 then
            (let l = unat (first - 0x80)
             in if 1 + l > length data then Inl RlpItemTruncated
                else Inr (take l (drop 1 data), 1 + l))
          else if first \<le> 0xbf then
            (let lenOfLen = unat (first - 0xb7)
             in bindR (rlpLongLength data lenOfLen) (\<lambda>l.
                  Inr (take l (drop (1 + lenOfLen) data), 1 + lenOfLen + l)))
          else Inl RlpNestedList)"

lemma rlpDecodeItem_advances: "rlpDecodeItem data = Inr (item, n) \<Longrightarrow> 0 < n \<and> data \<noteq> []"
  by (auto simp: rlpDecodeItem_def Let_def bindR_eq_Inr split: list.splits if_splits)

function rlpItems :: "bytes \<Rightarrow> rlpError + bytes list" where
  "rlpItems payload =
     (if payload = [] then Inr []
      else bindR (rlpDecodeItem payload) (\<lambda>(item, advance).
           bindR (rlpItems (drop advance payload)) (\<lambda>items. Inr (item # items))))"
  by pat_completeness auto
termination
  by (relation "measure length") (auto dest: rlpDecodeItem_advances)

declare rlpItems.simps [simp del]

definition rlpDecodeList :: "bytes \<Rightarrow> rlpError + bytes list" where
  "rlpDecodeList data =
     (case data of
        [] \<Rightarrow> Inl RlpEmpty
      | first # _ \<Rightarrow>
          if first < 0xc0 then Inl RlpExpectedList
          else if first \<le> 0xf7 then
            (let payloadLen = unat (first - 0xc0)
             in if 1 + payloadLen > length data then Inl RlpListTruncated
                else rlpItems (take payloadLen (drop 1 data)))
          else
            (let lenOfLen = unat (first - 0xf7)
             in bindR (rlpLongLength data lenOfLen) (\<lambda>payloadLen.
                  rlpItems (take payloadLen (drop (1 + lenOfLen) data)))))"

definition rlpEncodeBytes :: "bytes \<Rightarrow> bytes" where
  "rlpEncodeBytes b =
     (if length b = 1 \<and> hd b < 0x80 then [hd b]
      else if length b \<le> 55 then (0x80 + of_nat (length b)) # b
      else let lenBytes = uintToMinBE (of_nat (length b))
           in ((0xb7 + of_nat (length lenBytes)) # lenBytes) @ b)"

definition rlpEncodeList :: "bytes list \<Rightarrow> bytes" where
  "rlpEncodeList items =
     (let payload = concat items
      in if length payload \<le> 55 then (0xc0 + of_nat (length payload)) # payload
         else let lenBytes = uintToMinBE (of_nat (length payload))
              in ((0xf7 + of_nat (length lenBytes)) # lenBytes) @ payload)"

definition rlpEncodeAccount :: "u64 \<Rightarrow> nat \<Rightarrow> bytes \<Rightarrow> bytes \<Rightarrow> bytes" where
  "rlpEncodeAccount nonce balance storageHash codeHash =
     rlpEncodeList
       [rlpEncodeBytes (uintToMinBE nonce), rlpEncodeBytes (trimLeadingZeros (bigBytes balance)),
        rlpEncodeBytes storageHash, rlpEncodeBytes codeHash]"

subsection \<open>Merkle Patricia proofs\<close>

datatype mptError =
    RootLength nat | KeyLength nat | EmptyProof | NodeHashMismatch nat | NodeRlp nat rlpError
  | InlineChild nat nat | InlineExtension nat nat | NodeShape nat nat | ProofExhausted
  | ShownAbsent | ShownPresent | LeafMismatch

definition emptyTrieRoot :: "(bytes \<Rightarrow> bytes) \<Rightarrow> bytes" where
  "emptyTrieRoot keccak256 = keccak256 [0x80]"

definition emptyCodeHash :: "(bytes \<Rightarrow> bytes) \<Rightarrow> bytes" where
  "emptyCodeHash keccak256 = keccak256 []"

text \<open>
  What one decoded node says about the nibbles left of the key: the value or its absence,
  or the hash of the next node and the nibbles left after this one.
\<close>

datatype mptStep = Answer "bytes option" | Follow bytes "nat list" | Refuse mptError

definition mptNode :: "nat \<Rightarrow> bytes list \<Rightarrow> nat list \<Rightarrow> mptStep" where
  "mptNode i decoded remaining =
     (if length decoded = 17 then
        (case remaining of
           [] \<Rightarrow> Answer (if length (decoded ! 16) = 0 then None else Some (decoded ! 16))
         | nib # rest \<Rightarrow>
             let next = decoded ! nib
             in if length next = 0 then Answer None
                else if length next \<noteq> 32 then Refuse (InlineChild i (length next))
                else Follow next rest)
      else if length decoded = 2 then
        (case decodeCompactPath (decoded ! 0) of (path, isLeaf) \<Rightarrow>
           if length path > length remaining \<or> \<not> nibblesEqual path (take (length path) remaining) then Answer None
           else if isLeaf then Answer (if length path \<noteq> length remaining then None else Some (decoded ! 1))
           else if length (decoded ! 1) \<noteq> 32 then Refuse (InlineExtension i (length (decoded ! 1)))
           else Follow (decoded ! 1) (drop (length path) remaining))
      else Refuse (NodeShape i (length decoded)))"

fun mptWalk :: "(bytes \<Rightarrow> bytes) \<Rightarrow> nat \<Rightarrow> bytes \<Rightarrow> nat list \<Rightarrow> bytes list \<Rightarrow> mptError + bytes option" where
  "mptWalk keccak256 i expected remaining [] = Inl ProofExhausted"
| "mptWalk keccak256 i expected remaining (node # nodes) =
     (if keccak256 node \<noteq> expected then Inl (NodeHashMismatch i)
      else case rlpDecodeList node of
             Inl e \<Rightarrow> Inl (NodeRlp i e)
           | Inr decoded \<Rightarrow>
               (case mptNode i decoded remaining of
                  Answer v \<Rightarrow> Inr v
                | Refuse e \<Rightarrow> Inl e
                | Follow next rest \<Rightarrow> mptWalk keccak256 (i + 1) next rest nodes))"

text \<open>\<^verbatim>\<open>mptLookup\<close>: \<open>Some v\<close> is a value found, \<open>None\<close> a key shown absent.\<close>

definition mptLookup :: "(bytes \<Rightarrow> bytes) \<Rightarrow> bytes \<Rightarrow> bytes \<Rightarrow> bytes list \<Rightarrow> mptError + bytes option" where
  "mptLookup keccak256 root keyHash proofNodes =
     (if length root \<noteq> 32 then Inl (RootLength (length root))
      else if length keyHash \<noteq> 32 then Inl (KeyLength (length keyHash))
      else if proofNodes = [] \<or> proofNodes = [[0x80]] then
        (if root = emptyTrieRoot keccak256 then Inr None else Inl EmptyProof)
      else mptWalk keccak256 0 root (bytesToNibbles keyHash) proofNodes)"

definition verifyMptProof :: "(bytes \<Rightarrow> bytes) \<Rightarrow> bytes \<Rightarrow> bytes \<Rightarrow> bytes option \<Rightarrow> bytes list \<Rightarrow> mptError + unit" where
  "verifyMptProof keccak256 root keyHash expectedValue proofNodes =
     bindR (mptLookup keccak256 root keyHash proofNodes) (\<lambda>shown.
       case (shown, expectedValue) of
         (None, Some _) \<Rightarrow> Inl ShownAbsent
       | (Some _, None) \<Rightarrow> Inl ShownPresent
       | (Some v, Some e) \<Rightarrow> if v \<noteq> e then Inl LeafMismatch else Inr ()
       | (None, None) \<Rightarrow> Inr ())"

subsection \<open>The wire types and the checks of an answer\<close>

record wireAccountState =
  wNonce :: u64
  wBalance :: "int list"
  wStorageHash :: "int list"
  wCodeHash :: "int list"

record wireStorageSlot =
  sSlot :: "int list"
  sValue :: "int list"
  sProofNodes :: "int list list"

record wireStateProof =
  wAddress :: "int list"
  wBlockNumber :: u64
  wBlockHash :: "int list"
  wStateRoot :: "int list"
  wAccountProofNodes :: "int list list"
  wAccountState :: wireAccountState
  wStorageProofs :: "wireStorageSlot list"

record wireEnvelope =
  eAnswer :: string
  eStateRoot :: "int list"
  eBlockRange :: "u64 \<times> u64"
  eStateProofs :: "wireStateProof list"

datatype ethError =
    WireLength string nat nat | WireNotByte string int
  | BalanceTooLong nat | ValueTooLong nat nat
  | OtherAddress bytes bytes | OtherBlock u64 u64 | SlotCount nat nat | OtherSlot nat bytes bytes
  | AccountMpt mptError | AccountMismatch | AbsentButClaimed
  | SlotMpt nat mptError | SlotUnset nat nat | SlotSet nat | SlotLeafMismatch nat
  | NotHexSlot string | SlotHex string hexError | AddressLength nat | AddressHex hexError
  | StateProofCount nat | CallOtherBlock u64 u64 | ProofOtherBlock nat u64 u64
  | ProofOtherRoot nat | BadResult | NoContract string | NoBalanceValue | Exchange string

definition slotKey :: "string \<Rightarrow> ethError + bytes" where
  "slotKey s =
     (let digits = trimPrefix ''0X'' (trimPrefix ''0x'' s)
      in if digits = [] \<or> length digits > 64 then Inl (NotHexSlot s)
         else let digits' = (if length digits mod 2 = 1 then CHR ''0'' # digits else digits)
              in case hexDecode digits' of
                   Inl e \<Rightarrow> Inl (SlotHex s e)
                 | Inr b \<Rightarrow> Inr (replicate (32 - length b) 0 @ b))"

definition wireBytes :: "int list \<Rightarrow> nat \<Rightarrow> string \<Rightarrow> ethError + bytes" where
  "wireBytes ints n what =
     (if length ints \<noteq> n then Inl (WireLength what (length ints) n)
      else mapR (\<lambda>v. if v < 0 \<or> v > 255 then Inl (WireNotByte what v) else Inr (of_int v)) ints)"

definition checkWords :: "wireStateProof \<Rightarrow> ethError + unit" where
  "checkWords p =
     (if length (wBalance (wAccountState p)) > 32 then Inl (BalanceTooLong (length (wBalance (wAccountState p))))
      else eachR (\<lambda>(i, sp). ensureR (length (sValue sp) \<le> 32) (ValueTooLong i (length (sValue sp))))
             (enumerate 0 (wStorageProofs p)))"

definition checkSlot :: "nat \<Rightarrow> wireStorageSlot \<Rightarrow> bytes \<Rightarrow> ethError + unit" where
  "checkSlot i sp key =
     bindR (wireBytes (sSlot sp) 32 ''storage proof slot'') (\<lambda>slot.
     ensureR (slot = key) (OtherSlot i slot key))"

definition checkStateAnswer :: "wireStateProof \<Rightarrow> bytes \<Rightarrow> bytes list \<Rightarrow> u64 \<Rightarrow> ethError + unit" where
  "checkStateAnswer p address keys blockNumber =
     bindR (checkWords p) (\<lambda>_.
     bindR (wireBytes (wAddress p) 20 ''the proof's address'') (\<lambda>got.
     bindR (ensureR (got = address) (OtherAddress got address)) (\<lambda>_.
     bindR (ensureR (wBlockNumber p = blockNumber) (OtherBlock (wBlockNumber p) blockNumber)) (\<lambda>_.
     bindR (ensureR (length (wStorageProofs p) = length keys)
              (SlotCount (length (wStorageProofs p)) (length keys))) (\<lambda>_.
     eachR (\<lambda>(i, sp, key). checkSlot i sp key) (enumerate 0 (zip (wStorageProofs p) keys)))))))"

definition isZeroHash :: "bytes \<Rightarrow> bool" where
  "isZeroHash b \<longleftrightarrow> length b = 32 \<and> b = replicate 32 0"

text \<open>The account half of \<^verbatim>\<open>walkStateProof\<close>: the storage root the slots are walked from.\<close>

definition walkAccount :: "(bytes \<Rightarrow> bytes) \<Rightarrow> wireStateProof \<Rightarrow> bytes \<Rightarrow> ethError + bytes" where
  "walkAccount keccak256 proof address =
     (let st = wAccountState proof;
          nonce = wNonce st;
          balance = beVal (intsToBytes (wBalance st));
          storageHash = intsToBytes (wStorageHash st);
          codeHash = intsToBytes (wCodeHash st)
      in case mptLookup keccak256 (intsToBytes (wStateRoot proof)) (keccak256 address)
                (intsToBytesSlices (wAccountProofNodes proof)) of
           Inl e \<Rightarrow> Inl (AccountMpt e)
         | Inr (Some leaf) \<Rightarrow>
             if leaf \<noteq> rlpEncodeAccount nonce balance storageHash codeHash then Inl AccountMismatch
             else Inr storageHash
         | Inr None \<Rightarrow>
             if nonce \<noteq> 0 \<or> balance \<noteq> 0
                \<or> \<not> (storageHash = emptyTrieRoot keccak256 \<or> isZeroHash storageHash)
                \<or> \<not> (codeHash = emptyCodeHash keccak256 \<or> isZeroHash codeHash)
             then Inl AbsentButClaimed
             else Inr (emptyTrieRoot keccak256))"

definition walkSlot :: "(bytes \<Rightarrow> bytes) \<Rightarrow> bytes \<Rightarrow> nat \<Rightarrow> wireStorageSlot \<Rightarrow> ethError + unit" where
  "walkSlot keccak256 storageHash i sp =
     bindR (wireBytes (sSlot sp) 32 ''storage proof slot'') (\<lambda>slot.
       let v = beVal (intsToBytes (sValue sp))
       in case mptLookup keccak256 storageHash (keccak256 slot) (intsToBytesSlices (sProofNodes sp)) of
            Inl e \<Rightarrow> Inl (SlotMpt i e)
          | Inr None \<Rightarrow> if v \<noteq> 0 then Inl (SlotUnset i v) else Inr ()
          | Inr (Some leaf) \<Rightarrow>
              if v = 0 then Inl (SlotSet i)
              else if leaf \<noteq> rlpEncodeBytes (bigBytes v) then Inl (SlotLeafMismatch i) else Inr ())"

definition walkStateProof :: "(bytes \<Rightarrow> bytes) \<Rightarrow> wireStateProof \<Rightarrow> ethError + unit" where
  "walkStateProof keccak256 proof =
     bindR (wireBytes (wAddress proof) 20 ''the proof's address'') (\<lambda>address.
     bindR (walkAccount keccak256 proof address) (\<lambda>storageHash.
     eachR (\<lambda>(i, sp). walkSlot keccak256 storageHash i sp) (enumerate 0 (wStorageProofs proof))))"

subsection \<open>The reads\<close>

datatype EthProofMode = EthWalkProofs | EthSkipProofs

record EthStorageSlot =
  slotName :: string
  slotValue :: nat

record EthStateRead =
  rAddress :: string
  rBlockNumber :: u64
  rBlockHash :: string
  rStateRoot :: string
  rNonce :: u64
  rBalance :: nat
  rStorageHash :: string
  rCodeHash :: string
  rStorage :: "EthStorageSlot list"
  rMode :: EthProofMode

record EthCallResult =
  cBlockNumber :: u64
  cBlockHash :: string
  cStateRoot :: string
  cResult :: bytes
  cReads :: "EthStateRead list"
  cMode :: EthProofMode

definition toEthStateRead :: "wireStateProof \<Rightarrow> EthProofMode \<Rightarrow> EthStateRead" where
  "toEthStateRead p mode =
     \<lparr>rAddress = bytesIntsToHex (wAddress p) 20,
      rBlockNumber = wBlockNumber p,
      rBlockHash = bytesIntsToHex (wBlockHash p) 32,
      rStateRoot = bytesIntsToHex (wStateRoot p) 32,
      rNonce = wNonce (wAccountState p),
      rBalance = beVal (intsToBytes (wBalance (wAccountState p))),
      rStorageHash = bytesIntsToHex (wStorageHash (wAccountState p)) 32,
      rCodeHash = bytesIntsToHex (wCodeHash (wAccountState p)) 32,
      rStorage = map (\<lambda>sp. \<lparr>slotName = bytesIntsToHex (sSlot sp) 32, slotValue = beVal (intsToBytes (sValue sp))\<rparr>)
                   (wStorageProofs p),
      rMode = mode\<rparr>"

text \<open>\<^verbatim>\<open>strings.ToLower\<close> on the ASCII letters.\<close>

definition toLower :: "char \<Rightarrow> char" where
  "toLower c = (let n = of_char c :: nat in if 65 \<le> n \<and> n \<le> 90 then char_of (n + 32) else c)"

definition hexDecode20 :: "string \<Rightarrow> ethError + bytes" where
  "hexDecode20 s =
     (let t = trimPrefix ''0x'' (map toLower s)
      in if length t \<noteq> 40 then Inl (AddressLength (length t))
         else case hexDecode t of Inl e \<Rightarrow> Inl (AddressHex e) | Inr b \<Rightarrow> Inr b)"

definition mappingSlotForAddress :: "(bytes \<Rightarrow> bytes) \<Rightarrow> bytes \<Rightarrow> byte \<Rightarrow> bytes" where
  "mappingSlotForAddress keccak256 addr slotIndex =
     keccak256 (replicate 12 0 @ take 20 addr @ replicate (20 - length addr) 0 @ replicate 31 0 @ [slotIndex])"

definition GetState :: "(bytes \<Rightarrow> bytes) \<Rightarrow> (bytes \<Rightarrow> bytes list \<Rightarrow> u64 \<Rightarrow> ethError + wireEnvelope)
    \<Rightarrow> EthProofMode \<Rightarrow> string \<Rightarrow> string list \<Rightarrow> u64 \<Rightarrow> ethError + EthStateRead" where
  "GetState keccak256 post mode address slots blockNumber =
     bindR (hexDecode20 address) (\<lambda>addr.
     bindR (mapR slotKey slots) (\<lambda>keys.
     bindR (post addr keys blockNumber) (\<lambda>envelope.
       case eStateProofs envelope of
         [proof] \<Rightarrow>
           bindR (checkStateAnswer proof addr keys blockNumber) (\<lambda>_.
           bindR (if mode = EthWalkProofs then walkStateProof keccak256 proof else Inr ()) (\<lambda>_.
           Inr (toEthStateRead proof mode)))
       | _ \<Rightarrow> Inl (StateProofCount (length (eStateProofs envelope))))))"

definition checkCallProof :: "bytes \<Rightarrow> u64 \<Rightarrow> nat \<Rightarrow> wireStateProof \<Rightarrow> ethError + unit" where
  "checkCallProof stateRoot blockNumber i p =
     bindR (ensureR (wBlockNumber p = blockNumber) (ProofOtherBlock i (wBlockNumber p) blockNumber)) (\<lambda>_.
     bindR (checkWords p) (\<lambda>_.
     bindR (wireBytes (wStateRoot p) 32 ''state proof state root'') (\<lambda>root.
     ensureR (root = stateRoot) (ProofOtherRoot i))))"

text \<open>
  \<^verbatim>\<open>encoding/base64\<close>'s standard alphabet: line breaks are skipped, spare bits of the last
  group ignored, and the padded form needs its padding.
\<close>

definition b64Val :: "char \<Rightarrow> nat option" where
  "b64Val c =
     (let n = of_char c :: nat in
      if 65 \<le> n \<and> n \<le> 90 then Some (n - 65)
      else if 97 \<le> n \<and> n \<le> 122 then Some (n - 71)
      else if 48 \<le> n \<and> n \<le> 57 then Some (n + 4)
      else if c = CHR ''+'' then Some 62
      else if c = CHR ''/'' then Some 63
      else None)"

definition b64Group :: "char list \<Rightarrow> nat \<Rightarrow> bytes option" where
  "b64Group cs k =
     (if list_all (\<lambda>c. b64Val c \<noteq> None) cs
      then let v = foldl (\<lambda>a c. a * 64 + int (the (b64Val c))) 0 cs * 64 ^ (4 - length cs)
           in Some (take k [of_int (v div 65536), of_int (v div 256), of_int v])
      else None)"

fun b64Raw :: "string \<Rightarrow> bytes option" where
  "b64Raw [] = Some []"
| "b64Raw [a] = None"
| "b64Raw [a, b] = b64Group [a, b] 1"
| "b64Raw [a, b, c] = b64Group [a, b, c] 2"
| "b64Raw (a # b # c # d # s) =
     Option.bind (b64Group [a, b, c, d] 3) (\<lambda>x. Option.bind (b64Raw s) (\<lambda>y. Some (x @ y)))"

fun b64Std :: "string \<Rightarrow> bytes option" where
  "b64Std [] = Some []"
| "b64Std (a # b # c # d # s) =
     (if d = CHR ''='' then
        (if s \<noteq> [] then None
         else if c = CHR ''='' then b64Group [a, b] 1 else b64Group [a, b, c] 2)
      else Option.bind (b64Group [a, b, c, d] 3) (\<lambda>x. Option.bind (b64Std s) (\<lambda>y. Some (x @ y))))"
| "b64Std _ = None"

definition b64Strip :: "string \<Rightarrow> string" where
  "b64Strip s = filter (\<lambda>c. c \<noteq> CHR 0x0A \<and> c \<noteq> CHR 0x0D) s"

definition base64StdNoPadDecode :: "string \<Rightarrow> bytes option" where
  "base64StdNoPadDecode s =
     (if s = [] then Some []
      else case b64Raw (b64Strip s) of Some dec \<Rightarrow> Some dec | None \<Rightarrow> b64Std (b64Strip s))"

definition GetCall :: "(bytes \<Rightarrow> bytes) \<Rightarrow> ('tx \<Rightarrow> u64 \<Rightarrow> ethError + wireEnvelope)
    \<Rightarrow> EthProofMode \<Rightarrow> 'tx \<Rightarrow> u64 \<Rightarrow> ethError + EthCallResult" where
  "GetCall keccak256 post mode tx blockNumber =
     bindR (post tx blockNumber) (\<lambda>envelope.
     bindR (ensureR (fst (eBlockRange envelope) = blockNumber)
              (CallOtherBlock (fst (eBlockRange envelope)) blockNumber)) (\<lambda>_.
     bindR (wireBytes (eStateRoot envelope) 32 ''state root'') (\<lambda>stateRoot.
     bindR (eachR (\<lambda>(i, p). checkCallProof stateRoot blockNumber i p) (enumerate 0 (eStateProofs envelope))) (\<lambda>_.
     bindR (if mode = EthWalkProofs then eachR (walkStateProof keccak256) (eStateProofs envelope) else Inr ()) (\<lambda>_.
     bindR (case base64StdNoPadDecode (eAnswer envelope) of None \<Rightarrow> Inl BadResult | Some r \<Rightarrow> Inr r) (\<lambda>result.
     Inr \<lparr>cBlockNumber = fst (eBlockRange envelope),
          cBlockHash = (case eStateProofs envelope of
                          p # _ \<Rightarrow> bytesIntsToHex (wBlockHash p) 32
                        | [] \<Rightarrow> ''0x'' @ replicate 64 (CHR ''0'')),
          cStateRoot = bytesIntsToHex (eStateRoot envelope) 32,
          cResult = result,
          cReads = map (\<lambda>p. toEthStateRead p mode) (eStateProofs envelope),
          cMode = mode\<rparr>))))))"

definition Erc20Balance :: "(bytes \<Rightarrow> bytes) \<Rightarrow> (bytes \<Rightarrow> bytes list \<Rightarrow> u64 \<Rightarrow> ethError + wireEnvelope)
    \<Rightarrow> EthProofMode \<Rightarrow> string \<Rightarrow> string \<Rightarrow> byte \<Rightarrow> u64 \<Rightarrow> ethError + nat" where
  "Erc20Balance keccak256 post mode token holder balanceSlot blockNumber =
     bindR (hexDecode20 holder) (\<lambda>addr.
     bindR (GetState keccak256 post mode token
              [''0x'' @ hexEncode (mappingSlotForAddress keccak256 addr balanceSlot)] blockNumber) (\<lambda>state.
     bindR (ensureR (\<not> (rCodeHash state = ''0x'' @ hexEncode (emptyCodeHash keccak256)
                        \<or> rCodeHash state = ''0x'' @ replicate 64 (CHR ''0''))) (NoContract (rAddress state))) (\<lambda>_.
       case rStorage state of
         [slot] \<Rightarrow> Inr (slotValue slot)
       | _ \<Rightarrow> Inl NoBalanceValue)))"

subsection \<open>One root and key have one answer\<close>

lemma mptWalk_agree:
  assumes "mptWalk H i e ks ns = Inr v" and "mptWalk H j e ks ms = Inr w"
    and "inj_on H (set ns \<union> set ms)"
  shows "v = w"
  using assms
proof (induction H i e ks ns arbitrary: j ms rule: mptWalk.induct)
  case (1 H i e ks)
  then show ?case by simp
next
  case (2 H i e ks n ns)
  then obtain m ms' where ms: "ms = m # ms'" by (cases ms) auto
  have "H n = e" "H m = e" using "2.prems" ms by (auto split: if_splits)
  then have same: "n = m" using "2.prems"(3) ms by (auto dest: inj_onD)
  obtain d where d: "rlpDecodeList n = Inr d"
    using "2.prems"(1) by (auto split: if_splits sum.splits)
  have inj: "inj_on H (set ns \<union> set ms')" using "2.prems"(3) ms by (rule_tac inj_on_subset) auto
  have step: "mptNode i d ks = Answer x \<longleftrightarrow> mptNode j d ks = Answer x"
    "mptNode i d ks = Follow y z \<longleftrightarrow> mptNode j d ks = Follow y z" for x y z
    by (auto simp: mptNode_def Let_def split: list.splits prod.splits if_splits)
  show ?case
  proof (cases "mptNode i d ks")
    case (Answer x)
    moreover have "mptNode j d ks = Answer x" using Answer step by blast
    ultimately show ?thesis using "2.prems" ms same d by (simp split: if_splits)
  next
    case (Follow y z)
    have j: "mptNode j d ks = Follow y z" using Follow step by blast
    have "mptWalk H (i + 1) y z ns = Inr v" "mptWalk H (j + 1) y z ms' = Inr w"
      using "2.prems"(1,2) ms same d j Follow by (auto split: if_splits)
    then show ?thesis using "2.IH" [OF _ d Follow _ _ inj] \<open>H n = e\<close> by blast
  next
    case (Refuse x)
    then show ?thesis using "2.prems"(1) d by (simp split: if_splits)
  qed
qed

lemma mptWalk_empty_root:
  assumes "mptWalk H i (emptyTrieRoot H) ks ns = Inr v" and "inj_on H (insert [0x80] (set ns))"
  shows False
proof (cases ns)
  case (Cons n ns')
  then have "H n = H [0x80]" using assms(1) by (auto simp: emptyTrieRoot_def split: if_splits)
  then have "n = [0x80]" using inj_onD [OF assms(2), of n "[0x80]"] Cons by simp
  then show ?thesis using assms(1) Cons by (simp add: rlpDecodeList_def split: if_splits)
qed (use assms in simp)

lemma mptLookup_unique:
  assumes "mptLookup keccak256 root key ns = Inr v" and "mptLookup keccak256 root key ms = Inr w"
    and "inj_on keccak256 (insert [0x80] (set ns \<union> set ms))"
  shows "v = w"
proof -
  have sub: "inj_on keccak256 (set ns \<union> set ms)" "inj_on keccak256 (insert [0x80] (set ns))"
    "inj_on keccak256 (insert [0x80] (set ms))"
    using assms(3) by (auto elim: inj_on_subset)
  have len: "length root = 32" "length key = 32" using assms(1) by (auto simp: mptLookup_def split: if_splits)
  let ?triv = "\<lambda>xs :: bytes list. xs = [] \<or> xs = [[0x80]]"
  have lookup: "mptLookup keccak256 root key xs =
      (if ?triv xs then if root = emptyTrieRoot keccak256 then Inr None else Inl EmptyProof
       else mptWalk keccak256 0 root (bytesToNibbles key) xs)" for xs
    using len by (simp add: mptLookup_def)
  consider "?triv ns" "?triv ms" | "?triv ns" "\<not> ?triv ms" | "\<not> ?triv ns" "?triv ms" | "\<not> ?triv ns" "\<not> ?triv ms"
    by blast
  then show ?thesis
  proof cases
    case 1
    then show ?thesis using assms(1,2) unfolding lookup by (simp split: if_splits)
  next
    case 2
    then have "root = emptyTrieRoot keccak256" using assms(1) unfolding lookup by (simp split: if_splits)
    then show ?thesis using 2 assms(2) mptWalk_empty_root [OF _ sub(3)] unfolding lookup by metis
  next
    case 3
    then have "root = emptyTrieRoot keccak256" using assms(2) unfolding lookup by (simp split: if_splits)
    then show ?thesis using 3 assms(1) mptWalk_empty_root [OF _ sub(2)] unfolding lookup by metis
  next
    case 4
    then show ?thesis using assms(1,2) mptWalk_agree [OF _ _ sub(1)] unfolding lookup by metis
  qed
qed

definition sampleKeccak :: "bytes \<Rightarrow> bytes" where
  "sampleKeccak m = (if m = [0x80] then replicate 32 0 else replicate 32 1)"

definition sampleLeaf :: bytes where
  "sampleLeaf = 0xe3 # 0xa1 # 0x20 # replicate 32 5 @ [1]"

lemma sample_lookup:
  "mptLookup sampleKeccak (replicate 32 1) (replicate 32 5) [sampleLeaf] = Inr (Some [1])"
  "mptLookup sampleKeccak (replicate 32 1) (replicate 32 5) [sampleLeaf, [0xc0]] = Inr (Some [1])"
  by code_simp+

subsection \<open>RLP round trips\<close>

lemma push_or_byte: "push_bit 8 l OR ucast b = l * 256 + ucast b" for l :: u64 and b :: byte
proof -
  have "push_bit 8 l + ucast b = push_bit 8 l OR ucast b"
    by (rule disjunctive_add) (auto simp: bit_simps dest: bit_imp_le_length)
  then show ?thesis by (simp add: push_bit_eq_mult)
qed

lemma foldl_length: "foldl (\<lambda>l b. push_bit 8 l OR ucast b) (0 :: u64) bs = of_nat (beVal bs)" for bs :: bytes
  by (induction bs rule: rev_induct) (simp_all add: push_or_byte)

lemma beBytes_digits: "beBytes k n = map (\<lambda>i. of_nat (n div 256 ^ i mod 256)) (rev [0..<k])"
proof (induction k arbitrary: n)
  case 0
  then show ?case by simp
next
  case (Suc k)
  have "rev [0..<Suc k] = map Suc (rev [0..<k]) @ [0]"
    by (simp add: upt_conv_Cons map_Suc_upt [symmetric] rev_map del: upt_Suc)
  then show ?case using Suc by (simp add: div_mult2_eq)
qed

lemma put_byte: "(ucast (drop_bit k n) :: byte) = of_nat (unat n div 2 ^ k mod 256)" for n :: u64
  by (rule bit_word_eqI) (auto simp: bit_simps take_bit_eq_mod [of 8, symmetric, simplified] drop_bit_eq_div [symmetric]
      bit_take_bit_iff simp flip: of_nat_take_bit)

lemma binaryPut_be: "binaryPutUint64BE n = beBytes 8 (unat n)"
proof -
  have "rev [0..<8] = [7, 6, 5, 4, 3, 2, 1, 0 :: nat]" by code_simp
  then show ?thesis
    using put_byte [of 0 n] by (simp add: binaryPutUint64BE_def put_byte beBytes_digits)
qed

lemma beVal_trim: "beVal (trimLeadingZeros b) = beVal b"
  by (induction b) (simp_all add: trimLeadingZeros_def beVal_def)

lemma uintToMinBE_props:
  "beVal (uintToMinBE n) = unat n" "length (uintToMinBE n) \<le> 8" "n \<noteq> 0 \<Longrightarrow> uintToMinBE n \<noteq> []"
proof -
  have n8: "unat n < 256 ^ 8" using unsigned_less [of n] by simp
  have v: "beVal (uintToMinBE n) = unat n"
    using beVal_beBytes [OF n8] by (simp add: uintToMinBE_def binaryPut_be beVal_trim)
  then show "beVal (uintToMinBE n) = unat n" .
  show "length (uintToMinBE n) \<le> 8"
    using length_dropWhile_le [of "\<lambda>x. x = 0" "beBytes 8 (unat n)"]
    by (simp add: uintToMinBE_def binaryPut_be trimLeadingZeros_def)
  show "uintToMinBE n \<noteq> []" if "n \<noteq> 0"
  proof
    assume "uintToMinBE n = []"
    then have "unat n = 0" using v by simp
    then show False using that by (simp add: unat_eq_0)
  qed
qed

lemma of_nat_u64_pos: "0 < n \<Longrightarrow> n < 2 ^ 60 \<Longrightarrow> (of_nat n :: u64) \<noteq> 0"
  using nat_dvd_not_less [of n "2 ^ 64"] by (auto simp: word_of_nat_eq_0_iff)

lemma rlpLongLength_enc:
  assumes "0 < len" and "len \<le> length r" and "length r < 2 ^ 60"
  shows "rlpLongLength (c # uintToMinBE (of_nat len) @ r) (length (uintToMinBE (of_nat len))) = Inr len"
proof -
  let ?lb = "uintToMinBE (of_nat len)"
  have len64: "unat (of_nat len :: u64) = len" using assms by (simp add: unat_of_nat)
  have ne: "(of_nat len :: u64) \<noteq> 0" using assms by (intro of_nat_u64_pos) simp_all
  have b: "1 \<le> length ?lb" "length ?lb \<le> 8"
    using uintToMinBE_props(3) [OF ne] uintToMinBE_props(2) by (auto simp: Suc_le_eq)
  have val: "foldl (\<lambda>l b. push_bit 8 l OR ucast b) (0 :: u64) ?lb = of_nat len"
    unfolding foldl_length uintToMinBE_props(1) len64 by (rule refl)
  have "\<not> (of_nat len :: u64) > of_nat (length r)"
    using assms by (simp add: word_less_nat_alt unat_of_nat)
  then show ?thesis
    using b val len64 uintToMinBE_props(3) [OF ne] by (simp add: rlpLongLength_def Let_def)
qed

lemma code_byte:
  "n \<le> 55 \<Longrightarrow> unat (0x80 + of_nat n :: byte) = 0x80 + n" "n \<le> 55 \<Longrightarrow> unat (0xc0 + of_nat n :: byte) = 0xc0 + n"
  "n \<le> 8 \<Longrightarrow> unat (0xb7 + of_nat n :: byte) = 0xb7 + n" "n \<le> 8 \<Longrightarrow> unat (0xf7 + of_nat n :: byte) = 0xf7 + n"
  by (simp_all add: unat_word_ariths unat_of_nat)

lemma unat_offsets:
  "unat ((k + of_nat n :: byte) - k) = n" if "n < 256" for n
  using that by (simp add: unat_of_nat)

lemma rlpDecodeItem_enc:
  assumes "length b + length r < 2 ^ 60"
  shows "rlpDecodeItem (rlpEncodeBytes b @ r) = Inr (b, length (rlpEncodeBytes b))"
proof -
  consider (one) "length b = 1" "hd b < 0x80" | (short) "\<not> (length b = 1 \<and> hd b < 0x80)" "length b \<le> 55"
    | (long) "length b > 55" by linarith
  then show ?thesis
  proof cases
    case one
    then obtain x where x: "b = [x]" "x < 0x80" by (cases b) auto
    then have "x \<le> 0x7f" by (simp add: word_less_nat_alt word_le_nat_alt)
    then show ?thesis using x by (simp add: rlpEncodeBytes_def rlpDecodeItem_def)
  next
    case short
    let ?c = "0x80 + of_nat (length b) :: byte"
    have "\<not> ?c \<le> 0x7f" "?c \<le> 0xb7" using code_byte(1) [OF short(2)] short(2) by (simp_all add: word_le_nat_alt)
    moreover have "unat (?c - 0x80) = length b" using unat_offsets [of "length b" "0x80"] short(2) by simp
    moreover have "rlpEncodeBytes b = ?c # b" using short by (auto simp: rlpEncodeBytes_def)
    ultimately show ?thesis by (simp add: rlpDecodeItem_def Let_def)
  next
    case long
    let ?lb = "uintToMinBE (of_nat (length b))"
    let ?c = "0xb7 + of_nat (length ?lb) :: byte"
    have n8: "length ?lb \<le> 8" by (rule uintToMinBE_props(2))
    have "(of_nat (length b) :: u64) \<noteq> 0" using long assms by (intro of_nat_u64_pos) auto
    then have lb: "?lb \<noteq> []" by (rule uintToMinBE_props(3))
    then have n1: "1 \<le> length ?lb" by (simp add: Suc_le_eq)
    have c: "\<not> ?c \<le> 0x7f" "\<not> ?c \<le> 0xb7" "?c \<le> 0xbf"
      using code_byte(3) [OF n8] n1 n8 lb by (simp_all add: word_le_nat_alt)
    have "unat (?c - 0xb7) = length ?lb" using unat_offsets [of "length ?lb" "0xb7"] n8 by simp
    moreover have "rlpLongLength (?c # ?lb @ b @ r) (length ?lb) = Inr (length b)"
      using long assms by (intro rlpLongLength_enc) auto
    moreover have "rlpEncodeBytes b = ?c # ?lb @ b" using long by (auto simp: rlpEncodeBytes_def Let_def)
    ultimately show ?thesis using c by (simp add: rlpDecodeItem_def Let_def)
  qed
qed

lemma rlpItems_enc:
  "length (concat (map rlpEncodeBytes items)) < 2 ^ 60 \<Longrightarrow> rlpItems (concat (map rlpEncodeBytes items)) = Inr items"
proof (induction items)
  case Nil
  then show ?case by (simp add: rlpItems.simps)
next
  case (Cons b items)
  let ?r = "concat (map rlpEncodeBytes items)"
  have le: "length b \<le> length (rlpEncodeBytes b)" by (simp add: rlpEncodeBytes_def Let_def)
  have item: "rlpDecodeItem (rlpEncodeBytes b @ ?r) = Inr (b, length (rlpEncodeBytes b))"
    using Cons.prems le by (intro rlpDecodeItem_enc) simp
  then have ne: "rlpEncodeBytes b @ ?r \<noteq> []" using rlpDecodeItem_advances by blast
  have "rlpItems ?r = Inr items" using Cons by simp
  then show ?case using item ne by (subst rlpItems.simps) simp
qed

lemma rlpDecodeList_enc:
  assumes "length (concat (map rlpEncodeBytes items)) < 2 ^ 60"
  shows "rlpDecodeList (rlpEncodeList (map rlpEncodeBytes items)) = Inr items"
proof -
  let ?p = "concat (map rlpEncodeBytes items)"
  show ?thesis
  proof (cases "length ?p \<le> 55")
    case True
    let ?c = "0xc0 + of_nat (length ?p) :: byte"
    have "\<not> ?c < 0xc0" "?c \<le> 0xf7"
      using code_byte(2) [OF True] True by (simp_all add: word_le_nat_alt word_less_nat_alt)
    moreover have "unat (?c - 0xc0) = length ?p" using unat_offsets [of "length ?p" "0xc0"] True by simp
    moreover have "rlpEncodeList (map rlpEncodeBytes items) = ?c # ?p" using True by (simp add: rlpEncodeList_def Let_def)
    ultimately show ?thesis using rlpItems_enc [OF assms] by (simp add: rlpDecodeList_def Let_def)
  next
    case False
    let ?lb = "uintToMinBE (of_nat (length ?p))"
    let ?c = "0xf7 + of_nat (length ?lb) :: byte"
    have n8: "length ?lb \<le> 8" by (rule uintToMinBE_props(2))
    have "(of_nat (length ?p) :: u64) \<noteq> 0" by (rule of_nat_u64_pos) (use False assms in linarith)+
    then have lb: "?lb \<noteq> []" by (rule uintToMinBE_props(3))
    then have n1: "1 \<le> length ?lb" by (simp add: Suc_le_eq)
    have "\<not> ?c < 0xc0" "\<not> ?c \<le> 0xf7"
      using code_byte(4) [OF n8] n1 n8 lb by (simp_all add: word_le_nat_alt word_less_nat_alt)
    moreover have "unat (?c - 0xf7) = length ?lb" using unat_offsets [of "length ?lb" "0xf7"] n8 by simp
    moreover have "rlpLongLength (?c # ?lb @ ?p) (length ?lb) = Inr (length ?p)"
      by (rule rlpLongLength_enc) (use False assms in linarith)+
    moreover have "rlpEncodeList (map rlpEncodeBytes items) = ?c # ?lb @ ?p"
      using False by (simp add: rlpEncodeList_def Let_def)
    ultimately show ?thesis using rlpItems_enc [OF assms] by (simp add: rlpDecodeList_def Let_def)
  qed
qed

subsection \<open>The account leaf binds the account\<close>

lemma beVal_bigBytes: "beVal (bigBytes n) = n"
proof (induction n rule: bigBytes.induct)
  case (1 n)
  then show ?case by (subst bigBytes.simps) simp
qed

lemma uintToMinBE_inj: "uintToMinBE m = uintToMinBE n \<longleftrightarrow> m = n"
  by (metis uintToMinBE_props(1) unsigned_word_eqI)

lemma trim_big_inj: "trimLeadingZeros (bigBytes m) = trimLeadingZeros (bigBytes n) \<longleftrightarrow> m = n"
  by (metis beVal_trim beVal_bigBytes)

lemma rlpEncodeList_inj:
  assumes "rlpEncodeList (map rlpEncodeBytes xs) = rlpEncodeList (map rlpEncodeBytes ys)"
    and "length (concat (map rlpEncodeBytes xs)) < 2 ^ 60" and "length (concat (map rlpEncodeBytes ys)) < 2 ^ 60"
  shows "xs = ys"
proof -
  have "Inr xs = rlpDecodeList (rlpEncodeList (map rlpEncodeBytes xs))"
    by (rule rlpDecodeList_enc [OF assms(2), symmetric])
  also have "\<dots> = Inr ys" unfolding assms(1) by (rule rlpDecodeList_enc [OF assms(3)])
  finally show ?thesis by simp
qed

lemma length_rlpEncodeBytes: "length (rlpEncodeBytes b) \<le> length b + 9"
proof -
  consider "length b = 1 \<and> hd b < 0x80" | "\<not> (length b = 1 \<and> hd b < 0x80)" "length b \<le> 55" | "length b > 55"
    by linarith
  then show ?thesis
    using uintToMinBE_props(2) [of "of_nat (length b)"] by cases (auto simp: rlpEncodeBytes_def Let_def)
qed

lemma length_bigBytes: "n < 256 ^ k \<Longrightarrow> length (bigBytes n) \<le> k"
proof (induction n arbitrary: k rule: bigBytes.induct)
  case (1 n)
  show ?case
  proof (cases "n = 0")
    case True
    then show ?thesis by (simp add: bigBytes.simps)
  next
    case False
    then obtain j where j: "k = Suc j" using "1.prems" by (cases k) auto
    then have "n div 256 < 256 ^ j" using "1.prems" by (simp add: less_mult_imp_div_less mult.commute)
    then have "length (bigBytes (n div 256)) \<le> j" using "1.IH" False by blast
    then show ?thesis using False j by (subst bigBytes.simps) simp
  qed
qed

lemma account_leaf_inj:
  assumes "rlpEncodeAccount n b s c = rlpEncodeAccount n' b' s' c'" and "b < 2 ^ 256" and "b' < 2 ^ 256"
    and "length s < 2 ^ 50" and "length c < 2 ^ 50" and "length s' < 2 ^ 50" and "length c' < 2 ^ 50"
  shows "n = n' \<and> b = b' \<and> s = s' \<and> c = c'"
proof -
  let ?f = "\<lambda>n b s c. [uintToMinBE n, trimLeadingZeros (bigBytes b), s, c]"
  have fits: "length (concat (map rlpEncodeBytes (?f n b s c))) < 2 ^ 60"
    if "b < 2 ^ 256" "length s < 2 ^ 50" "length c < 2 ^ 50" for n :: u64 and b s c
  proof -
    have "length (trimLeadingZeros (bigBytes b)) \<le> 32"
      using length_dropWhile_le [of "\<lambda>x. x = 0" "bigBytes b"] length_bigBytes [of b 32] that(1)
      by (simp add: trimLeadingZeros_def)
    then show ?thesis
      using that length_rlpEncodeBytes [of "uintToMinBE n"] length_rlpEncodeBytes [of "trimLeadingZeros (bigBytes b)"]
        length_rlpEncodeBytes [of s] length_rlpEncodeBytes [of c] uintToMinBE_props(2) [of n]
      by simp
  qed
  have "?f n b s c = ?f n' b' s' c'"
    using assms by (intro rlpEncodeList_inj fits) (simp_all add: rlpEncodeAccount_def)
  then show ?thesis by (simp add: uintToMinBE_inj trim_big_inj)
qed

definition accountNodes :: "wireStateProof \<Rightarrow> bytes set" where
  "accountNodes p = set (intsToBytesSlices (wAccountProofNodes p))"

definition slotNodes :: "wireStorageSlot \<Rightarrow> bytes set" where
  "slotNodes sp = set (intsToBytesSlices (sProofNodes sp))"

definition proofNodes :: "wireStateProof \<Rightarrow> bytes set" where
  "proofNodes p = accountNodes p \<union> (\<Union>sp \<in> set (wStorageProofs p). slotNodes sp)"

definition balanceOf :: "wireStateProof \<Rightarrow> nat" where
  "balanceOf p = beVal (intsToBytes (wBalance (wAccountState p)))"

definition valueOf :: "wireStorageSlot \<Rightarrow> nat" where
  "valueOf sp = beVal (intsToBytes (sValue sp))"

text \<open>The storage and code hashes are short enough to be lengths RLP encodes.\<close>

definition hashesFit :: "wireStateProof \<Rightarrow> bool" where
  "hashesFit p \<longleftrightarrow> length (wStorageHash (wAccountState p)) < 2 ^ 50 \<and> length (wCodeHash (wAccountState p)) < 2 ^ 50"

lemma beVal_word: "length ints \<le> 32 \<Longrightarrow> beVal (intsToBytes ints) < 2 ^ 256"
proof -
  assume "length ints \<le> 32"
  then have "(256 :: nat) ^ length (intsToBytes ints) \<le> 256 ^ 32"
    by (intro power_increasing) (simp_all add: intsToBytes_def)
  then have "beVal (intsToBytes ints) < 256 ^ 32" using beVal_bound [of "intsToBytes ints"] by linarith
  then show ?thesis by simp
qed

lemma snd_enumerate: "x \<in> set xs \<Longrightarrow> \<exists>i. (i, x) \<in> set (enumerate n xs)"
  by (metis in_set_conv_nth in_set_enumerate_eq length_enumerate nth_enumerate_eq nth_mem)

lemma checkWords_bounds:
  assumes "checkWords p = Inr ()"
  shows "balanceOf p < 2 ^ 256" and "sp \<in> set (wStorageProofs p) \<Longrightarrow> valueOf sp < 2 ^ 256"
proof -
  show "balanceOf p < 2 ^ 256"
    using assms beVal_word by (auto simp: checkWords_def balanceOf_def split: if_splits)
  show "valueOf sp < 2 ^ 256" if "sp \<in> set (wStorageProofs p)"
    using assms beVal_word snd_enumerate [OF that, of 0]
    by (auto simp: checkWords_def valueOf_def eachR_eq_Inr ensureR_eq_Inr split: if_splits)
qed

lemma walkAccount_Inr:
  assumes "walkAccount H p a = Inr r"
  obtains (present) "mptLookup H (intsToBytes (wStateRoot p)) (H a) (intsToBytesSlices (wAccountProofNodes p))
      = Inr (Some (rlpEncodeAccount (wNonce (wAccountState p)) (balanceOf p)
          (intsToBytes (wStorageHash (wAccountState p))) (intsToBytes (wCodeHash (wAccountState p)))))"
      "r = intsToBytes (wStorageHash (wAccountState p))"
  | (absent) "mptLookup H (intsToBytes (wStateRoot p)) (H a) (intsToBytesSlices (wAccountProofNodes p)) = Inr None"
      "wNonce (wAccountState p) = 0" "balanceOf p = 0" "r = emptyTrieRoot H"
proof (cases "mptLookup H (intsToBytes (wStateRoot p)) (H a) (intsToBytesSlices (wAccountProofNodes p))")
  case (Inl e)
  then show thesis using assms by (simp add: walkAccount_def)
next
  case (Inr v)
  then show thesis
    using assms that by (cases v) (simp_all add: walkAccount_def balanceOf_def Let_def split: if_splits)
qed

lemma walkAccount_agree:
  assumes p: "walkAccount H p a = Inr r" and q: "walkAccount H q a = Inr s"
    and root: "intsToBytes (wStateRoot p) = intsToBytes (wStateRoot q)"
    and inj: "inj_on H (insert [0x80] (accountNodes p \<union> accountNodes q))"
    and words: "checkWords p = Inr ()" "checkWords q = Inr ()" and fit: "hashesFit p" "hashesFit q"
  shows "r = s \<and> wNonce (wAccountState p) = wNonce (wAccountState q) \<and> balanceOf p = balanceOf q"
proof -
  note same = mptLookup_unique [OF _ _ inj [unfolded accountNodes_def], of "intsToBytes (wStateRoot q)" "H a"]
  show ?thesis
    using p
  proof (cases rule: walkAccount_Inr)
    case present
    note P = present
    show ?thesis
      using q
    proof (cases rule: walkAccount_Inr)
      case present
      have "rlpEncodeAccount (wNonce (wAccountState p)) (balanceOf p) r (intsToBytes (wCodeHash (wAccountState p)))
          = rlpEncodeAccount (wNonce (wAccountState q)) (balanceOf q) s (intsToBytes (wCodeHash (wAccountState q)))"
        using same [OF P(1) [unfolded root] present(1)] P(2) present(2) by simp
      from account_leaf_inj [OF this checkWords_bounds(1) [OF words(1)] checkWords_bounds(1) [OF words(2)]]
      show ?thesis using fit P(2) present(2) by (simp add: hashesFit_def intsToBytes_def)
    next
      case absent
      then show ?thesis using same [OF P(1) [unfolded root] absent(1)] by simp
    qed
  next
    case absent
    note P = absent
    show ?thesis
      using q
    proof (cases rule: walkAccount_Inr)
      case present
      then show ?thesis using same [OF P(1) [unfolded root] present(1)] by simp
    next
      case absent
      then show ?thesis using P by simp
    qed
  qed
qed

lemma rlpEncode_big_inj:
  assumes "rlpEncodeBytes (bigBytes m) = rlpEncodeBytes (bigBytes n)" and "m < 2 ^ 256" and "n < 2 ^ 256"
  shows "m = n"
proof -
  have short: "length (bigBytes k) + length ([] :: bytes) < 2 ^ 60" if "k < 2 ^ 256" for k
    using length_bigBytes [of k 32] that by simp
  have "Inr (bigBytes m, length (rlpEncodeBytes (bigBytes m))) = rlpDecodeItem (rlpEncodeBytes (bigBytes m) @ [])"
    by (rule rlpDecodeItem_enc [OF short [OF assms(2)], symmetric])
  also have "\<dots> = Inr (bigBytes n, length (rlpEncodeBytes (bigBytes n)))"
    unfolding assms(1) by (rule rlpDecodeItem_enc [OF short [OF assms(3)]])
  finally have "bigBytes m = bigBytes n" by simp
  then show ?thesis by (metis beVal_bigBytes)
qed

lemma walkSlot_Inr:
  assumes "walkSlot H root i sp = Inr ()"
  obtains k where "wireBytes (sSlot sp) 32 ''storage proof slot'' = Inr k"
    and "mptLookup H root (H k) (intsToBytesSlices (sProofNodes sp))
      = Inr (if valueOf sp = 0 then None else Some (rlpEncodeBytes (bigBytes (valueOf sp))))"
proof -
  obtain k where k: "wireBytes (sSlot sp) 32 ''storage proof slot'' = Inr k"
    using assms by (auto simp: walkSlot_def bindR_eq_Inr)
  show thesis
  proof (cases "mptLookup H root (H k) (intsToBytesSlices (sProofNodes sp))")
    case (Inl e)
    then show thesis using assms k by (simp add: walkSlot_def Let_def)
  next
    case (Inr v)
    then show thesis
      using assms k that [OF k] by (cases v) (simp_all add: walkSlot_def valueOf_def Let_def split: if_splits)
  qed
qed

lemma walkSlot_agree:
  assumes "walkSlot H root i x = Inr ()" and "walkSlot H root j y = Inr ()" and "sSlot x = sSlot y"
    and "inj_on H (insert [0x80] (slotNodes x \<union> slotNodes y))" and "valueOf x < 2 ^ 256" and "valueOf y < 2 ^ 256"
  shows "valueOf x = valueOf y"
proof -
  obtain k where k: "wireBytes (sSlot x) 32 ''storage proof slot'' = Inr k"
    and x: "mptLookup H root (H k) (intsToBytesSlices (sProofNodes x))
      = Inr (if valueOf x = 0 then None else Some (rlpEncodeBytes (bigBytes (valueOf x))))"
    using walkSlot_Inr [OF assms(1)] .
  have y: "mptLookup H root (H k) (intsToBytesSlices (sProofNodes y))
      = Inr (if valueOf y = 0 then None else Some (rlpEncodeBytes (bigBytes (valueOf y))))"
    using walkSlot_Inr [OF assms(2)] k assms(3) by (metis sum.inject(2))
  show ?thesis
    using mptLookup_unique [OF x y] assms(4-6) rlpEncode_big_inj [of "valueOf x" "valueOf y"]
    by (auto simp: slotNodes_def split: if_splits)
qed

lemma wireBytes_Inr:
  "wireBytes ints n what = Inr b \<longleftrightarrow> length ints = n \<and> (\<forall>v \<in> set ints. 0 \<le> v \<and> v \<le> 255) \<and> b = intsToBytes ints"
proof -
  have "mapR (\<lambda>v. if v < 0 \<or> v > 255 then Inl (WireNotByte what v) else Inr (of_int v)) ints = Inr b
      \<longleftrightarrow> (\<forall>v \<in> set ints. 0 \<le> v \<and> v \<le> 255) \<and> b = intsToBytes ints" for ints and b :: bytes
    by (induction ints arbitrary: b) (auto simp: intsToBytes_def bindR_eq_Inr)
  then show ?thesis by (simp add: wireBytes_def)
qed

lemma walkStateProof_Inr:
  assumes "walkStateProof H p = Inr ()"
  obtains r where "walkAccount H p (intsToBytes (wAddress p)) = Inr r"
    and "\<And>sp. sp \<in> set (wStorageProofs p) \<Longrightarrow> \<exists>i. walkSlot H r i sp = Inr ()"
  using assms that snd_enumerate [of _ "wStorageProofs p" 0]
  by (auto simp: walkStateProof_def bindR_eq_Inr wireBytes_Inr eachR_eq_Inr) fastforce

text \<open>
  C12: two state proofs of one address that walk against one state root claim the same
  nonce and balance, and the same value for every slot both carry, unless Keccak-256
  collides on the nodes of their proofs (balances and values being at most 32 bytes, as the
  checks before the walk require): under one root an indexer has one answer to give.
\<close>

theorem walkStateProof_unique:
  assumes "walkStateProof keccak256 p = Inr ()" and "walkStateProof keccak256 q = Inr ()"
    and "intsToBytes (wStateRoot p) = intsToBytes (wStateRoot q)" and "wAddress p = wAddress q"
    and "inj_on keccak256 (insert [0x80] (proofNodes p \<union> proofNodes q))"
    and "checkWords p = Inr ()" and "checkWords q = Inr ()" and "hashesFit p" and "hashesFit q"
  shows "wNonce (wAccountState p) = wNonce (wAccountState q) \<and> balanceOf p = balanceOf q
    \<and> (\<forall>x \<in> set (wStorageProofs p). \<forall>y \<in> set (wStorageProofs q). sSlot x = sSlot y \<longrightarrow> valueOf x = valueOf y)"
proof -
  obtain r where r: "walkAccount keccak256 p (intsToBytes (wAddress p)) = Inr r"
    and rs: "\<And>sp. sp \<in> set (wStorageProofs p) \<Longrightarrow> \<exists>i. walkSlot keccak256 r i sp = Inr ()"
    using walkStateProof_Inr [OF assms(1)] by metis
  obtain s where s: "walkAccount keccak256 q (intsToBytes (wAddress p)) = Inr s"
    and ss: "\<And>sp. sp \<in> set (wStorageProofs q) \<Longrightarrow> \<exists>i. walkSlot keccak256 s i sp = Inr ()"
    using walkStateProof_Inr [OF assms(2)] assms(4) by metis
  have "inj_on keccak256 (insert [0x80] (accountNodes p \<union> accountNodes q))"
    using assms(5) by (rule inj_on_subset) (auto simp: proofNodes_def)
  from walkAccount_agree [OF r s assms(3) this assms(6-9)]
  have acct: "r = s" "wNonce (wAccountState p) = wNonce (wAccountState q)" "balanceOf p = balanceOf q" by auto
  have "valueOf x = valueOf y"
    if x: "x \<in> set (wStorageProofs p)" and y: "y \<in> set (wStorageProofs q)" and eq: "sSlot x = sSlot y" for x y
  proof -
    obtain i j where w: "walkSlot keccak256 r i x = Inr ()" "walkSlot keccak256 r j y = Inr ()"
      using rs [OF x] ss [OF y] acct(1) by blast
    have inj: "inj_on keccak256 (insert [0x80] (slotNodes x \<union> slotNodes y))"
      using assms(5) by (rule inj_on_subset) (use x y in \<open>auto simp: proofNodes_def\<close>)
    show ?thesis
      by (rule walkSlot_agree [OF w eq inj checkWords_bounds(2) [OF assms(6) x] checkWords_bounds(2) [OF assms(7) y]])
  qed
  then show ?thesis using acct by blast
qed

text \<open>A proof of an absent account with one zero slot, under the empty trie's root.\<close>

definition absentProof :: wireStateProof where
  "absentProof =
     \<lparr>wAddress = replicate 20 7, wBlockNumber = 1, wBlockHash = replicate 32 0, wStateRoot = replicate 32 0,
      wAccountProofNodes = [],
      wAccountState = \<lparr>wNonce = 0, wBalance = [], wStorageHash = replicate 32 0, wCodeHash = replicate 32 0\<rparr>,
      wStorageProofs = [\<lparr>sSlot = replicate 32 0, sValue = [0], sProofNodes = [[0x80]]\<rparr>]\<rparr>"

lemma absent_walks: "walkStateProof sampleKeccak absentProof = Inr ()" "checkWords absentProof = Inr ()"
  by code_simp+

theorem walkStateProof_unique_witness: "balanceOf absentProof = balanceOf absentProof \<and> wNonce (wAccountState absentProof) = 0"
proof -
  have nodes: "proofNodes absentProof = {[0x80]}"
    by (simp add: proofNodes_def accountNodes_def slotNodes_def absentProof_def intsToBytesSlices_def intsToBytes_def)
  have "inj_on sampleKeccak (insert [0x80] (proofNodes absentProof \<union> proofNodes absentProof))"
    unfolding nodes by simp
  moreover have "hashesFit absentProof" by (simp add: hashesFit_def absentProof_def)
  ultimately show ?thesis
    using walkStateProof_unique [OF absent_walks(1) absent_walks(1) refl refl _ absent_walks(2) absent_walks(2)]
    by (simp add: absentProof_def)
qed

text \<open>
  C13: in every mode a state read is about what was asked: it is refused unless the one
  state proof of the answer is for the address, the block and exactly the slots requested,
  in order, with no balance or value over 32 bytes.
\<close>

theorem GetState_about_request:
  assumes "GetState keccak256 post mode address slots blockNumber = Inr r"
  shows "\<exists>addr keys env p. hexDecode20 address = Inr addr \<and> mapR slotKey slots = Inr keys
    \<and> post addr keys blockNumber = Inr env \<and> eStateProofs env = [p] \<and> r = toEthStateRead p mode
    \<and> intsToBytes (wAddress p) = addr \<and> wBlockNumber p = blockNumber
    \<and> map (\<lambda>sp. intsToBytes (sSlot sp)) (wStorageProofs p) = keys
    \<and> balanceOf p < 2 ^ 256 \<and> (\<forall>sp \<in> set (wStorageProofs p). valueOf sp < 2 ^ 256)
    \<and> (mode = EthWalkProofs \<longrightarrow> walkStateProof keccak256 p = Inr ())"
proof -
  obtain addr keys env where a: "hexDecode20 address = Inr addr" and k: "mapR slotKey slots = Inr keys"
    and e: "post addr keys blockNumber = Inr env"
    using assms by (auto simp: GetState_def bindR_eq_Inr)
  obtain p where p: "eStateProofs env = [p]"
    using assms a k e by (auto simp: GetState_def split: list.splits)
  have chk: "checkStateAnswer p addr keys blockNumber = Inr ()" and r: "r = toEthStateRead p mode"
    and walk: "mode = EthWalkProofs \<longrightarrow> walkStateProof keccak256 p = Inr ()"
    using assms a k e p by (auto simp: GetState_def bindR_eq_Inr split: if_splits)
  have c: "checkWords p = Inr ()" "intsToBytes (wAddress p) = addr" "wBlockNumber p = blockNumber"
    "length (wStorageProofs p) = length keys"
    and each: "\<forall>x \<in> set (enumerate 0 (zip (wStorageProofs p) keys)). (case x of (i, sp, key) \<Rightarrow> checkSlot i sp key) = Inr ()"
    using chk by (auto simp: checkStateAnswer_def bindR_eq_Inr ensureR_eq_Inr eachR_eq_Inr wireBytes_Inr)
  have "intsToBytes (sSlot (wStorageProofs p ! i)) = keys ! i" if "i < length keys" for i
    using bspec [OF each, of "(i, wStorageProofs p ! i, keys ! i)"] that c(4)
    by (auto simp: in_set_enumerate_eq checkSlot_def bindR_eq_Inr ensureR_eq_Inr wireBytes_Inr)
  then have "map (\<lambda>sp. intsToBytes (sSlot sp)) (wStorageProofs p) = keys"
    using c(4) by (intro nth_equalityI) simp_all
  then show ?thesis using a k e p r c(1-3) walk checkWords_bounds [OF c(1)] by blast
qed

definition samplePost :: "bytes \<Rightarrow> bytes list \<Rightarrow> u64 \<Rightarrow> ethError + wireEnvelope" where
  "samplePost addr keys blockNumber =
     Inr \<lparr>eAnswer = [], eStateRoot = [], eBlockRange = (1, 1), eStateProofs = [absentProof]\<rparr>"

theorem GetState_about_request_witness:
  "\<exists>addr. hexDecode20 (''0x'' @ concat (replicate 20 ''07'')) = Inr addr \<and> intsToBytes (wAddress absentProof) = addr"
proof -
  have "\<not> isl (GetState sampleKeccak samplePost EthWalkProofs (''0x'' @ concat (replicate 20 ''07'')) [''0''] 1)"
    by code_simp
  then obtain r where "GetState sampleKeccak samplePost EthWalkProofs (''0x'' @ concat (replicate 20 ''07'')) [''0''] 1 = Inr r"
    by (metis sum.collapse(2))
  from GetState_about_request [OF this] show ?thesis by (auto simp: samplePost_def)
qed

end
