(* ===== verification/SignedMessages.thy ===== *)
theory SignedMessages
  imports Sha256
begin

text \<open>
  The messages writes are signed over (\<^verbatim>\<open>signed_messages.go\<close>): the builder that collects
  lines and the first field refused, the rules for ids, DIDs and key grants, and one
  formatter per kind of transaction.  The theory shows that a message determines the
  transaction it was built from (its data up to SHA-256), across every kind: no signature
  over one write is a signature over another.
\<close>

datatype messageError =
    LineBreakIn string | NotUtf8 string
  | IdLength string | IdStart string | IdCharacter string
  | DidPrefix string string | DidTooLong string string nat | DidEmpty string string | DidCharacter string string
  | NoGrants | GrantEpoch nat u32 u32 | NoSubgroveId | IdHoldsColon string

subsection \<open>The builder\<close>

record signedMessage =
  msgLines :: "string list"
  msgErr :: "messageError option"

definition newSignedMessage :: "string \<Rightarrow> signedMessage" where
  "newSignedMessage kind = \<lparr>msgLines = [kind], msgErr = None\<rparr>"

definition line :: "string \<Rightarrow> string \<Rightarrow> signedMessage \<Rightarrow> signedMessage" where
  "line label val m = m\<lparr>msgLines := msgLines m @ [label @ '': '' @ val]\<rparr>"

definition textLine :: "string \<Rightarrow> string \<Rightarrow> signedMessage \<Rightarrow> signedMessage" where
  "textLine label val m =
     (let m1 = (if msgErr m = None \<and> newline \<in> set val then m\<lparr>msgErr := Some (LineBreakIn label)\<rparr> else m);
          m2 = (if msgErr m1 = None \<and> \<not> validString val then m1\<lparr>msgErr := Some (NotUtf8 label)\<rparr> else m1)
      in line label val m2)"

definition build :: "signedMessage \<Rightarrow> messageError + string" where
  "build m = (case msgErr m of Some e \<Rightarrow> Inl e | None \<Rightarrow> Inr (joinLines (msgLines m)))"

definition uintLine :: "string \<Rightarrow> nat \<Rightarrow> signedMessage \<Rightarrow> signedMessage" where
  "uintLine label n = line label (formatUint n)"

definition hexLine :: "string \<Rightarrow> bytes \<Rightarrow> signedMessage \<Rightarrow> signedMessage" where
  "hexLine label b = line label (hexEncode b)"

subsection \<open>Ids, DIDs and grants\<close>

definition alnum :: "char \<Rightarrow> bool" where
  "alnum c \<longleftrightarrow> (let n = of_char c :: nat
     in 97 \<le> n \<and> n \<le> 122 \<or> 65 \<le> n \<and> n \<le> 90 \<or> 48 \<le> n \<and> n \<le> 57)"

definition idChar :: "char \<Rightarrow> bool" where
  "idChar c \<longleftrightarrow> alnum c \<or> c = CHR ''-'' \<or> c = CHR ''_''"

definition validateStorageSubgroveID :: "string \<Rightarrow> messageError + unit" where
  "validateStorageSubgroveID i =
     (if i = [] \<or> length i > 64 then Inl (IdLength i)
      else if \<not> alnum (hd i) then Inl (IdStart i)
      else if \<not> list_all idChar i then Inl (IdCharacter i)
      else Inr ())"

definition validateWillowDID :: "string \<Rightarrow> string \<Rightarrow> messageError + unit" where
  "validateWillowDID did label =
     (case cutPrefix ''did:willow:'' did of
        None \<Rightarrow> Inl (DidPrefix label did)
      | Some body \<Rightarrow>
          if length did > 128 then Inl (DidTooLong label did (length did))
          else if body = [] then Inl (DidEmpty label did)
          else if \<not> list_all idChar body then Inl (DidCharacter label did)
          else Inr ())"

record EncryptedKeyGrant =
  GranteeDID :: string
  GranteePublicKeyID :: string
  KeyEpoch :: u32
  EphemeralPublicKey :: bytes
  EncryptedKey :: bytes
  GrantedBy :: string
  GrantedAt :: u64

definition validateGrantees :: "EncryptedKeyGrant list \<Rightarrow> messageError + unit" where
  "validateGrantees grants =
     eachR (\<lambda>(i, g). validateWillowDID (GranteeDID g)
              (if length grants > 1 then ''grant '' @ formatUint i @ CHR 0x27 # ''s grantee'' else ''grantee''))
       (enumerate 0 grants)"

definition validateRotation :: "u32 \<Rightarrow> EncryptedKeyGrant list \<Rightarrow> messageError + unit" where
  "validateRotation newEpoch grants =
     (if length grants = 0 then Inl NoGrants
      else bindR (eachR (\<lambda>(i, g). ensureR (KeyEpoch g = newEpoch) (GrantEpoch i (KeyEpoch g) newEpoch))
                    (enumerate 0 grants))
             (\<lambda>_. validateGrantees grants))"

definition validateRevoke :: "string \<Rightarrow> string \<Rightarrow> string \<Rightarrow> messageError + unit" where
  "validateRevoke subgroveID revokeeDID senderDID =
     (if subgroveID = [] then Inl NoSubgroveId
      else if CHR '':'' \<in> set subgroveID then Inl (IdHoldsColon subgroveID)
      else bindR (validateWillowDID revokeeDID ''revokee'') (\<lambda>_. validateWillowDID senderDID ''sender''))"

definition grantLines :: "EncryptedKeyGrant \<Rightarrow> signedMessage \<Rightarrow> signedMessage" where
  "grantLines g m =
     uintLine ''GrantedAt'' (unat (GrantedAt g))
     (textLine ''GrantedBy'' (GrantedBy g)
     (hexLine ''EncryptedKey'' (EncryptedKey g)
     (hexLine ''EphemeralKey'' (EphemeralPublicKey g)
     (uintLine ''KeyEpoch'' (unat (KeyEpoch g))
     (textLine ''GranteeKey'' (GranteePublicKeyID g)
     (textLine ''Grantee'' (GranteeDID g) m))))))"

subsection \<open>The formatters\<close>

definition FormatDataStoreMessage :: "string \<Rightarrow> string \<Rightarrow> string \<Rightarrow> bytes \<Rightarrow> u64 \<Rightarrow> messageError + string" where
  "FormatDataStoreMessage subgroveID key ownerDID data nonce =
     build
     (uintLine ''Nonce'' (unat nonce)
     (hexLine ''DataHash'' (sha256 data)
     (textLine ''Owner'' ownerDID
     (textLine ''Key'' key
     (textLine ''Subgrove'' subgroveID
     (newSignedMessage ''StoreData''))))))"

record FileEncryption =
  encKeyEpoch :: u64
  encNonce :: bytes

record FileManifestFields =
  fmSubgroveID :: string
  fmFileKey :: string
  fmOwnerDID :: string
  fmFilename :: string
  fmContentType :: string
  fmTotalSize :: u64
  fmContentHash :: bytes
  fmChunkCount :: u32
  fmChunkSize :: u32
  fmChunkMerkleRoot :: bytes
  fmEncryption :: "FileEncryption option"
  fmNonce :: u64

definition encryptionText :: "FileEncryption option \<Rightarrow> string" where
  "encryptionText e =
     (case e of
        None \<Rightarrow> ''none''
      | Some f \<Rightarrow> formatUint (unat (encKeyEpoch f)) @ '':'' @ hexEncode (encNonce f))"

definition FormatStoreFileManifestMessage :: "FileManifestFields \<Rightarrow> messageError + string" where
  "FormatStoreFileManifestMessage f =
     build
     (uintLine ''Nonce'' (unat (fmNonce f))
     (line ''Encryption'' (encryptionText (fmEncryption f))
     (hexLine ''ChunkMerkleRoot'' (fmChunkMerkleRoot f)
     (uintLine ''ChunkSize'' (unat (fmChunkSize f))
     (uintLine ''ChunkCount'' (unat (fmChunkCount f))
     (hexLine ''ContentHash'' (fmContentHash f)
     (uintLine ''TotalSize'' (unat (fmTotalSize f))
     (textLine ''ContentType'' (fmContentType f)
     (textLine ''Filename'' (fmFilename f)
     (textLine ''Owner'' (fmOwnerDID f)
     (textLine ''Key'' (fmFileKey f)
     (textLine ''Subgrove'' (fmSubgroveID f)
     (newSignedMessage ''StoreFileManifest'')))))))))))))"

definition FormatDeleteFileManifestMessage :: "string \<Rightarrow> string \<Rightarrow> string \<Rightarrow> u64 \<Rightarrow> messageError + string" where
  "FormatDeleteFileManifestMessage subgroveID fileKey ownerDID nonce =
     build
     (uintLine ''Nonce'' (unat nonce)
     (textLine ''Owner'' ownerDID
     (textLine ''Key'' fileKey
     (textLine ''Subgrove'' subgroveID
     (newSignedMessage ''DeleteFileManifest'')))))"

definition FormatGrantSubgroveKeyMessage :: "string \<Rightarrow> string \<Rightarrow> EncryptedKeyGrant \<Rightarrow> u64 \<Rightarrow> messageError + string" where
  "FormatGrantSubgroveKeyMessage subgroveID senderDID grant nonce =
     bindR (validateGrantees [grant]) (\<lambda>_.
     build
     (uintLine ''Nonce'' (unat nonce)
     (grantLines grant
     (textLine ''Sender'' senderDID
     (textLine ''Subgrove'' subgroveID
     (newSignedMessage ''GrantSubgroveKey''))))))"

definition FormatRotateSubgroveKeyMessage ::
  "string \<Rightarrow> string \<Rightarrow> u32 \<Rightarrow> EncryptedKeyGrant list \<Rightarrow> u64 \<Rightarrow> messageError + string" where
  "FormatRotateSubgroveKeyMessage subgroveID senderDID newEpoch grants nonce =
     bindR (validateRotation newEpoch grants) (\<lambda>_.
     build
     (uintLine ''Nonce'' (unat nonce)
     (foldl (\<lambda>m g. grantLines g m)
       (uintLine ''Grants'' (length grants)
       (uintLine ''NewEpoch'' (unat newEpoch)
       (textLine ''Sender'' senderDID
       (textLine ''Subgrove'' subgroveID
       (newSignedMessage ''RotateSubgroveKey'')))))
       grants)))"

definition FormatUnregisterStorageNodeMessage :: "string \<Rightarrow> u64 \<Rightarrow> messageError + string" where
  "FormatUnregisterStorageNodeMessage nodeDID nonce =
     build
     (uintLine ''Nonce'' (unat nonce)
     (textLine ''Node'' nodeDID
     (newSignedMessage ''UnregisterStorageNode'')))"

definition revokeSubgroveKeyMessage :: "string \<Rightarrow> string \<Rightarrow> string \<Rightarrow> u64 \<Rightarrow> messageError + string" where
  "revokeSubgroveKeyMessage subgroveID revokeeDID senderDID nonce =
     bindR (validateRevoke subgroveID revokeeDID senderDID) (\<lambda>_.
     Inr (''RevokeSubgroveKey:'' @ subgroveID @ '':'' @ revokeeDID @ '':'' @ senderDID @ '':'' @ formatUint (unat nonce)))"

subsection \<open>What a built message is\<close>

definition fieldLine :: "string \<Rightarrow> string \<Rightarrow> string" where
  "fieldLine label val = label @ '': '' @ val"

definition plain :: "string \<Rightarrow> bool" where
  "plain s \<longleftrightarrow> newline \<notin> set s"

definition sound :: "signedMessage \<Rightarrow> bool" where
  "sound m \<longleftrightarrow> msgErr m = None \<and> msgLines m \<noteq> [] \<and> list_all plain (msgLines m)"

lemma fieldLine_inj: "fieldLine l v = fieldLine l w \<longleftrightarrow> v = w"
  by (simp add: fieldLine_def)

lemma builder_lines [simp]:
  "msgLines (newSignedMessage k) = [k]"
  "msgLines (line l v m) = msgLines m @ [fieldLine l v]"
  "msgLines (textLine l v m) = msgLines m @ [fieldLine l v]"
  "msgLines (uintLine l n m) = msgLines m @ [fieldLine l (formatUint n)]"
  "msgLines (hexLine l b m) = msgLines m @ [fieldLine l (hexEncode b)]"
  by (simp_all add: newSignedMessage_def line_def textLine_def uintLine_def hexLine_def fieldLine_def Let_def)

lemma builder_err [simp]:
  "msgErr (newSignedMessage k) = None"
  "msgErr (line l v m) = msgErr m"
  "msgErr (uintLine l n m) = msgErr m"
  "msgErr (hexLine l b m) = msgErr m"
  "msgErr (textLine l v m) = None \<longleftrightarrow> msgErr m = None \<and> plain v \<and> validString v"
  by (auto simp: newSignedMessage_def line_def textLine_def uintLine_def hexLine_def plain_def Let_def)

lemma plain_fieldLine: "plain (fieldLine l v) \<longleftrightarrow> plain l \<and> plain v"
  by (auto simp: plain_def fieldLine_def newline_def)

lemma plain_values [simp]: "plain (formatUint n)" "plain (hexEncode b)"
  by (simp_all add: plain_def)

lemma build_Inr: "build m = Inr s \<longleftrightarrow> msgErr m = None \<and> s = joinLines (msgLines m)"
  by (auto simp: build_def split: option.splits)

lemma same_lines:
  assumes "joinLines ls = joinLines ls'" and "ls \<noteq> []" and "ls' \<noteq> []" and "list_all plain ls" and "list_all plain ls'"
  shows "ls = ls'"
  using assms by (intro joinLines_inj) (auto simp: plain_def list_all_iff)

subsection \<open>The lines of each kind\<close>

definition grantBody :: "EncryptedKeyGrant \<Rightarrow> string list" where
  "grantBody g =
     [fieldLine ''Grantee'' (GranteeDID g), fieldLine ''GranteeKey'' (GranteePublicKeyID g),
      fieldLine ''KeyEpoch'' (formatUint (unat (KeyEpoch g))),
      fieldLine ''EphemeralKey'' (hexEncode (EphemeralPublicKey g)),
      fieldLine ''EncryptedKey'' (hexEncode (EncryptedKey g)),
      fieldLine ''GrantedBy'' (GrantedBy g), fieldLine ''GrantedAt'' (formatUint (unat (GrantedAt g)))]"

definition grantOk :: "EncryptedKeyGrant \<Rightarrow> bool" where
  "grantOk g \<longleftrightarrow> plain (GranteeDID g) \<and> plain (GranteePublicKeyID g) \<and> plain (GrantedBy g)"

lemma grantLines_lines [simp]: "msgLines (grantLines g m) = msgLines m @ grantBody g"
  by (simp add: grantLines_def grantBody_def)

lemma grantLines_err: "msgErr (grantLines g m) = None \<Longrightarrow> msgErr m = None \<and> grantOk g"
  by (simp add: grantLines_def grantOk_def)

lemma fold_grants:
  "msgLines (foldl (\<lambda>m g. grantLines g m) m gs) = msgLines m @ concat (map grantBody gs)"
  "msgErr (foldl (\<lambda>m g. grantLines g m) m gs) = None \<Longrightarrow> msgErr m = None \<and> list_all grantOk gs"
  by (induction gs arbitrary: m) (auto dest: grantLines_err)

lemma plain_labels [simp]:
  "plain ''Subgrove''" "plain ''Key''" "plain ''Owner''" "plain ''DataHash''" "plain ''Nonce''" "plain ''Filename''"
  "plain ''ContentType''" "plain ''TotalSize''" "plain ''ContentHash''" "plain ''ChunkCount''" "plain ''ChunkSize''"
  "plain ''ChunkMerkleRoot''" "plain ''Encryption''" "plain ''Sender''" "plain ''Grantee''" "plain ''GranteeKey''"
  "plain ''KeyEpoch''" "plain ''EphemeralKey''" "plain ''EncryptedKey''" "plain ''GrantedBy''" "plain ''GrantedAt''"
  "plain ''NewEpoch''" "plain ''Grants''" "plain ''Node''" "plain ''StoreData''" "plain ''StoreFileManifest''"
  "plain ''DeleteFileManifest''" "plain ''GrantSubgroveKey''" "plain ''RotateSubgroveKey''" "plain ''UnregisterStorageNode''"
  by (simp_all add: plain_def newline_def)

lemma unat_inj: "unat x = unat y \<longleftrightarrow> x = y" for x y :: "'a::len word"
  by (auto intro: unsigned_word_eqI)

lemmas field_injs = fieldLine_inj formatUint_inj hexEncode_inj unat_inj

lemma grantBody_plain: "grantOk g \<Longrightarrow> list_all plain (grantBody g)"
  by (simp add: grantBody_def grantOk_def plain_fieldLine)

interpretation grantCode: prefix_free "\<lambda>_. True" grantBody
  by unfold_locales (simp add: grantBody_def field_injs)

lemma encryptionText_plain [simp]: "plain (encryptionText e)"
proof -
  have "newline \<noteq> CHR '':''" "newline \<notin> set ''none''" by (simp_all add: newline_def)
  then show ?thesis by (auto simp: encryptionText_def plain_def split: option.split)
qed

lemma encryptionText_inj: "encryptionText d = encryptionText e \<longleftrightarrow> d = e"
proof -
  have none: "''none'' \<noteq> formatUint n @ '':'' @ x" for n x
    using formatUint_digits [of n] formatUint_nonempty [of n]
    by (cases "formatUint n") (auto simp: isDigit_def)
  have some: "formatUint m @ '':'' @ hexEncode x = formatUint n @ '':'' @ hexEncode y \<longleftrightarrow> m = n \<and> x = y" for m n x y
    using append_sep_cut [of "formatUint m" "CHR '':''" "hexEncode x" "formatUint n" "hexEncode y"]
    by (auto simp: field_injs)
  show ?thesis
    using none none [symmetric] some
    by (auto simp: encryptionText_def field_injs split: option.splits intro: FileEncryption.equality)
qed

subsection \<open>Every signed write\<close>

datatype signedTx =
    StoreDataTx string string string bytes u64
  | StoreManifestTx FileManifestFields
  | DeleteManifestTx string string string u64
  | GrantKeyTx string string EncryptedKeyGrant u64
  | RotateKeyTx string string u32 "EncryptedKeyGrant list" u64
  | UnregisterNodeTx string u64
  | RevokeKeyTx string string string u64

fun signedText :: "signedTx \<Rightarrow> messageError + string" where
  "signedText (StoreDataTx s k ow d n) = FormatDataStoreMessage s k ow d n"
| "signedText (StoreManifestTx f) = FormatStoreFileManifestMessage f"
| "signedText (DeleteManifestTx s k ow n) = FormatDeleteFileManifestMessage s k ow n"
| "signedText (GrantKeyTx s sender g n) = FormatGrantSubgroveKeyMessage s sender g n"
| "signedText (RotateKeyTx s sender e gs n) = FormatRotateSubgroveKeyMessage s sender e gs n"
| "signedText (UnregisterNodeTx d n) = FormatUnregisterStorageNodeMessage d n"
| "signedText (RevokeKeyTx s r sender n) = revokeSubgroveKeyMessage s r sender n"

text \<open>What a message binds: the whole transaction, with the data of a write by its hash.\<close>

fun binds :: "signedTx \<Rightarrow> signedTx \<times> bytes" where
  "binds (StoreDataTx s k ow d n) = (StoreDataTx s k ow [] n, sha256 d)"
| "binds t = (t, [])"

fun isRevoke :: "signedTx \<Rightarrow> bool" where
  "isRevoke (RevokeKeyTx s r sender n) = True"
| "isRevoke _ = False"

fun txLines :: "signedTx \<Rightarrow> string list" where
  "txLines (StoreDataTx s k ow d n) =
     [''StoreData'', fieldLine ''Subgrove'' s, fieldLine ''Key'' k, fieldLine ''Owner'' ow,
      fieldLine ''DataHash'' (hexEncode (sha256 d)), fieldLine ''Nonce'' (formatUint (unat n))]"
| "txLines (StoreManifestTx f) =
     [''StoreFileManifest'', fieldLine ''Subgrove'' (fmSubgroveID f), fieldLine ''Key'' (fmFileKey f),
      fieldLine ''Owner'' (fmOwnerDID f), fieldLine ''Filename'' (fmFilename f),
      fieldLine ''ContentType'' (fmContentType f), fieldLine ''TotalSize'' (formatUint (unat (fmTotalSize f))),
      fieldLine ''ContentHash'' (hexEncode (fmContentHash f)),
      fieldLine ''ChunkCount'' (formatUint (unat (fmChunkCount f))),
      fieldLine ''ChunkSize'' (formatUint (unat (fmChunkSize f))),
      fieldLine ''ChunkMerkleRoot'' (hexEncode (fmChunkMerkleRoot f)),
      fieldLine ''Encryption'' (encryptionText (fmEncryption f)), fieldLine ''Nonce'' (formatUint (unat (fmNonce f)))]"
| "txLines (DeleteManifestTx s k ow n) =
     [''DeleteFileManifest'', fieldLine ''Subgrove'' s, fieldLine ''Key'' k, fieldLine ''Owner'' ow,
      fieldLine ''Nonce'' (formatUint (unat n))]"
| "txLines (GrantKeyTx s sender g n) =
     [''GrantSubgroveKey'', fieldLine ''Subgrove'' s, fieldLine ''Sender'' sender] @ grantBody g
     @ [fieldLine ''Nonce'' (formatUint (unat n))]"
| "txLines (RotateKeyTx s sender e gs n) =
     [''RotateSubgroveKey'', fieldLine ''Subgrove'' s, fieldLine ''Sender'' sender,
      fieldLine ''NewEpoch'' (formatUint (unat e)), fieldLine ''Grants'' (formatUint (length gs))]
     @ concat (map grantBody gs) @ [fieldLine ''Nonce'' (formatUint (unat n))]"
| "txLines (UnregisterNodeTx d n) =
     [''UnregisterStorageNode'', fieldLine ''Node'' d, fieldLine ''Nonce'' (formatUint (unat n))]"
| "txLines (RevokeKeyTx s r sender n) = []"

lemma list_all_concat_map: "list_all (\<lambda>x. list_all P (f x)) xs \<Longrightarrow> list_all P (concat (map f xs))"
  by (induction xs) simp_all

lemma signedText_lines:
  assumes "signedText t = Inr m" and "\<not> isRevoke t"
  shows "m = joinLines (txLines t) \<and> list_all plain (txLines t)"
proof (cases t)
  case (RotateKeyTx s sender e gs n)
  then have "list_all grantOk gs" "plain s" "plain sender" and m: "m = joinLines (txLines t)"
    using assms(1)
    by (auto simp: FormatRotateSubgroveKeyMessage_def bindR_eq_Inr build_Inr fold_grants(1) dest!: fold_grants(2))
  moreover from this have "list_all plain (concat (map grantBody gs))"
    by (intro list_all_concat_map) (rule list.pred_mono_strong, assumption, rule grantBody_plain)
  ultimately show ?thesis using RotateKeyTx by (simp add: plain_fieldLine)
next
  case (GrantKeyTx s sender g n)
  then show ?thesis
    using assms(1) grantBody_plain [of g]
    by (auto simp: FormatGrantSubgroveKeyMessage_def bindR_eq_Inr build_Inr plain_fieldLine dest!: grantLines_err)
qed (use assms in \<open>auto simp: FormatDataStoreMessage_def FormatStoreFileManifestMessage_def
  FormatDeleteFileManifestMessage_def FormatUnregisterStorageNodeMessage_def build_Inr plain_fieldLine\<close>)

lemma txLines_nonempty: "\<not> isRevoke t \<Longrightarrow> txLines t \<noteq> []"
  by (cases t) simp_all

lemma txLines_kind: "\<not> isRevoke t \<Longrightarrow> hd (txLines t) =
  (case t of StoreDataTx _ _ _ _ _ \<Rightarrow> ''StoreData'' | StoreManifestTx _ \<Rightarrow> ''StoreFileManifest''
   | DeleteManifestTx _ _ _ _ \<Rightarrow> ''DeleteFileManifest'' | GrantKeyTx _ _ _ _ \<Rightarrow> ''GrantSubgroveKey''
   | RotateKeyTx _ _ _ _ _ \<Rightarrow> ''RotateSubgroveKey'' | UnregisterNodeTx _ _ \<Rightarrow> ''UnregisterStorageNode''
   | RevokeKeyTx _ _ _ _ \<Rightarrow> [])"
  by (cases t) simp_all

lemma rotate_body_inj:
  "concat (map grantBody gs) = concat (map grantBody hs) \<Longrightarrow> length gs = length hs \<Longrightarrow> gs = hs"
  using grantCode.concat_cut [of gs hs "[]" "[]"] by (simp add: list_all_iff)

lemma txLines_inj:
  assumes "txLines a = txLines b" and "\<not> isRevoke a" and "\<not> isRevoke b"
  shows "binds a = binds b"
proof (cases a)
  case (StoreDataTx s k ow d n)
  then show ?thesis using assms by (cases b) (auto simp: field_injs)
next
  case (StoreManifestTx f)
  then show ?thesis
    using assms by (cases b) (auto simp: field_injs encryptionText_inj intro: FileManifestFields.equality)
next
  case (DeleteManifestTx s k ow n)
  then show ?thesis using assms by (cases b) (auto simp: field_injs)
next
  case (GrantKeyTx s sender g n)
  then show ?thesis using assms by (cases b) (auto simp: field_injs dest!: grantCode.enc_inj [OF TrueI TrueI])
next
  case (RotateKeyTx s sender e gs n)
  then show ?thesis using assms by (cases b) (auto simp: field_injs dest!: rotate_body_inj)
next
  case (UnregisterNodeTx d n)
  then show ?thesis using assms by (cases b) (auto simp: field_injs)
next
  case (RevokeKeyTx s r sender n)
  then show ?thesis using assms by simp
qed

lemma validDid_shape:
  assumes "validateWillowDID did label = Inr ()"
  shows "\<exists>body. did = ''did:willow:'' @ body \<and> body \<noteq> [] \<and> list_all idChar body \<and> length did \<le> 128"
  using assms by (auto simp: validateWillowDID_def cutPrefix_eq_Some split: option.splits if_splits)

lemma idChar_not_colon: "list_all idChar body \<Longrightarrow> CHR '':'' \<notin> set body"
  by (auto simp: list_all_iff idChar_def alnum_def Let_def)

lemma did_cut:
  assumes "d @ CHR '':'' # x = e @ CHR '':'' # y"
    and "validateWillowDID d l = Inr ()" and "validateWillowDID e l = Inr ()"
  shows "d = e \<and> x = y"
proof -
  obtain a b where a: "d = ''did:willow:'' @ a" "list_all idChar a" and b: "e = ''did:willow:'' @ b" "list_all idChar b"
    using validDid_shape [OF assms(2)] validDid_shape [OF assms(3)] by blast
  have "a @ CHR '':'' # x = b @ CHR '':'' # y" using assms(1) a b by simp
  then show ?thesis using append_sep_cut idChar_not_colon a b by metis
qed

lemma revoke_inj:
  assumes "revokeSubgroveKeyMessage s r d n = Inr m" and "revokeSubgroveKeyMessage s' r' d' n' = Inr m"
  shows "s = s' \<and> r = r' \<and> d = d' \<and> n = n'"
proof -
  have v: "CHR '':'' \<notin> set s" "validateWillowDID r ''revokee'' = Inr ()" "validateWillowDID d ''sender'' = Inr ()"
    "CHR '':'' \<notin> set s'" "validateWillowDID r' ''revokee'' = Inr ()" "validateWillowDID d' ''sender'' = Inr ()"
    using assms by (auto simp: revokeSubgroveKeyMessage_def validateRevoke_def bindR_eq_Inr split: if_splits)
  have "s @ CHR '':'' # r @ CHR '':'' # d @ CHR '':'' # formatUint (unat n)
      = s' @ CHR '':'' # r' @ CHR '':'' # d' @ CHR '':'' # formatUint (unat n')"
    using assms by (auto simp: revokeSubgroveKeyMessage_def bindR_eq_Inr)
  from append_sep_cut [OF this v(1) v(4)] have s: "s = s'"
    and r: "r @ CHR '':'' # d @ CHR '':'' # formatUint (unat n) = r' @ CHR '':'' # d' @ CHR '':'' # formatUint (unat n')"
    by blast+
  from did_cut [OF r v(2) v(5)] have "r = r'"
    and d: "d @ CHR '':'' # formatUint (unat n) = d' @ CHR '':'' # formatUint (unat n')" by blast+
  from did_cut [OF d v(3) v(6)] show ?thesis using s \<open>r = r'\<close> by (simp add: field_injs)
qed

lemma revoke_not_lines:
  assumes "revokeSubgroveKeyMessage s r d n = Inr m" and "\<not> isRevoke t"
  shows "m \<noteq> joinLines (txLines t)"
proof -
  have start: "take 3 m = ''Rev''" using assms(1) by (auto simp: revokeSubgroveKeyMessage_def bindR_eq_Inr)
  have "\<exists>l ls. txLines t = l # ls \<and> 3 \<le> length l \<and> take 3 l \<noteq> ''Rev''" using assms(2) by (cases t) simp_all
  then obtain l ls where l: "txLines t = l # ls" "3 \<le> length l" "take 3 l \<noteq> ''Rev''" by blast
  have "take 3 (joinLines (txLines t)) = take 3 l"
    using l(1,2) by (cases ls) simp_all
  then show ?thesis using start l(3) by metis
qed

text \<open>
  C10: the message a write is signed over determines the write: two transactions of any
  kinds whose formatters return the same message are the same transaction, field by
  field and grant by grant, the data of a data write up to its SHA-256.  A signature over
  one write is never a signature over another.
\<close>

theorem message_binds_transaction:
  assumes "signedText a = Inr m" and "signedText b = Inr m"
  shows "binds a = binds b"
proof -
  consider "isRevoke a" "isRevoke b" | "isRevoke a" "\<not> isRevoke b" | "\<not> isRevoke a" "isRevoke b"
    | "\<not> isRevoke a" "\<not> isRevoke b" by blast
  then show ?thesis
  proof cases
    case 1
    then show ?thesis using assms by (cases a; cases b) (auto dest: revoke_inj)
  next
    case 2
    then show ?thesis using assms signedText_lines [of b m] by (cases a) (auto dest: revoke_not_lines)
  next
    case 3
    then show ?thesis using assms signedText_lines [of a m] by (cases b) (auto dest: revoke_not_lines)
  next
    case 4
    then have "txLines a = txLines b"
      using signedText_lines [OF assms(1)] signedText_lines [OF assms(2)] by (intro same_lines) (auto simp: txLines_nonempty)
    then show ?thesis using txLines_inj 4 by blast
  qed
qed

theorem message_binds_transaction_witness:
  "binds (UnregisterNodeTx ''did:willow:a'' 7) = binds (UnregisterNodeTx ''did:willow:a'' 7)"
proof -
  have "\<not> isl (signedText (UnregisterNodeTx ''did:willow:a'' 7))" by code_simp
  then have "signedText (UnregisterNodeTx ''did:willow:a'' 7) = Inr (projr (signedText (UnregisterNodeTx ''did:willow:a'' 7)))"
    by (rule sum.collapse(2) [symmetric])
  from message_binds_transaction [OF this this] show ?thesis .
qed

text \<open>
  a text field that would break out of its line is refused: a message is built only
  when every text field is free of line breaks and valid UTF-8.
\<close>

lemma textLine_refuses:
  "build (textLine label val m) = Inr s \<longleftrightarrow>
     msgErr m = None \<and> newline \<notin> set val \<and> validString val
     \<and> s = joinLines (msgLines m @ [label @ '': '' @ val])"
  by (auto simp: build_Inr plain_def fieldLine_def)

end
