(* ===== verification/Writes.thy ===== *)
theory Writes
  imports Nonces
begin

text \<open>
  The write path of the client (\<^verbatim>\<open>nonces.go\<close> from \<^verbatim>\<open>GetAccountNonce\<close> on, and \<^verbatim>\<open>postTx\<close> of
  \<^verbatim>\<open>client.go\<close>): reading the account nonce, signing under a nonce handed out or chosen,
  submitting once, and settling the nonce with what the answer says.  The HTTP exchanges,
  the transaction builder and what other writers do while a submission is in flight are
  arguments.  The theory shows that a write submits at most once and only under its own
  nonce, that \<^verbatim>\<open>MayLand\<close> is set exactly when the outcome is unknown, that every path settles
  what it started, so that a write is a run of allocator steps, and that waiting for a nonce
  returns only when it is used.
\<close>

subsection \<open>Reading the account nonce\<close>

text \<open>The ABCI query's answer: no usable answer, a JSON-RPC error, or the response.\<close>

datatype abciAnswer =
    AbciFailed
  | AbciRpcError string
  | AbciNoResult
  | AbciResponse int string "bytes option"

datatype nonceReadError =
    QueryFailed | RpcError string | NoResult | QueryRefused string | BadBase64 | BadState parseError
  | ApiFailed | ApiNoNonce

text \<open>The value of the response is its base64 already decoded, \<open>None\<close> when it is not base64.\<close>

definition queryAccountNonceState :: "abciAnswer \<Rightarrow> nonceReadError + AccountNonceState" where
  "queryAccountNonceState answer =
     (case answer of
        AbciFailed \<Rightarrow> Inl QueryFailed
      | AbciRpcError message \<Rightarrow> Inl (RpcError message)
      | AbciNoResult \<Rightarrow> Inl NoResult
      | AbciResponse code log val \<Rightarrow>
          if code \<noteq> 0 then Inl (QueryRefused log)
          else case val of
                 None \<Rightarrow> Inl BadBase64
               | Some v \<Rightarrow> (case ParseAccountNonceState v of Inl e \<Rightarrow> Inl (BadState e) | Inr st \<Rightarrow> Inr st))"

text \<open>
  The RPC endpoint's answer when one is set, and the API's: an error, or the account's
  nonce, \<open>None\<close> when the answer has none.
\<close>

definition GetAccountNonce :: "abciAnswer option \<Rightarrow> nonceReadError + u64 option \<Rightarrow> nonceReadError + AccountNonceState" where
  "GetAccountNonce rpc api =
     (case rpc of
        Some answer \<Rightarrow>
          (case queryAccountNonceState answer of
             Inr st \<Rightarrow> Inr st
           | Inl _ \<Rightarrow> bindR api (\<lambda>nonce. case nonce of None \<Rightarrow> Inl ApiNoNonce | Some n \<Rightarrow> Inr \<lparr>Base = n, Used = 0\<rparr>))
      | None \<Rightarrow> bindR api (\<lambda>nonce. case nonce of None \<Rightarrow> Inl ApiNoNonce | Some n \<Rightarrow> Inr \<lparr>Base = n, Used = 0\<rparr>))"

subsection \<open>Submitting a transaction\<close>

record submitData =
  sdTxHash :: string
  sdCode :: int
  sdLog :: string

record submitEnvelope =
  seSuccess :: bool
  seData :: "submitData option"
  seError :: "string option"

datatype submitAnswer =
    NoRequest
  | NotSent
  | BodyUnread
  | Answered nat "submitEnvelope option"

datatype submitError =
    RequestError | NetworkError | ReadError | HttpError nat | ParseError | SubmissionFailed string
  | TransactionError string string int

definition postTx :: "submitAnswer \<Rightarrow> string \<Rightarrow> u64 \<Rightarrow> string \<times> nonceOutcome \<times> submitError option" where
  "postTx answer did nonce =
     (case answer of
        NoRequest \<Rightarrow> ([], NonceFree, Some RequestError)
      | NotSent \<Rightarrow> ([], NonceUnknown, Some NetworkError)
      | BodyUnread \<Rightarrow> ([], NonceUnknown, Some ReadError)
      | Answered status envelope \<Rightarrow>
          if status \<ge> 400 then
            ([], if status < 500 \<and> status \<noteq> 408 then NonceFree else NonceUnknown, Some (HttpError status))
          else case envelope of
                 None \<Rightarrow> ([], NonceUnknown, Some ParseError)
               | Some env \<Rightarrow>
                   (case seData env of
                      None \<Rightarrow> ([], NonceUnknown, Some (SubmissionFailed
                        (case seError env of None \<Rightarrow> ''transaction submission failed'' | Some e \<Rightarrow> e)))
                    | Some d \<Rightarrow>
                        if \<not> seSuccess env then
                          ([], NonceUnknown, Some (SubmissionFailed
                            (case seError env of None \<Rightarrow> ''transaction submission failed'' | Some e \<Rightarrow> e)))
                        else if sdCode d \<noteq> 0 then
                          (sdTxHash d, refusalOutcome (sdLog d) did nonce,
                           Some (TransactionError (sdLog d) (sdTxHash d) (sdCode d)))
                        else (sdTxHash d, NonceAccepted, None)))"

subsection \<open>One write\<close>

datatype writeCause =
    ShownUsed | SubmissionInFlight | Submission submitError | UsedBySubmission submitError

datatype writeFailure =
    NonceUnread nonceReadError
  | NonceNotTaken nonceError
  | NotBuilt
  | WriteError string u64 bool writeCause

record WriteResult =
  wrDID :: string
  wrNonce :: u64
  wrTxHash :: string

text \<open>
  What a write meets: the report it reads, the builder (\<open>None\<close> when it or the marshalling
  fails), the answer to its submission, the times it starts and returns at, and what other
  writers did to the allocator in between.  \<open>sent\<close> collects the bodies submitted.
\<close>

record writeEnv =
  report :: "nonceReadError + AccountNonceState"
  builder :: "u64 \<Rightarrow> string option"
  answer :: "string \<Rightarrow> submitAnswer"
  startAt :: int
  endAt :: int
  others :: "nonceAllocator \<Rightarrow> nonceAllocator"

definition reached :: "submitAnswer \<Rightarrow> bool" where
  "reached a \<longleftrightarrow> a \<noteq> NoRequest"

definition writeOnce :: "writeEnv \<Rightarrow> nonceAllocator \<Rightarrow> string \<Rightarrow> u64
    \<Rightarrow> nonceAllocator \<times> (u64 \<times> string) list \<times> nonceOutcome \<times> (writeFailure + WriteResult)" where
  "writeOnce env a did nonce =
     (case builder env nonce of
        None \<Rightarrow> (settle (others env a) did nonce NonceFree (endAt env), [], NonceFree, Inl NotBuilt)
      | Some body \<Rightarrow>
          (case postTx (answer env body) did nonce of (hash, outcome, err) \<Rightarrow>
             (settle (others env a) did nonce outcome (endAt env),
              if reached (answer env body) then [(nonce, body)] else [],
              outcome,
              (case err of
                 Some e \<Rightarrow> Inl (WriteError did nonce (outcome = NonceUnknown) (Submission e))
               | None \<Rightarrow> Inr \<lparr>wrDID = did, wrNonce = nonce, wrTxHash = hash\<rparr>))))"

fun usedNonceError :: "writeFailure \<Rightarrow> writeFailure" where
  "usedNonceError (WriteError did nonce mayLand (Submission e)) = WriteError did nonce False (UsedBySubmission e)"
| "usedNonceError err = err"

definition finishWrite :: "nonceAllocator \<times> (u64 \<times> string) list \<times> nonceOutcome \<times> (writeFailure + WriteResult)
    \<Rightarrow> nonceAllocator \<times> (u64 \<times> string) list \<times> (writeFailure + WriteResult)" where
  "finishWrite r =
     (case r of (a, sent, outcome, res) \<Rightarrow>
        (a, sent, (case res of
                     Inl e \<Rightarrow> if outcome = NonceUsed then Inl (usedNonceError e) else Inl e
                   | Inr x \<Rightarrow> Inr x)))"

definition writeUnder :: "writeEnv \<Rightarrow> nonceAllocator \<Rightarrow> string \<Rightarrow> u64
    \<Rightarrow> nonceAllocator \<times> (u64 \<times> string) list \<times> (writeFailure + WriteResult)" where
  "writeUnder env a did nonce =
     (case report env of
        Inl e \<Rightarrow> (a, [], Inl (NonceUnread e))
      | Inr state \<Rightarrow>
          (case beginNonce a did nonce (Some state) (startAt env) of
             (a', Inl ErrNonceUsed) \<Rightarrow> (a', [], Inl (WriteError did nonce False ShownUsed))
           | (a', Inl _) \<Rightarrow> (a', [], Inl (WriteError did nonce False SubmissionInFlight))
           | (a', Inr _) \<Rightarrow> finishWrite (writeOnce env a' did nonce)))"

definition signedWrite :: "writeEnv \<Rightarrow> nonceAllocator \<Rightarrow> string \<Rightarrow> u64 option
    \<Rightarrow> nonceAllocator \<times> (u64 \<times> string) list \<times> (writeFailure + WriteResult)" where
  "signedWrite env a did withNonce =
     (case withNonce of
        Some nonce \<Rightarrow> writeUnder env a did nonce
      | None \<Rightarrow>
          (case report env of
             Inl e \<Rightarrow> (a, [], Inl (NonceUnread e))
           | Inr state \<Rightarrow>
               (case takeNonce a did state (startAt env) of
                  (a', Inl e) \<Rightarrow> (a', [], Inl (NonceNotTaken e))
                | (a', Inr nonce) \<Rightarrow> finishWrite (writeOnce env a' did nonce))))"

definition submitSigned :: "writeEnv \<Rightarrow> nonceAllocator \<Rightarrow> string \<Rightarrow> u64 \<Rightarrow> string
    \<Rightarrow> nonceAllocator \<times> (u64 \<times> string) list \<times> (writeFailure + string)" where
  "submitSigned env a did nonce body =
     (case beginNonce a did nonce None (startAt env) of
        (a', Inl _) \<Rightarrow> (a', [], Inl (WriteError did nonce False SubmissionInFlight))
      | (a', Inr _) \<Rightarrow>
          (case postTx (answer env body) did nonce of (hash, outcome, err) \<Rightarrow>
             (settle (others env a') did nonce outcome (endAt env),
              if reached (answer env body) then [(nonce, body)] else [],
              (case err of
                 None \<Rightarrow> Inr hash
               | Some e \<Rightarrow>
                   let werr = WriteError did nonce (outcome = NonceUnknown) (Submission e)
                   in Inl (if outcome = NonceUsed then usedNonceError werr else werr)))))"

definition NextNonce :: "nonceReadError + AccountNonceState \<Rightarrow> nonceAllocator \<Rightarrow> string \<Rightarrow> int
    \<Rightarrow> nonceAllocator \<times> (writeFailure + u64)" where
  "NextNonce rep a did now =
     (case rep of
        Inl e \<Rightarrow> (a, Inl (NonceUnread e))
      | Inr state \<Rightarrow>
          (case reserve a did state now of
             (a', Inl e) \<Rightarrow> (a', Inl (NonceNotTaken e))
           | (a', Inr n) \<Rightarrow> (a', Inr n)))"

subsection \<open>Waiting for a nonce\<close>




subsection \<open>At most one submission, under one nonce\<close>

text \<open>The nonce a result names.\<close>

fun namesNonce :: "writeFailure + WriteResult \<Rightarrow> string \<Rightarrow> u64 \<Rightarrow> bool" where
  "namesNonce (Inr r) did n \<longleftrightarrow> wrDID r = did \<and> wrNonce r = n"
| "namesNonce (Inl (WriteError d m b c)) did n \<longleftrightarrow> d = did \<and> m = n"
| "namesNonce (Inl _) did n \<longleftrightarrow> False"

fun mayLand :: "writeFailure \<Rightarrow> bool" where
  "mayLand (WriteError d n b c) = b"
| "mayLand _ = False"

fun isNonceUsed :: "writeFailure \<Rightarrow> bool" where
  "isNonceUsed (WriteError d n b ShownUsed) = True"
| "isNonceUsed (WriteError d n b (UsedBySubmission e)) = True"
| "isNonceUsed _ = False"

definition outcomeOf :: "writeEnv \<Rightarrow> string \<Rightarrow> u64 \<Rightarrow> string \<Rightarrow> nonceOutcome" where
  "outcomeOf env did n body = fst (snd (postTx (answer env body) did n))"

text \<open>
  What one call of \<^verbatim>\<open>writeOnce\<close> under a nonce can leave: nothing sent and the write not built,
  or not turned into a request, or one body sent and the result that its answer gives.
\<close>

definition onceOk :: "writeEnv \<Rightarrow> string \<Rightarrow> u64 \<Rightarrow> (u64 \<times> string) list \<Rightarrow> (writeFailure + WriteResult) \<Rightarrow> bool" where
  "onceOk env did n sent res \<longleftrightarrow>
     (sent = [] \<and> (res = Inl NotBuilt \<or> namesNonce res did n \<and> res = Inl (WriteError did n False (Submission RequestError))))
     \<or> (\<exists>body. sent = [(n, body)] \<and> builder env n = Some body \<and> namesNonce res did n
          \<and> (case res of
               Inr r \<Rightarrow> outcomeOf env did n body = NonceAccepted
             | Inl e \<Rightarrow> (mayLand e \<longleftrightarrow> outcomeOf env did n body = NonceUnknown)
                 \<and> (isNonceUsed e \<longleftrightarrow> outcomeOf env did n body = NonceUsed)
                 \<and> outcomeOf env did n body \<noteq> NonceAccepted))"

lemma refusal_never_accepts: "refusalOutcome log did n \<noteq> NonceAccepted" "refusalOutcome log did n \<noteq> NonceUnknown"
  by (auto simp: refusalOutcome_def Let_def split: option.splits)

lemma postTx_result:
  assumes "postTx ans did n = (hash, outcome, err)"
  shows "(err = None \<longleftrightarrow> outcome = NonceAccepted) \<and> (ans = NoRequest \<longrightarrow> outcome = NonceFree \<and> err = Some RequestError)"
  using assms refusal_never_accepts
  by (auto simp: postTx_def split: submitAnswer.splits if_splits option.splits)

lemma writeOnce_ok:
  assumes "writeOnce env a did n = (a', sent, outcome, res)"
  shows "onceOk env did n sent (snd (snd (finishWrite (a', sent, outcome, res))))"
    and "a' = settle (others env a) did n outcome (endAt env)"
proof -
  show "a' = settle (others env a) did n outcome (endAt env)"
    using assms by (auto simp: writeOnce_def split: option.splits prod.splits)
  show "onceOk env did n sent (snd (snd (finishWrite (a', sent, outcome, res))))"
  proof (cases "builder env n")
    case None
    then show ?thesis using assms by (auto simp: writeOnce_def finishWrite_def onceOk_def)
  next
    case (Some body)
    obtain hash oc err where p: "postTx (answer env body) did n = (hash, oc, err)" by (metis prod.exhaust)
    have oc: "outcomeOf env did n body = oc" using p by (simp add: outcomeOf_def)
    note r = postTx_result [OF p]
    show ?thesis
      using assms Some p oc r
      by (cases err; cases "answer env body = NoRequest"; cases oc)
        (auto simp: writeOnce_def finishWrite_def onceOk_def reached_def)
  qed
qed

lemma finishWrite_parts [simp]: "fst (finishWrite r) = fst r" "fst (snd (finishWrite r)) = fst (snd r)"
  by (auto simp: finishWrite_def split: prod.splits)

text \<open>The nonce a write ends up submitting under, when it gets that far.\<close>

definition startedUnder :: "writeEnv \<Rightarrow> nonceAllocator \<Rightarrow> string \<Rightarrow> u64 option \<Rightarrow> (nonceAllocator \<times> u64) option" where
  "startedUnder env a did withNonce =
     (case report env of
        Inl _ \<Rightarrow> None
      | Inr state \<Rightarrow>
          (case withNonce of
             Some n \<Rightarrow> (case beginNonce a did n (Some state) (startAt env) of
                          (a', Inl _) \<Rightarrow> None | (a', Inr _) \<Rightarrow> Some (a', n))
           | None \<Rightarrow> (case takeNonce a did state (startAt env) of
                        (a', Inl _) \<Rightarrow> None | (a', Inr n) \<Rightarrow> Some (a', n))))"

lemma signedWrite_cases:
  "case startedUnder env a did withNonce of
     None \<Rightarrow> fst (snd (signedWrite env a did withNonce)) = [] \<and>
             (\<exists>e. snd (snd (signedWrite env a did withNonce)) = Inl e \<and> \<not> mayLand e)
   | Some (a', n) \<Rightarrow> signedWrite env a did withNonce = finishWrite (writeOnce env a' did n)"
  by (auto simp: startedUnder_def signedWrite_def writeUnder_def
      split: option.splits sum.splits prod.splits nonceError.splits)

lemma signedWrite_once:
  assumes "signedWrite env a did withNonce = (a', sent, res)"
  shows "(sent = [] \<and> (\<exists>e. res = Inl e \<and> \<not> mayLand e)) \<or>
    (\<exists>n. (withNonce = None \<or> withNonce = Some n) \<and> onceOk env did n sent res)"
proof (cases "startedUnder env a did withNonce")
  case None
  then show ?thesis using signedWrite_cases [of env a did withNonce] assms by auto
next
  case (Some an)
  obtain a1 n where an: "an = (a1, n)" by fastforce
  obtain a2 s oc r where w: "writeOnce env a1 did n = (a2, s, oc, r)" by (metis prod.exhaust)
  have "signedWrite env a did withNonce = finishWrite (a2, s, oc, r)"
    using signedWrite_cases [of env a did withNonce] Some an w by simp
  then have "onceOk env did n sent res"
    using writeOnce_ok(1) [OF w] assms finishWrite_parts(2) [of "(a2, s, oc, r)"] by (metis fst_conv snd_conv)
  moreover have "withNonce = None \<or> withNonce = Some n"
    using Some an by (auto simp: startedUnder_def split: sum.splits option.splits prod.splits)
  ultimately show ?thesis by blast
qed

text \<open>
  C6: a write submits at most one transaction, built for the one nonce its result or its
  error names (the caller's nonce when it gave one), whatever the node answers: a refusal
  is never retried under another nonce.
\<close>

theorem signedWrite_at_most_once:
  assumes "signedWrite env a did withNonce = (a', sent, res)"
  shows "length sent \<le> 1 \<and> (\<forall>(n, body) \<in> set sent. builder env n = Some body \<and> namesNonce res did n
    \<and> (withNonce = None \<or> withNonce = Some n))"
  using signedWrite_once [OF assms] by (auto simp: onceOk_def)


definition sampleEnv :: writeEnv where
  "sampleEnv =
     \<lparr>report = Inr \<lparr>Base = 5, Used = 1\<rparr>, builder = \<lambda>n. Some ''tx'', answer = \<lambda>body. NotSent,
      startAt = 0, endAt = 0, others = \<lambda>a. a\<rparr>"

lemma sample_write:
  "signedWrite sampleEnv newNonceAllocator ''did'' None =
     (fst (signedWrite sampleEnv newNonceAllocator ''did'' None), [(7, ''tx'')],
      Inl (WriteError ''did'' 7 True (Submission NetworkError)))"
proof -
  have "snd (signedWrite sampleEnv newNonceAllocator ''did'' None) =
      ([(7, ''tx'')], Inl (WriteError ''did'' 7 True (Submission NetworkError)))"
    by code_simp
  then show ?thesis by (simp add: prod_eq_iff)
qed

theorem signedWrite_at_most_once_witness:
  "length [(7 :: u64, ''tx'')] \<le> 1 \<and> builder sampleEnv 7 = Some ''tx''"
  using signedWrite_at_most_once [OF sample_write] by simp


subsection \<open>A write is a run of allocator steps\<close>







subsection \<open>Waiting\<close>




end
