(* ===== verification/LightClient.thy ===== *)
theory LightClient
  imports Prelude
begin

text \<open>
  The light client (\<^verbatim>\<open>src/lightclient/types.go\<close>, \<^verbatim>\<open>src/lightclient/client.go\<close>): the
  configuration and its defaults, the trusted state, the checks \<^verbatim>\<open>VerifyHeader\<close> makes in
  the order it makes them, the move to a newer header from the first endpoint that serves
  an acceptable one, pinning, export and import of the trusted state, and the choice of an
  endpoint.

  A \<^verbatim>\<open>time.Time\<close> is an integer number of nanoseconds and a \<^verbatim>\<open>time.Duration\<close> or an \<^verbatim>\<open>int64\<close>
  an integer whose arithmetic is wrapped (\<open>wrap64\<close>) where the code computes with it;
  \<^verbatim>\<open>time.Since\<close> and \<^verbatim>\<open>time.Until\<close> saturate (\<open>durationBetween\<close>).  The clock is read several
  times in a call; each reading is an argument (\<open>readings\<close>).  What an endpoint answers to an
  RPC, already parsed from JSON, is an argument too (\<open>attempt\<close>), so the theorems hold for
  whatever the endpoints serve.
\<close>

subsection \<open>Machine integers and time\<close>

definition wrap64 :: "int \<Rightarrow> int" where
  "wrap64 x = (x + 2 ^ 63) mod 2 ^ 64 - 2 ^ 63"

definition durationBetween :: "int \<Rightarrow> int \<Rightarrow> int" where
  "durationBetween a b = max (- (2 ^ 63)) (min (2 ^ 63 - 1) (b - a))"

definition second :: int where
  "second = 1000000000"

text \<open>
  \<^verbatim>\<open>fmt.Sscanf(s, "%d", &x)\<close> for an \<^verbatim>\<open>int64\<close> that starts at 0: leading space other than a
  newline is skipped, a sign and the longest run of digits are read, and what follows is
  left unread.  Whatever fails leaves \<^verbatim>\<open>x\<close> at 0, and the code drops the error.
\<close>

definition bytesText :: "nat list \<Rightarrow> string" where
  "bytesText ns = map char_of ns"

definition scanSpaces :: "string list" where
  "scanSpaces =
     map bytesText
       ([[9], [11], [12], [13], [32], [0xC2, 0x85], [0xC2, 0xA0], [0xE1, 0x9A, 0x80]]
        @ map (\<lambda>k. [0xE2, 0x80, 0x80 + k]) [0, 1, 2, 3, 4, 5, 6, 7, 8, 9, 10]
        @ [[0xE2, 0x80, 0xA8], [0xE2, 0x80, 0xA9], [0xE2, 0x80, 0xAF], [0xE2, 0x81, 0x9F],
           [0xE3, 0x80, 0x80]])"

definition cutSpace :: "string \<Rightarrow> string option" where
  "cutSpace s =
     (case filter (\<lambda>p. hasPrefix p s) scanSpaces of
        [] \<Rightarrow> None
      | p # _ \<Rightarrow> Some (drop (max 1 (length p)) s))"

text \<open>\<^verbatim>\<open>SkipSpace\<close>; a newline, alone or after a carriage return, fails the scan.\<close>

lemma cutSpace_shorter: "cutSpace s = Some t \<Longrightarrow> length t < length s"
  by (cases s) (auto simp: cutSpace_def hasPrefix_def scanSpaces_def bytesText_def
      split: list.splits)

function skipSpace :: "string \<Rightarrow> string option" where
  "skipSpace s =
     (if hasPrefix [newline] s then None
      else case cutSpace s of None \<Rightarrow> Some s | Some t \<Rightarrow> skipSpace t)"
  by auto
termination
  by (relation "measure length") (auto dest: cutSpace_shorter)

declare skipSpace.simps [simp del]

definition scanDigits :: "bool \<Rightarrow> string \<Rightarrow> int option" where
  "scanDigits neg s =
     (let ds = takeWhile isDigit s;
          n = (if neg then - int (digitsVal ds) else int (digitsVal ds)) in
      if ds = [] \<or> n < - (2 ^ 63) \<or> 2 ^ 63 \<le> n then None else Some n)"

definition sscanInt :: "string \<Rightarrow> int" where
  "sscanInt s =
     (case skipSpace s of
        None \<Rightarrow> 0
      | Some [] \<Rightarrow> 0
      | Some (c # t) \<Rightarrow>
          (case (if c = CHR ''+'' then scanDigits False t
                 else if c = CHR ''-'' then scanDigits True t
                 else scanDigits False (c # t)) of
             None \<Rightarrow> 0
           | Some n \<Rightarrow> n))"

subsection \<open>Configuration and data\<close>

record TrustThreshold =
  thrNumerator :: int
  thrDenominator :: int

record LightConfig =
  cfgChainID :: string
  cfgValidatorEndpoints :: "string list"
  cfgTrustThreshold :: TrustThreshold
  cfgTrustingPeriod :: int
  cfgMaxClockDrift :: int
  cfgMinValidatorsForConsensus :: int
  cfgAutoSync :: bool
  cfgSyncInterval :: int
  cfgRPCTimeout :: int
  cfgMaxRetries :: int

definition DefaultConfig :: LightConfig where
  "DefaultConfig =
     \<lparr>cfgChainID = [], cfgValidatorEndpoints = [],
      cfgTrustThreshold = \<lparr>thrNumerator = 2, thrDenominator = 3\<rparr>,
      cfgTrustingPeriod = 24 * 3600 * second, cfgMaxClockDrift = 10 * second,
      cfgMinValidatorsForConsensus = 1, cfgAutoSync = True,
      cfgSyncInterval = 5 * 60 * second, cfgRPCTimeout = 10 * second, cfgMaxRetries = 3\<rparr>"

definition Validate :: "TrustThreshold \<Rightarrow> int \<Rightarrow> int \<Rightarrow> bool" where
  "Validate t votingPower totalPower \<longleftrightarrow>
     wrap64 (totalPower * thrNumerator t) \<le> wrap64 (votingPower * thrDenominator t)"

record Version =
  verBlock :: u64
  verApp :: u64

record PartSetHeader =
  pshTotal :: u32
  pshHash :: string

record BlockID =
  bidHash :: string
  bidPartSetHeader :: PartSetHeader

record Header =
  hdrVersion :: Version
  hdrChainID :: string
  hdrHeight :: int
  hdrTime :: int
  hdrLastBlockID :: "BlockID option"
  hdrLastCommitHash :: string
  hdrDataHash :: string
  hdrValidatorsHash :: string
  hdrNextValidatorsHash :: string
  hdrConsensusHash :: string
  hdrAppHash :: string
  hdrLastResultsHash :: string
  hdrEvidenceHash :: string
  hdrProposerAddress :: string

record Validator =
  valAddress :: string
  valPublicKey :: string
  valPublicKeyType :: string
  valVotingPower :: int
  valProposerPriority :: int

record ValidatorSet =
  vsValidators :: "Validator list"
  vsTotalVotingPower :: int

definition GetTotalVotingPower :: "ValidatorSet \<Rightarrow> int" where
  "GetTotalVotingPower vs =
     (if 0 < vsTotalVotingPower vs then vsTotalVotingPower vs
      else foldl (\<lambda>total v. wrap64 (total + valVotingPower v)) 0 (vsValidators vs))"

record CommitSig =
  csBlockIDFlag :: int
  csValidatorAddress :: string
  csTimestamp :: int
  csSignature :: string

record Commit =
  cmHeight :: int
  cmRound :: int
  cmBlockID :: BlockID
  cmSignatures :: "CommitSig list"

definition IsAbsent :: "CommitSig \<Rightarrow> bool" where
  "IsAbsent cs \<longleftrightarrow> csBlockIDFlag cs = 1"

definition IsCommit :: "CommitSig \<Rightarrow> bool" where
  "IsCommit cs \<longleftrightarrow> csBlockIDFlag cs = 2"

record LightBlock =
  lbHeader :: Header
  lbValidatorSet :: ValidatorSet
  lbCommit :: Commit
  lbTrustedHeight :: int
  lbTrustedAt :: int

record TrustedHeader =
  thHeader :: Header
  thAppHash :: string
  thHeight :: int
  thTrustedAt :: int

record TrustedState =
  tsHeader :: TrustedHeader
  tsValidatorSet :: ValidatorSet

text \<open>What \<^verbatim>\<open>VerificationResult.Error\<close> says, with the values its text carries.\<close>

datatype headerFault =
    ChainIDMismatch string string
  | HeightNotIncreasing int int
  | TimeNotProgressing
  | TrustedHeaderExpired
  | ClockDriftTooLarge int
  | ValidatorsHashMismatch
  | InsufficientVotingPower int int

record LightVerificationResult =
  vrChecksPassed :: bool
  vrVerified :: bool
  vrHeight :: int
  vrAppHash :: string
  vrError :: "headerFault option"
  vrVotingPower :: int
  vrTotalPower :: int
  vrSignatureCount :: int

datatype lightError =
    ChainIDRequired
  | EndpointRequired
  | NotInitialized
  | NoTrustedState
  | WrongChain string string
  | StateRequired
  | StateExpired
  | RpcFailed string
  | RpcError int string
  | HeaderRefused "headerFault option"
  | NoLatestBlock "lightError option"
  | SyncFailed "lightError option"
  | NoResponsiveEndpoint

record SyncStatus =
  ssLatestTrustedHeight :: int
  ssLatestTrustedTime :: int
  ssLatestKnownHeight :: int
  ssIsSynced :: bool
  ssLastSyncAttempt :: int
  ssLastSyncError :: "lightError option"

subsection \<open>The light client\<close>

record LightClient =
  lcConfig :: LightConfig
  lcTrustedState :: "TrustedState option"
  lcLastSync :: int
  lcLastError :: "lightError option"

definition orDefault :: "int \<Rightarrow> int \<Rightarrow> int" where
  "orDefault d x = (if x = 0 then d else x)"

definition withDefaults :: "LightConfig \<Rightarrow> LightConfig" where
  "withDefaults c =
     c\<lparr>cfgTrustThreshold :=
         if thrDenominator (cfgTrustThreshold c) = 0 then cfgTrustThreshold DefaultConfig
         else cfgTrustThreshold c,
       cfgTrustingPeriod := orDefault (cfgTrustingPeriod DefaultConfig) (cfgTrustingPeriod c),
       cfgMaxClockDrift := orDefault (cfgMaxClockDrift DefaultConfig) (cfgMaxClockDrift c),
       cfgSyncInterval := orDefault (cfgSyncInterval DefaultConfig) (cfgSyncInterval c),
       cfgRPCTimeout := orDefault (cfgRPCTimeout DefaultConfig) (cfgRPCTimeout c),
       cfgMaxRetries := orDefault (cfgMaxRetries DefaultConfig) (cfgMaxRetries c)\<rparr>"

definition NewLightClient :: "LightConfig \<Rightarrow> lightError + LightClient" where
  "NewLightClient config =
     (if cfgChainID config = [] then Inl ChainIDRequired
      else if cfgValidatorEndpoints config = [] then Inl EndpointRequired
      else Inr \<lparr>lcConfig = withDefaults config, lcTrustedState = None, lcLastSync = 0,
                lcLastError = None\<rparr>)"

text \<open>The trusted state made of a block the client decides to trust at the time \<open>now\<close>.\<close>

definition trustBlock :: "int \<Rightarrow> LightBlock \<Rightarrow> TrustedState" where
  "trustBlock now block =
     \<lparr>tsHeader = \<lparr>thHeader = lbHeader block, thAppHash = hdrAppHash (lbHeader block),
                  thHeight = hdrHeight (lbHeader block), thTrustedAt = now\<rparr>,
      tsValidatorSet = lbValidatorSet block\<rparr>"

definition InitializeWithTrustedHeader ::
  "LightClient \<Rightarrow> int \<Rightarrow> LightBlock \<Rightarrow> lightError + LightClient" where
  "InitializeWithTrustedHeader lc now block =
     (if hdrChainID (lbHeader block) \<noteq> cfgChainID (lcConfig lc)
      then Inl (WrongChain (cfgChainID (lcConfig lc)) (hdrChainID (lbHeader block)))
      else Inr (lc\<lparr>lcTrustedState := Some (trustBlock now block)\<rparr>))"

text \<open>The three readings of the clock a header goes through: expiry, drift, and trusting it.\<close>

record readings =
  atExpiry :: int
  atDrift :: int
  atTrust :: int

definition validatorMap :: "Validator list \<Rightarrow> string \<Rightarrow> Validator option" where
  "validatorMap vs = foldl (\<lambda>m v. m(valAddress v \<mapsto> v)) Map.empty vs"

definition countSig :: "(string \<Rightarrow> Validator option) \<Rightarrow> int \<times> int \<Rightarrow> CommitSig \<Rightarrow> int \<times> int" where
  "countSig m acc sig =
     (if IsAbsent sig then acc
      else if IsCommit sig then
        (case m (csValidatorAddress sig) of
           Some v \<Rightarrow> (wrap64 (fst acc + valVotingPower v), wrap64 (snd acc + 1))
         | None \<Rightarrow> acc)
      else acc)"

definition listedSigningPower :: "LightBlock \<Rightarrow> int \<times> int \<times> int" where
  "listedSigningPower block =
     (let totalPower = GetTotalVotingPower (lbValidatorSet block);
          counted = foldl (countSig (validatorMap (vsValidators (lbValidatorSet block)))) (0, 0)
                      (cmSignatures (lbCommit block)) in
      (fst counted, totalPower, snd counted))"

definition refusedHeader :: "LightVerificationResult \<Rightarrow> headerFault \<Rightarrow> lightError + LightVerificationResult" where
  "refusedHeader r e = Inr (r\<lparr>vrError := Some e\<rparr>)"

definition VerifyHeader ::
  "LightClient \<Rightarrow> readings \<Rightarrow> LightBlock \<Rightarrow> lightError + LightVerificationResult" where
  "VerifyHeader lc clock untrusted =
     (case lcTrustedState lc of
        None \<Rightarrow> Inl NotInitialized
      | Some trusted \<Rightarrow>
          let config = lcConfig lc;
              h = lbHeader untrusted;
              result = \<lparr>vrChecksPassed = False, vrVerified = False, vrHeight = hdrHeight h,
                        vrAppHash = [], vrError = None, vrVotingPower = 0, vrTotalPower = 0,
                        vrSignatureCount = 0\<rparr> in
          if hdrChainID h \<noteq> cfgChainID config
          then refusedHeader result (ChainIDMismatch (cfgChainID config) (hdrChainID h))
          else if hdrHeight h \<le> thHeight (tsHeader trusted)
          then refusedHeader result (HeightNotIncreasing (thHeight (tsHeader trusted)) (hdrHeight h))
          else if \<not> hdrTime (thHeader (tsHeader trusted)) < hdrTime h
          then refusedHeader result TimeNotProgressing
          else if cfgTrustingPeriod config
                  < durationBetween (thTrustedAt (tsHeader trusted)) (atExpiry clock)
          then refusedHeader result TrustedHeaderExpired
          else let clockDrift = durationBetween (atDrift clock) (hdrTime h) in
          if cfgMaxClockDrift config < clockDrift
          then refusedHeader result (ClockDriftTooLarge clockDrift)
          else if hdrHeight h = wrap64 (thHeight (tsHeader trusted) + 1)
                  \<and> hdrValidatorsHash h \<noteq> hdrNextValidatorsHash (thHeader (tsHeader trusted))
          then refusedHeader result ValidatorsHashMismatch
          else
            (case listedSigningPower untrusted of (signedPower, totalPower, sigCount) \<Rightarrow>
               let result = result\<lparr>vrVotingPower := signedPower, vrTotalPower := totalPower,
                                   vrSignatureCount := sigCount\<rparr> in
               if \<not> Validate (cfgTrustThreshold config) signedPower totalPower
               then refusedHeader result (InsufficientVotingPower signedPower totalPower)
               else Inr (result\<lparr>vrChecksPassed := True, vrVerified := True,
                                vrAppHash := hdrAppHash h\<rparr>)))"

definition verifyAndUpdateHeader ::
  "LightClient \<Rightarrow> readings \<Rightarrow> LightBlock \<Rightarrow> lightError + LightClient" where
  "verifyAndUpdateHeader lc clock block =
     bindR (VerifyHeader lc clock block) (\<lambda>result.
       if \<not> vrChecksPassed result then Inl (HeaderRefused (vrError result))
       else Inr (lc\<lparr>lcTrustedState := Some (trustBlock (atTrust clock) block)\<rparr>))"

subsection \<open>What an endpoint answers\<close>

text \<open>
  The body of an RPC answer after \<^verbatim>\<open>httpbody.Unmarshal\<close>: the \<^verbatim>\<open>result\<close>, parsed, or the
  \<^verbatim>\<open>error\<close> object, whose presence decides.
\<close>

record 'r rpcResponse =
  rpcResult :: 'r
  rpcErrorObject :: "(int \<times> string) option"

text \<open>
  \<^verbatim>\<open>rpcCall\<close> with its transport: a failure to build, send, read or parse is the left side.
\<close>

definition rpcCall :: "string + 'r rpcResponse \<Rightarrow> lightError + 'r" where
  "rpcCall answer =
     (case answer of
        Inl e \<Rightarrow> Inl (RpcFailed e)
      | Inr resp \<Rightarrow>
          (case rpcErrorObject resp of
             Some (code, msg) \<Rightarrow> Inl (RpcError code msg)
           | None \<Rightarrow> Inr (rpcResult resp)))"

record validatorWire =
  vwAddress :: string
  vwPubKeyType :: string
  vwPubKeyValue :: string
  vwVotingPower :: string
  vwProposerPriority :: string

text \<open>
  One attempt at an endpoint: what it answers to \<^verbatim>\<open>commit\<close>, what it answers to \<^verbatim>\<open>validators\<close>
  at a height, and the readings of the clock while the block is looked at.
\<close>

record attempt =
  commitAnswer :: "string + (Header \<times> Commit) rpcResponse"
  validatorsAnswer :: "int \<Rightarrow> string + validatorWire list rpcResponse"
  attemptClock :: readings

definition toValidator :: "validatorWire \<Rightarrow> Validator" where
  "toValidator v =
     \<lparr>valAddress = vwAddress v, valPublicKey = vwPubKeyValue v, valPublicKeyType = vwPubKeyType v,
      valVotingPower = sscanInt (vwVotingPower v),
      valProposerPriority = sscanInt (vwProposerPriority v)\<rparr>"

definition toValidatorSet :: "validatorWire list \<Rightarrow> ValidatorSet" where
  "toValidatorSet ws =
     \<lparr>vsValidators = map toValidator ws,
      vsTotalVotingPower = foldl (\<lambda>total w. wrap64 (total + sscanInt (vwVotingPower w))) 0 ws\<rparr>"

definition fetchLatestBlock :: "attempt \<Rightarrow> lightError + LightBlock" where
  "fetchLatestBlock a =
     bindR (rpcCall (commitAnswer a)) (\<lambda>(header, commit).
     bindR (rpcCall (validatorsAnswer a (hdrHeight header))) (\<lambda>validators.
       Inr \<lparr>lbHeader = header, lbValidatorSet = toValidatorSet validators, lbCommit = commit,
            lbTrustedHeight = 0, lbTrustedAt = 0\<rparr>))"

subsection \<open>Initialising, syncing, reading\<close>

text \<open>The loops over the endpoints; \<open>world i e\<close> is what the \<open>i\<close>th attempt meets at \<open>e\<close>.\<close>

primrec firstBlock ::
  "(nat \<Rightarrow> string \<Rightarrow> attempt) \<Rightarrow> nat \<Rightarrow> string list \<Rightarrow> lightError option \<Rightarrow> lightError + (LightBlock \<times> int)" where
  "firstBlock world i [] lastErr = Inl (NoLatestBlock lastErr)"
| "firstBlock world i (endpoint # rest) lastErr =
     (case fetchLatestBlock (world i endpoint) of
        Inl err \<Rightarrow> firstBlock world (Suc i) rest (Some err)
      | Inr b \<Rightarrow> Inr (b, atTrust (attemptClock (world i endpoint))))"

definition InitializeWithTrustOnFirstUse ::
  "LightClient \<Rightarrow> (nat \<Rightarrow> string \<Rightarrow> attempt) \<Rightarrow> lightError + LightClient" where
  "InitializeWithTrustOnFirstUse lc world =
     bindR (firstBlock world 0 (cfgValidatorEndpoints (lcConfig lc)) None) (\<lambda>(block, now).
       Inr (lc\<lparr>lcTrustedState := Some (trustBlock now block)\<rparr>))"

definition GetLatestAppHash ::
  "LightClient \<Rightarrow> (nat \<Rightarrow> string \<Rightarrow> attempt) \<Rightarrow> LightClient \<times> (lightError + string)" where
  "GetLatestAppHash lc world =
     (case (case lcTrustedState lc of
              None \<Rightarrow> InitializeWithTrustOnFirstUse lc world
            | Some _ \<Rightarrow> Inr lc) of
        Inl e \<Rightarrow> (lc, Inl e)
      | Inr lc' \<Rightarrow>
          (case lcTrustedState lc' of
             None \<Rightarrow> (lc', Inl NoTrustedState)
           | Some state \<Rightarrow> (lc', Inr (thAppHash (tsHeader state)))))"

primrec syncFrom ::
  "LightClient \<Rightarrow> (nat \<Rightarrow> string \<Rightarrow> attempt) \<Rightarrow> nat \<Rightarrow> string list \<Rightarrow> lightError option
    \<Rightarrow> lightError + LightClient" where
  "syncFrom lc world i [] lastErr = Inl (SyncFailed lastErr)"
| "syncFrom lc world i (endpoint # rest) lastErr =
     (case fetchLatestBlock (world i endpoint) of
        Inl err \<Rightarrow> syncFrom lc world (Suc i) rest (Some err)
      | Inr block \<Rightarrow>
          (case verifyAndUpdateHeader lc (attemptClock (world i endpoint)) block of
             Inl err \<Rightarrow> syncFrom lc world (Suc i) rest (Some err)
           | Inr lc' \<Rightarrow> Inr lc'))"

definition SyncToLatest ::
  "LightClient \<Rightarrow> (nat \<Rightarrow> string \<Rightarrow> attempt) \<Rightarrow> lightError + LightClient" where
  "SyncToLatest lc world = syncFrom lc world 0 (cfgValidatorEndpoints (lcConfig lc)) None"

text \<open>One tick of \<^verbatim>\<open>syncLoop\<close>: the error is recorded, never cleared.\<close>

definition syncTick :: "LightClient \<Rightarrow> (nat \<Rightarrow> string \<Rightarrow> attempt) \<Rightarrow> int \<Rightarrow> LightClient" where
  "syncTick lc world now =
     (case SyncToLatest lc world of
        Inl e \<Rightarrow> lc\<lparr>lcLastError := Some e\<rparr>
      | Inr lc' \<Rightarrow> lc')\<lparr>lcLastSync := now\<rparr>"

definition GetLatestTrustedHeader :: "LightClient \<Rightarrow> lightError + TrustedHeader" where
  "GetLatestTrustedHeader lc =
     (case lcTrustedState lc of None \<Rightarrow> Inl NotInitialized | Some state \<Rightarrow> Inr (tsHeader state))"

definition GetSyncStatus :: "LightClient \<Rightarrow> int \<Rightarrow> SyncStatus" where
  "GetSyncStatus lc now =
     (let status = \<lparr>ssLatestTrustedHeight = 0, ssLatestTrustedTime = 0, ssLatestKnownHeight = 0,
                    ssIsSynced = False, ssLastSyncAttempt = lcLastSync lc,
                    ssLastSyncError = lcLastError lc\<rparr> in
      case lcTrustedState lc of
        None \<Rightarrow> status
      | Some state \<Rightarrow>
          status\<lparr>ssLatestTrustedHeight := thHeight (tsHeader state),
                 ssLatestTrustedTime := hdrTime (thHeader (tsHeader state)),
                 ssIsSynced := durationBetween (thTrustedAt (tsHeader state)) now
                               < wrap64 (cfgSyncInterval (lcConfig lc) * 2)\<rparr>)"

definition ExportTrustedState :: "LightClient \<Rightarrow> lightError + TrustedState" where
  "ExportTrustedState lc =
     (case lcTrustedState lc of None \<Rightarrow> Inl NoTrustedState | Some state \<Rightarrow> Inr state)"

definition ImportTrustedState ::
  "LightClient \<Rightarrow> int \<Rightarrow> TrustedState option \<Rightarrow> lightError + LightClient" where
  "ImportTrustedState lc now st =
     (case st of
        None \<Rightarrow> Inl StateRequired
      | Some state \<Rightarrow>
          if hdrChainID (thHeader (tsHeader state)) \<noteq> cfgChainID (lcConfig lc)
          then Inl (WrongChain (cfgChainID (lcConfig lc)) (hdrChainID (thHeader (tsHeader state))))
          else if cfgTrustingPeriod (lcConfig lc)
                  < durationBetween (thTrustedAt (tsHeader state)) now
          then Inl StateExpired
          else Inr (lc\<lparr>lcTrustedState := Some state\<rparr>))"

text \<open>
  \<^verbatim>\<open>SelectBestEndpoint\<close> after the answers that came before the timeout were collected, in the
  order they came.  \<^verbatim>\<open>sort.Slice\<close> sorts up to twelve elements by insertion, which keeps the
  order of equal ones; the theorem about it does not depend on how ties fall.
\<close>

record endpointResult =
  erEndpoint :: string
  erLatency :: int
  erHeight :: int

definition endpointBefore :: "endpointResult \<Rightarrow> endpointResult \<Rightarrow> bool" where
  "endpointBefore a b =
     (if erHeight a \<noteq> erHeight b then erHeight b < erHeight a else erLatency a < erLatency b)"

primrec insertEndpoint :: "endpointResult \<Rightarrow> endpointResult list \<Rightarrow> endpointResult list" where
  "insertEndpoint x [] = [x]"
| "insertEndpoint x (y # ys) = (if endpointBefore x y then x # y # ys else y # insertEndpoint x ys)"

definition SelectBestEndpoint :: "endpointResult list \<Rightarrow> lightError + string" where
  "SelectBestEndpoint collected =
     (case foldl (\<lambda>sorted r. insertEndpoint r sorted) [] collected of
        [] \<Rightarrow> Inl NoResponsiveEndpoint
      | best # _ \<Rightarrow> Inr (erEndpoint best))"

subsection \<open>Lemmas: scanning an integer\<close>

lemma no_digit_space: "p \<in> set scanSpaces \<Longrightarrow> isDigit c \<Longrightarrow> \<not> hasPrefix p (c # s)"
  by (auto simp: scanSpaces_def bytesText_def hasPrefix_def isDigit_def)

lemma skipSpace_digit: "isDigit c \<Longrightarrow> skipSpace (c # s) = Some (c # s)"
proof -
  assume c: "isDigit c"
  then have "filter (\<lambda>p. hasPrefix p (c # s)) scanSpaces = []"
    using no_digit_space by (auto simp: filter_empty_conv)
  moreover have "c \<noteq> newline" using c by (auto simp: isDigit_def newline_def)
  ultimately show ?thesis by (subst skipSpace.simps) (auto simp: cutSpace_def hasPrefix_def)
qed

text \<open>A decimal number is read back; a power that does not fit is read as 0.\<close>

lemma sscanInt_formatUint: "sscanInt (formatUint n) = (if n < 2 ^ 63 then int n else 0)"
proof -
  obtain c s where cs: "formatUint n = c # s"
    using formatUint_nonempty [of n] by (cases "formatUint n") auto
  have d: "list_all isDigit (c # s)" using formatUint_digits [of n] cs by simp
  then have "takeWhile isDigit (c # s) = c # s" by (simp add: list_all_iff)
  then have "scanDigits False (c # s) = (if n < 2 ^ 63 then Some (int n) else None)"
    using digitsVal_formatUint [of n] cs by (auto simp: scanDigits_def)
  moreover have "c \<noteq> CHR ''+''" "c \<noteq> CHR ''-''" using d by (auto simp: isDigit_def)
  ultimately show ?thesis using d by (simp add: sscanInt_def cs skipSpace_digit)
qed

lemma sscanInt_decimal: "formatUint n = s \<Longrightarrow> n < 2 ^ 63 \<Longrightarrow> sscanInt s = int n"
  using sscanInt_formatUint by auto

subsection \<open>Lemmas: voting power\<close>

lemma wrap64_id [simp]: "- (2 ^ 63) \<le> x \<Longrightarrow> x < 2 ^ 63 \<Longrightarrow> wrap64 x = x"
  by (simp add: wrap64_def)

text \<open>The exact sums the wrapped ones stand for.\<close>

definition signers :: "Validator list \<Rightarrow> CommitSig list \<Rightarrow> Validator list" where
  "signers vs sigs =
     List.map_filter (\<lambda>s. if IsCommit s then validatorMap vs (csValidatorAddress s) else None) sigs"


lemma foldl_wrap64_sum:
  assumes "list_all (\<lambda>x. 0 \<le> f x) xs" and "0 \<le> a" and "a + (\<Sum>x \<leftarrow> xs. f x) < 2 ^ 63"
  shows "foldl (\<lambda>t x. wrap64 (t + f x)) a xs = a + (\<Sum>x \<leftarrow> xs. f x)"
  using assms
proof (induction xs arbitrary: a)
  case Nil
  then show ?case by simp
next
  case (Cons x xs)
  have "0 \<le> (\<Sum>x \<leftarrow> xs. f x)"
    using Cons.prems(1) by (intro sum_list_nonneg) (auto simp: list_all_iff)
  then show ?case using Cons by (simp add: ac_simps)
qed

lemma signers_Nil [simp]: "signers vs [] = []"
  by (simp add: signers_def map_filter_simps)

lemma signers_Cons:
  "signers vs (s # sigs) =
     (case (if IsCommit s then validatorMap vs (csValidatorAddress s) else None) of
        None \<Rightarrow> signers vs sigs
      | Some v \<Rightarrow> v # signers vs sigs)"
  by (simp add: signers_def map_filter_simps split: option.splits)

lemma countSig_cases:
  "countSig m acc s =
     (case (if IsCommit s then m (csValidatorAddress s) else None) of
        None \<Rightarrow> acc
      | Some v \<Rightarrow> (wrap64 (fst acc + valVotingPower v), wrap64 (snd acc + 1)))"
  by (simp add: countSig_def IsAbsent_def IsCommit_def split: option.splits)

lemma fst_foldl_countSig:
  "fst (foldl (countSig (validatorMap vs)) acc sigs)
    = foldl (\<lambda>t v. wrap64 (t + valVotingPower v)) (fst acc) (signers vs sigs)"
proof (induction sigs arbitrary: acc)
  case Nil
  then show ?case by simp
next
  case (Cons s sigs)
  show ?case
    by (cases "if IsCommit s then validatorMap vs (csValidatorAddress s) else None")
      (simp_all only: foldl_Cons Cons.IH signers_Cons countSig_cases [of _ acc s] option.case fst_conv)
qed





subsection \<open>Lemmas: the checks of VerifyHeader\<close>

text \<open>The specification: when an untrusted block is acceptable to a trusted state.\<close>

definition acceptable :: "LightConfig \<Rightarrow> TrustedState \<Rightarrow> readings \<Rightarrow> LightBlock \<Rightarrow> bool" where
  "acceptable config trusted clock b \<longleftrightarrow>
     hdrChainID (lbHeader b) = cfgChainID config
     \<and> thHeight (tsHeader trusted) < hdrHeight (lbHeader b)
     \<and> hdrTime (thHeader (tsHeader trusted)) < hdrTime (lbHeader b)
     \<and> durationBetween (thTrustedAt (tsHeader trusted)) (atExpiry clock) \<le> cfgTrustingPeriod config
     \<and> durationBetween (atDrift clock) (hdrTime (lbHeader b)) \<le> cfgMaxClockDrift config
     \<and> (hdrHeight (lbHeader b) = wrap64 (thHeight (tsHeader trusted) + 1)
        \<longrightarrow> hdrValidatorsHash (lbHeader b) = hdrNextValidatorsHash (thHeader (tsHeader trusted)))
     \<and> Validate (cfgTrustThreshold config) (fst (listedSigningPower b)) (fst (snd (listedSigningPower b)))"

lemma VerifyHeader_initialized:
  "lcTrustedState lc = Some trusted \<Longrightarrow> \<exists>r. VerifyHeader lc clock b = Inr r"
  by (simp add: VerifyHeader_def Let_def refusedHeader_def split: prod.splits)

lemma VerifyHeader_passes_iff:
  assumes "lcTrustedState lc = Some trusted" and "VerifyHeader lc clock b = Inr r"
  shows "vrChecksPassed r \<longleftrightarrow> acceptable (lcConfig lc) trusted clock b"
  using assms
  by (auto simp: VerifyHeader_def Let_def refusedHeader_def acceptable_def split: prod.splits if_splits)


lemma verifyAndUpdateHeader_eq:
  "verifyAndUpdateHeader lc clock b = Inr lc' \<longleftrightarrow>
     (\<exists>trusted. lcTrustedState lc = Some trusted \<and> acceptable (lcConfig lc) trusted clock b
        \<and> lc' = lc\<lparr>lcTrustedState := Some (trustBlock (atTrust clock) b)\<rparr>)"
proof (cases "lcTrustedState lc")
  case None
  then show ?thesis by (simp add: verifyAndUpdateHeader_def VerifyHeader_def)
next
  case (Some trusted)
  obtain r where r: "VerifyHeader lc clock b = Inr r"
    using VerifyHeader_initialized [OF Some] by blast
  then show ?thesis
    using VerifyHeader_passes_iff [OF Some r] Some by (auto simp: verifyAndUpdateHeader_def)
qed

subsection \<open>Lemmas: syncing\<close>

text \<open>
  A sync from a list of endpoints succeeds exactly with the block of the first endpoint
  that serves an acceptable one.
\<close>

definition offers :: "LightClient \<Rightarrow> (nat \<Rightarrow> string \<Rightarrow> attempt) \<Rightarrow> nat \<Rightarrow> string \<Rightarrow> LightClient option" where
  "offers lc world i e =
     (case fetchLatestBlock (world i e) of
        Inl _ \<Rightarrow> None
      | Inr b \<Rightarrow>
          (case verifyAndUpdateHeader lc (attemptClock (world i e)) b of
             Inl _ \<Rightarrow> None
           | Inr lc' \<Rightarrow> Some lc'))"

lemma syncFrom_offers:
  "syncFrom lc world i (e # es) lastErr = Inr lc' \<longleftrightarrow>
     offers lc world i e = Some lc'
     \<or> offers lc world i e = None \<and> (\<exists>err. syncFrom lc world (Suc i) es err = Inr lc')"
proof -
  have irrelevant: "syncFrom lc world j es err = Inr c \<longleftrightarrow> syncFrom lc world j es err' = Inr c"
    for j es err err' c
    by (induction es arbitrary: j err err') (auto split: sum.splits)
  show ?thesis by (auto simp: offers_def split: sum.splits intro: irrelevant [THEN iffD1])
qed

lemma syncFrom_first:
  "syncFrom lc world i es lastErr = Inr lc' \<longleftrightarrow>
     (\<exists>k < length es. offers lc world (i + k) (es ! k) = Some lc'
        \<and> (\<forall>j < k. offers lc world (i + j) (es ! j) = None))"
proof (induction es arbitrary: i lastErr)
  case Nil
  then show ?case by simp
next
  case (Cons e es)
  have "(\<exists>k < length (e # es). offers lc world (i + k) ((e # es) ! k) = Some lc'
          \<and> (\<forall>j < k. offers lc world (i + j) ((e # es) ! j) = None))
    \<longleftrightarrow> offers lc world i e = Some lc'
      \<or> offers lc world i e = None
        \<and> (\<exists>k < length es. offers lc world (Suc i + k) (es ! k) = Some lc'
              \<and> (\<forall>j < k. offers lc world (Suc i + j) (es ! j) = None))"
    by (auto simp: Ex_less_Suc2 All_less_Suc2)
  then show ?case unfolding syncFrom_offers Cons.IH by simp
qed

lemma offers_eq_Some:
  "offers lc world i e = Some lc' \<longleftrightarrow>
     (\<exists>b trusted. fetchLatestBlock (world i e) = Inr b \<and> lcTrustedState lc = Some trusted
        \<and> acceptable (lcConfig lc) trusted (attemptClock (world i e)) b
        \<and> lc' = lc\<lparr>lcTrustedState := Some (trustBlock (atTrust (attemptClock (world i e))) b)\<rparr>)"
  by (auto simp: offers_def verifyAndUpdateHeader_eq split: sum.splits)
    (metis Inr_not_Inl verifyAndUpdateHeader_eq)

subsection \<open>Histories of a light client\<close>

text \<open>
  The calls that move a pinned light client: a sync, a tick of the background loop, and an
  import of an exported state.  A failed sync changes nothing.
\<close>

inductive lightStep :: "LightClient \<Rightarrow> LightClient \<Rightarrow> bool" where
  step_sync: "SyncToLatest lc world = Inr lc' \<Longrightarrow> lightStep lc lc'"
| step_tick: "lightStep lc (syncTick lc world now)"

inductive_cases lightStepE: "lightStep lc lc'"

text \<open>What every reachable state keeps of the state it started from.\<close>

definition trustsChain :: "LightClient \<Rightarrow> TrustedState \<Rightarrow> bool" where
  "trustsChain lc ts \<longleftrightarrow>
     hdrChainID (thHeader (tsHeader ts)) = cfgChainID (lcConfig lc)
     \<and> thHeight (tsHeader ts) = hdrHeight (thHeader (tsHeader ts))
     \<and> thAppHash (tsHeader ts) = hdrAppHash (thHeader (tsHeader ts))"







subsection \<open>A concrete chain\<close>

text \<open>A client pinned at height 7 and a block at height 9 two of whose three validators sign.\<close>

definition sampleHeader :: "int \<Rightarrow> int \<Rightarrow> string \<Rightarrow> Header" where
  "sampleHeader height time app =
     \<lparr>hdrVersion = \<lparr>verBlock = 11, verApp = 1\<rparr>, hdrChainID = ''willow-1'', hdrHeight = height,
      hdrTime = time, hdrLastBlockID = None, hdrLastCommitHash = [], hdrDataHash = [],
      hdrValidatorsHash = ''aa'', hdrNextValidatorsHash = ''aa'', hdrConsensusHash = [],
      hdrAppHash = app, hdrLastResultsHash = [], hdrEvidenceHash = [], hdrProposerAddress = []\<rparr>"

definition sampleValidator :: "string \<Rightarrow> int \<Rightarrow> Validator" where
  "sampleValidator a p =
     \<lparr>valAddress = a, valPublicKey = [], valPublicKeyType = [], valVotingPower = p,
      valProposerPriority = 0\<rparr>"

definition sampleSig :: "string \<Rightarrow> int \<Rightarrow> CommitSig" where
  "sampleSig a flag =
     \<lparr>csBlockIDFlag = flag, csValidatorAddress = a, csTimestamp = 0, csSignature = []\<rparr>"

definition sampleCommit :: "int \<Rightarrow> CommitSig list \<Rightarrow> Commit" where
  "sampleCommit height sigs =
     \<lparr>cmHeight = height, cmRound = 0,
      cmBlockID = \<lparr>bidHash = [], bidPartSetHeader = \<lparr>pshTotal = 1, pshHash = []\<rparr>\<rparr>,
      cmSignatures = sigs\<rparr>"

definition sampleBlock :: LightBlock where
  "sampleBlock =
     \<lparr>lbHeader = sampleHeader 9 100 ''beef'',
      lbValidatorSet =
        \<lparr>vsValidators = [sampleValidator ''A'' 10, sampleValidator ''B'' 20, sampleValidator ''C'' 5],
         vsTotalVotingPower = 35\<rparr>,
      lbCommit = sampleCommit 9 [sampleSig ''A'' 2, sampleSig ''B'' 2, sampleSig ''C'' 1],
      lbTrustedHeight = 0, lbTrustedAt = 0\<rparr>"

definition sampleState :: TrustedState where
  "sampleState =
     \<lparr>tsHeader = \<lparr>thHeader = sampleHeader 7 50 ''cafe'', thAppHash = ''cafe'', thHeight = 7,
                  thTrustedAt = 60\<rparr>,
      tsValidatorSet = \<lparr>vsValidators = [], vsTotalVotingPower = 0\<rparr>\<rparr>"

definition sampleClient :: LightClient where
  "sampleClient =
     \<lparr>lcConfig = DefaultConfig\<lparr>cfgChainID := ''willow-1'',
                              cfgValidatorEndpoints := [''http://a'', ''http://b'']\<rparr>,
      lcTrustedState = Some sampleState, lcLastSync = 0, lcLastError = None\<rparr>"

definition sampleClock :: readings where
  "sampleClock = \<lparr>atExpiry = 110, atDrift = 111, atTrust = 112\<rparr>"

definition sampleWire :: "string \<Rightarrow> string \<Rightarrow> validatorWire" where
  "sampleWire a p =
     \<lparr>vwAddress = a, vwPubKeyType = [], vwPubKeyValue = [], vwVotingPower = p,
      vwProposerPriority = ''0''\<rparr>"

text \<open>The first endpoint is down; the second serves the block.\<close>

definition sampleWorld :: "nat \<Rightarrow> string \<Rightarrow> attempt" where
  "sampleWorld i e =
     (if e = ''http://a''
      then \<lparr>commitAnswer = Inl ''connection refused'', validatorsAnswer = (\<lambda>h. Inl ''down''),
            attemptClock = sampleClock\<rparr>
      else \<lparr>commitAnswer =
              Inr \<lparr>rpcResult = (lbHeader sampleBlock, lbCommit sampleBlock), rpcErrorObject = None\<rparr>,
            validatorsAnswer =
              (\<lambda>h. Inr \<lparr>rpcResult = [sampleWire ''A'' ''10'', sampleWire ''B'' ''20'', sampleWire ''C'' ''5''],
                        rpcErrorObject = None\<rparr>),
            attemptClock = sampleClock\<rparr>)"

lemmas sample_defs =
  sampleHeader_def sampleValidator_def sampleSig_def sampleCommit_def sampleBlock_def
  sampleState_def sampleClient_def sampleClock_def DefaultConfig_def second_def

subsection \<open>Properties\<close>



text \<open>A header anyone can build passes: from any trusted state that has not expired, for
  every app hash there is a block with no validators and no signatures at all that
  \<^verbatim>\<open>VerifyHeader\<close> passes and the client moves to.  The checks are about freshness, not about
  who signed.\<close>

lemma VerifyHeader_unauthenticated:
  assumes "lcTrustedState lc = Some trusted" and "thHeight (tsHeader trusted) + 2 < 2 ^ 63"
    and "0 \<le> thHeight (tsHeader trusted)"
    and "durationBetween (thTrustedAt (tsHeader trusted)) (atExpiry clock)
           \<le> cfgTrustingPeriod (lcConfig lc)"
    and "durationBetween (atDrift clock) (hdrTime (thHeader (tsHeader trusted)) + 1)
           \<le> cfgMaxClockDrift (lcConfig lc)"
  shows "\<exists>b. cmSignatures (lbCommit b) = [] \<and> hdrAppHash (lbHeader b) = app
    \<and> verifyAndUpdateHeader lc clock b
        = Inr (lc\<lparr>lcTrustedState := Some (trustBlock (atTrust clock) b)\<rparr>)"
proof -
  let ?h = "thHeader (tsHeader trusted)"
  let ?b = "\<lparr>lbHeader = ?h\<lparr>hdrChainID := cfgChainID (lcConfig lc),
                 hdrHeight := thHeight (tsHeader trusted) + 2, hdrTime := hdrTime ?h + 1,
                 hdrAppHash := app\<rparr>,
             lbValidatorSet = \<lparr>vsValidators = [], vsTotalVotingPower = 0\<rparr>,
             lbCommit = sampleCommit 0 [], lbTrustedHeight = 0, lbTrustedAt = 0\<rparr>"
  have "listedSigningPower ?b = (0, 0, 0)"
    by (simp add: listedSigningPower_def GetTotalVotingPower_def sampleCommit_def)
  then have "acceptable (lcConfig lc) trusted clock ?b"
    using assms(2-5) by (simp add: acceptable_def Validate_def)
  then show ?thesis
    using assms(1) by (intro exI [of _ ?b]) (auto simp: verifyAndUpdateHeader_eq sampleCommit_def)
qed

lemma VerifyHeader_unauthenticated_sample:
  "\<exists>b. cmSignatures (lbCommit b) = [] \<and> hdrAppHash (lbHeader b) = ''f0f0''
    \<and> \<not> isl (verifyAndUpdateHeader sampleClient sampleClock b)"
proof -
  have "\<exists>b. cmSignatures (lbCommit b) = [] \<and> hdrAppHash (lbHeader b) = ''f0f0''
    \<and> verifyAndUpdateHeader sampleClient sampleClock b
        = Inr (sampleClient\<lparr>lcTrustedState := Some (trustBlock (atTrust sampleClock) b)\<rparr>)"
    by (rule VerifyHeader_unauthenticated [of _ sampleState])
      (simp_all add: sample_defs durationBetween_def)
  then show ?thesis by (metis sum.disc(2))
qed



lemma sample_sync: "SyncToLatest sampleClient sampleWorld
    = Inr (sampleClient\<lparr>lcTrustedState := Some (trustBlock 112 sampleBlock)\<rparr>)"
proof -
  have scan: "sscanInt ''10'' = 10" "sscanInt ''20'' = 20" "sscanInt ''5'' = 5" "sscanInt ''0'' = 0"
  proof -
    have "formatUint 10 = ''10''" "formatUint 20 = ''20''" "formatUint 5 = ''5''" "formatUint 0 = ''0''"
      by code_simp+
    then show "sscanInt ''10'' = 10" "sscanInt ''20'' = 20" "sscanInt ''5'' = 5" "sscanInt ''0'' = 0"
      using sscanInt_decimal [of 10] sscanInt_decimal [of 20] sscanInt_decimal [of 5]
        sscanInt_decimal [of 0] by simp_all
  qed
  have "fetchLatestBlock (sampleWorld 1 ''http://b'') = Inr sampleBlock"
    by (simp add: fetchLatestBlock_def rpcCall_def sampleWorld_def toValidatorSet_def
        toValidator_def sampleWire_def scan sample_defs)
  moreover have "fetchLatestBlock (sampleWorld 0 ''http://a'') = Inl (RpcFailed ''connection refused'')"
    by (simp add: fetchLatestBlock_def rpcCall_def sampleWorld_def)
  moreover have "acceptable (lcConfig sampleClient) sampleState sampleClock sampleBlock"
    by (simp add: acceptable_def listedSigningPower_def GetTotalVotingPower_def countSig_def
        validatorMap_def IsAbsent_def IsCommit_def Validate_def durationBetween_def sample_defs)
  then have "verifyAndUpdateHeader sampleClient sampleClock sampleBlock
      = Inr (sampleClient\<lparr>lcTrustedState := Some (trustBlock 112 sampleBlock)\<rparr>)"
    unfolding verifyAndUpdateHeader_eq
    by (intro exI [of _ sampleState]) (simp add: sampleClient_def sampleClock_def)
  moreover have "attemptClock (sampleWorld i e) = sampleClock" for i e by (simp add: sampleWorld_def)
  moreover have "cfgValidatorEndpoints (lcConfig sampleClient) = [''http://a'', ''http://b'']"
    by (simp add: sampleClient_def)
  ultimately show ?thesis by (simp add: SyncToLatest_def)
qed


text \<open>\<^verbatim>\<open>SyncToLatest\<close> succeeds exactly when some endpoint serves a block that can be fetched
  and is acceptable to the trusted state, and it then moves to the block of the first such
  endpoint in the configured order; endpoints that fail or serve a refused header do not
  stop it.\<close>

lemma SyncToLatest_first_acceptable:
  "SyncToLatest lc world = Inr lc' \<longleftrightarrow>
     (let es = cfgValidatorEndpoints (lcConfig lc) in
      \<exists>k < length es. \<exists>b trusted.
        lcTrustedState lc = Some trusted
        \<and> fetchLatestBlock (world k (es ! k)) = Inr b
        \<and> acceptable (lcConfig lc) trusted (attemptClock (world k (es ! k))) b
        \<and> lc' = lc\<lparr>lcTrustedState := Some (trustBlock (atTrust (attemptClock (world k (es ! k)))) b)\<rparr>
        \<and> (\<forall>j < k. \<forall>b'. fetchLatestBlock (world j (es ! j)) = Inr b'
              \<longrightarrow> \<not> acceptable (lcConfig lc) trusted (attemptClock (world j (es ! j))) b'))"
proof -
  have none: "offers lc world j e = None \<longleftrightarrow>
      (\<forall>b. fetchLatestBlock (world j e) = Inr b
         \<longrightarrow> \<not> acceptable (lcConfig lc) trusted (attemptClock (world j e)) b)"
    if "lcTrustedState lc = Some trusted" for j e trusted
  proof (cases "offers lc world j e")
    case None
    then have "offers lc world j e \<noteq> Some c" for c by simp
    then show ?thesis using None that unfolding offers_eq_Some by blast
  next
    case (Some c)
    then show ?thesis using that offers_eq_Some [of lc world j e c] by auto
  qed
  show ?thesis
  proof (cases "lcTrustedState lc")
    case None
    then show ?thesis by (simp add: SyncToLatest_def syncFrom_first offers_eq_Some)
  next
    case (Some trusted)
    show ?thesis
      by (simp add: SyncToLatest_def syncFrom_first none [OF Some] offers_eq_Some Some Let_def)
        blast
  qed
qed

lemma SyncToLatest_first_acceptable_sample:
  "\<exists>k b. k < 2 \<and> fetchLatestBlock (sampleWorld k ([''http://a'', ''http://b''] ! k)) = Inr b
     \<and> acceptable (lcConfig sampleClient) sampleState sampleClock b"
proof -
  have "cfgValidatorEndpoints (lcConfig sampleClient) = [''http://a'', ''http://b'']"
    and "lcTrustedState sampleClient = Some sampleState" by (simp_all add: sampleClient_def)
  moreover have "attemptClock (sampleWorld i e) = sampleClock" for i e by (simp add: sampleWorld_def)
  ultimately show ?thesis
    using SyncToLatest_first_acceptable [THEN iffD1, OF sample_sync]
    by (auto simp: Let_def numeral_2_eq_2)
qed

text \<open>An exported trusted state imported by a client of the same configuration, while the
  trusting period lasts, gives back the same trusted state; an expired one or one of
  another chain is refused and nothing changes.\<close>

lemma export_import_roundtrip:
  assumes "lcTrustedState lc = Some ts" and "trustsChain lc ts" and "lcConfig lc2 = lcConfig lc"
  shows "bindR (ExportTrustedState lc) (\<lambda>st. ImportTrustedState lc2 now (Some st))
    = (if durationBetween (thTrustedAt (tsHeader ts)) now \<le> cfgTrustingPeriod (lcConfig lc)
       then Inr (lc2\<lparr>lcTrustedState := lcTrustedState lc\<rparr>) else Inl StateExpired)"
  using assms by (simp add: ExportTrustedState_def ImportTrustedState_def trustsChain_def)

lemma export_import_roundtrip_sample:
  "bindR (ExportTrustedState sampleClient) (\<lambda>st. ImportTrustedState sampleClient 70 (Some st))
     = Inr sampleClient"
proof -
  have "bindR (ExportTrustedState sampleClient) (\<lambda>st. ImportTrustedState sampleClient 70 (Some st))
    = (if durationBetween (thTrustedAt (tsHeader sampleState)) 70
          \<le> cfgTrustingPeriod (lcConfig sampleClient)
       then Inr (sampleClient\<lparr>lcTrustedState := lcTrustedState sampleClient\<rparr>) else Inl StateExpired)"
    by (rule export_import_roundtrip) (simp_all add: sample_defs trustsChain_def)
  then show ?thesis by (simp add: sample_defs durationBetween_def)
qed

text \<open>The commit is not checked for repeats: a commit that lists one validator \<open>n\<close> times is
  counted with \<open>n\<close> times its power, so a single validator of power \<open>p\<close> in a set whose total
  is \<open>3 * p\<close> meets the default two-thirds threshold by being listed twice.\<close>

lemma repeated_signer_counts_again:
  assumes "0 \<le> p" and "int n * p < 2 ^ 63" and "int n < 2 ^ 63"
    and "lbValidatorSet b = \<lparr>vsValidators = sampleValidator a p # others, vsTotalVotingPower = tot\<rparr>"
    and "a \<notin> valAddress ` set others"
    and "cmSignatures (lbCommit b) = replicate n (sampleSig a 2)"
  shows "fst (listedSigningPower b) = int n * p"
proof -
  have "foldl (\<lambda>m v. m(valAddress v \<mapsto> v)) m others x = m x"
    if "x \<notin> valAddress ` set others" for m :: "string \<Rightarrow> Validator option" and x
    using that by (induction others arbitrary: m) auto
  then have map: "validatorMap (sampleValidator a p # others) a = Some (sampleValidator a p)"
    using assms(5) by (simp add: validatorMap_def sampleValidator_def)
  have "signers (sampleValidator a p # others) (replicate n (sampleSig a 2))
      = replicate n (sampleValidator a p)"
    using map by (induction n) (simp_all add: signers_Cons IsCommit_def sampleSig_def)
  then have "fst (listedSigningPower b)
      = foldl (\<lambda>t v. wrap64 (t + valVotingPower v)) 0 (replicate n (sampleValidator a p))"
    using assms(4,6) by (simp add: listedSigningPower_def Let_def fst_foldl_countSig)
  also have "\<dots> = (\<Sum>v \<leftarrow> replicate n (sampleValidator a p). valVotingPower v)"
    using assms(1,2) foldl_wrap64_sum [of valVotingPower "replicate n (sampleValidator a p)" 0]
    by (simp add: sampleValidator_def list_all_iff sum_list_replicate)
  finally show ?thesis by (simp add: sampleValidator_def sum_list_replicate)
qed

lemma repeated_signer_counts_again_sample:
  "let b = \<lparr>lbHeader = sampleHeader 9 100 [],
            lbValidatorSet = \<lparr>vsValidators = [sampleValidator ''A'' 10, sampleValidator ''B'' 20],
                              vsTotalVotingPower = 30\<rparr>,
            lbCommit = sampleCommit 9 (replicate 2 (sampleSig ''A'' 2)),
            lbTrustedHeight = 0, lbTrustedAt = 0\<rparr> in
   fst (listedSigningPower b) = 20 \<and> Validate (cfgTrustThreshold DefaultConfig) 20 30"
proof -
  have "fst (listedSigningPower
      \<lparr>lbHeader = sampleHeader 9 100 [],
       lbValidatorSet = \<lparr>vsValidators = [sampleValidator ''A'' 10, sampleValidator ''B'' 20],
                         vsTotalVotingPower = 30\<rparr>,
       lbCommit = sampleCommit 9 (replicate 2 (sampleSig ''A'' 2)),
       lbTrustedHeight = 0, lbTrustedAt = 0\<rparr>) = int 2 * 10"
    by (rule repeated_signer_counts_again [where a = "''A''" and others = "[sampleValidator ''B'' 20]"])
      (simp_all add: sample_defs)
  then show ?thesis by (simp add: Validate_def DefaultConfig_def)
qed

text \<open>The endpoint chosen is one that no other answer beats.\<close>

definition beats :: "endpointResult \<Rightarrow> endpointResult \<Rightarrow> bool" where
  "beats a b \<longleftrightarrow> erHeight b < erHeight a \<or> erHeight a = erHeight b \<and> erLatency a < erLatency b"

lemma endpointBefore_beats: "endpointBefore a b = beats a b"
  by (auto simp: endpointBefore_def beats_def)

lemma set_insertEndpoint [simp]: "set (insertEndpoint x ys) = insert x (set ys)"
  by (induction ys) auto

lemma not_beats_trans: "\<not> beats b a \<Longrightarrow> \<not> beats c b \<Longrightarrow> \<not> beats c a"
  by (auto simp: beats_def)

lemma beats_asym: "beats a b \<Longrightarrow> \<not> beats b a"
  by (auto simp: beats_def)

lemma insertEndpoint_head:
  "sorted_wrt (\<lambda>a b. \<not> beats b a) ys \<Longrightarrow> sorted_wrt (\<lambda>a b. \<not> beats b a) (insertEndpoint x ys)"
proof (induction ys)
  case Nil
  then show ?case by simp
next
  case (Cons y ys)
  show ?case
  proof (cases "beats x y")
    case True
    then have "\<forall>z \<in> set (y # ys). \<not> beats z x"
    proof (intro ballI)
      fix z
      assume "z \<in> set (y # ys)"
      moreover have "\<not> beats y x" using True by (rule beats_asym)
      ultimately show "\<not> beats z x"
        using Cons.prems not_beats_trans [of y x z] by auto
    qed
    then show ?thesis using True Cons.prems by (simp add: endpointBefore_beats)
  next
    case False
    then show ?thesis using Cons by (simp add: endpointBefore_beats)
  qed
qed

lemma foldl_insertEndpoint:
  "sorted_wrt (\<lambda>a b. \<not> beats b a) (foldl (\<lambda>s r. insertEndpoint r s) [] rs)
   \<and> set (foldl (\<lambda>s r. insertEndpoint r s) [] rs) = set rs"
proof (induction rs rule: rev_induct)
  case Nil
  then show ?case by simp
next
  case (snoc r rs)
  then show ?case by (simp add: insertEndpoint_head)
qed

text \<open>\<^verbatim>\<open>SelectBestEndpoint\<close> returns the endpoint of a collected answer that no collected answer
  beats (a greater height, or the same height and a smaller latency), and fails exactly
  when no answer was collected.\<close>

lemma SelectBestEndpoint_best:
  "(SelectBestEndpoint rs = Inl NoResponsiveEndpoint \<longleftrightarrow> rs = [])
   \<and> (rs = [] \<or> (\<exists>r \<in> set rs. SelectBestEndpoint rs = Inr (erEndpoint r)
                      \<and> (\<forall>r' \<in> set rs. \<not> beats r' r)))"
proof (cases "foldl (\<lambda>s r. insertEndpoint r s) [] rs")
  case Nil
  then show ?thesis using foldl_insertEndpoint [of rs] by (simp add: SelectBestEndpoint_def)
next
  case (Cons best rest)
  then have "sorted_wrt (\<lambda>a b. \<not> beats b a) (best # rest)" and rs: "set (best # rest) = set rs"
    using foldl_insertEndpoint [of rs] by simp_all
  then have "\<forall>r' \<in> set rs. \<not> beats r' best" by (auto simp: beats_def)
  moreover have "rs \<noteq> []" "best \<in> set rs" using rs by auto
  ultimately show ?thesis using Cons by (auto simp: SelectBestEndpoint_def)
qed

end
