(* ===== verification/Json.thy ===== *)
theory Json
  imports Prelude
begin

text \<open>
  JSON as the SDK reads it with Go's \<^verbatim>\<open>encoding/json\<close>: a value keeps the digits of its
  numbers (\<^verbatim>\<open>UseNumber\<close>) and the members of its objects in order, a key given twice included.
  The reader follows Go's scanner: a state per expected token and a stack of the open
  containers, at most \<open>maxNestingDepth\<close> deep.  A string is unquoted the way \<^verbatim>\<open>encoding/json\<close>
  does it, so malformed UTF-8 and lone surrogates become U+FFFD.

  Every step reads a token, which shortens the text (\<open>nextToken_shorter\<close>), so the reader
  is total without fuel.
\<close>

datatype json =
    JNull
  | JBool bool
  | JNum string
  | JStr string
  | JArr "json list"
  | JObj "(string \<times> json) list"

text \<open>A number, and a \<^verbatim>\<open>consensus.ByteArray\<close>, which marshals as an array of numbers.\<close>

definition uintJson :: "nat \<Rightarrow> json" where
  "uintJson n = JNum (formatUint n)"

definition byteArrayJson :: "bytes \<Rightarrow> json" where
  "byteArrayJson bs = JArr (map (\<lambda>b. uintJson (unat b)) bs)"

subsection \<open>Strings\<close>

definition charNat :: "char \<Rightarrow> nat" where
  "charNat c = of_char c"

text \<open>\<^verbatim>\<open>utf8.EncodeRune\<close> of a code point that is no surrogate.\<close>

definition encodeRune :: "nat \<Rightarrow> string" where
  "encodeRune r =
     map char_of
       (if r < 0x80 then [r]
        else if r < 0x800 then [0xC0 + r div 64, 0x80 + r mod 64]
        else if r < 0x10000 then [0xE0 + r div 4096, 0x80 + r div 64 mod 64, 0x80 + r mod 64]
        else [0xF0 + r div 262144, 0x80 + r div 4096 mod 64, 0x80 + r div 64 mod 64, 0x80 + r mod 64])"

definition replacementText :: string where
  "replacementText = encodeRune 0xFFFD"

text \<open>The length of the well-formed UTF-8 sequence at the front, 0 when there is none.\<close>

fun runeLen :: "nat list \<Rightarrow> nat" where
  "runeLen [] = 0"
| "runeLen (b # bs) =
     (if b < 0x80 then 1
      else case bs of
        [] \<Rightarrow> 0
      | c # cs \<Rightarrow>
          if 0xC2 \<le> b \<and> b \<le> 0xDF then (if utf8Cont c then 2 else 0)
          else case cs of
            [] \<Rightarrow> 0
          | d # ds \<Rightarrow>
              if 0xE0 \<le> b \<and> b \<le> 0xEF then
                (if (if b = 0xE0 then 0xA0 \<le> c \<and> c \<le> 0xBF
                     else if b = 0xED then 0x80 \<le> c \<and> c \<le> 0x9F else utf8Cont c)
                    \<and> utf8Cont d then 3 else 0)
              else case ds of
                [] \<Rightarrow> 0
              | e # es \<Rightarrow>
                  if 0xF0 \<le> b \<and> b \<le> 0xF4
                     \<and> (if b = 0xF0 then 0x90 \<le> c \<and> c \<le> 0xBF
                        else if b = 0xF4 then 0x80 \<le> c \<and> c \<le> 0x8F else utf8Cont c)
                     \<and> utf8Cont d \<and> utf8Cont e then 4 else 0)"

declare runeLen.simps(2) [simp del]

text \<open>Four hexadecimal digits, as after \<^verbatim>\<open>\u\<close>.\<close>

fun hex4 :: "string \<Rightarrow> (nat \<times> string) option" where
  "hex4 (a # b # c # d # s) =
     (case (hexVal a, hexVal b, hexVal c, hexVal d) of
        (Some a, Some b, Some c, Some d) \<Rightarrow> Some (((a * 16 + b) * 16 + c) * 16 + d, s)
      | _ \<Rightarrow> None)"
| "hex4 _ = None"

lemma hex4_shorter: "hex4 s = Some (r, t) \<Longrightarrow> length t < length s"
  by (induction s rule: hex4.induct) (auto split: option.splits)

definition isSurrogate :: "nat \<Rightarrow> bool" where
  "isSurrogate r \<longleftrightarrow> 0xD800 \<le> r \<and> r < 0xE000"

text \<open>
  A \<^verbatim>\<open>\u\<close> escape: a high and a low surrogate given as two escapes make one code point, and
  any other surrogate is replaced without reading on.
\<close>

definition unicodeEscape :: "string \<Rightarrow> (string \<times> string) option" where
  "unicodeEscape s =
     (case hex4 s of
        None \<Rightarrow> None
      | Some (r, t) \<Rightarrow>
          if \<not> isSurrogate r then Some (encodeRune r, t)
          else case t of
            b # u # t' \<Rightarrow>
              (if b = CHR 0x5C \<and> u = CHR ''u'' then
                 (case hex4 t' of
                    Some (r', t'') \<Rightarrow>
                      (if r < 0xDC00 \<and> 0xDC00 \<le> r' \<and> r' < 0xE000
                       then Some (encodeRune ((r - 0xD800) * 1024 + (r' - 0xDC00) + 0x10000), t'')
                       else Some (replacementText, t))
                  | None \<Rightarrow> Some (replacementText, t))
               else Some (replacementText, t))
          | _ \<Rightarrow> Some (replacementText, t))"

lemma unicodeEscape_shorter: "unicodeEscape s = Some (x, t) \<Longrightarrow> length t < length s"
  by (auto simp: unicodeEscape_def split: option.splits if_splits list.splits dest!: hex4_shorter)

definition simpleEscape :: "char \<Rightarrow> char option" where
  "simpleEscape e =
     (if e = CHR 0x22 \<or> e = CHR 0x5C \<or> e = CHR ''/'' then Some e
      else if e = CHR ''b'' then Some (CHR 0x08)
      else if e = CHR ''f'' then Some (CHR 0x0C)
      else if e = CHR ''n'' then Some (CHR 0x0A)
      else if e = CHR ''r'' then Some (CHR 0x0D)
      else if e = CHR ''t'' then Some (CHR 0x09)
      else None)"

text \<open>
  One piece of a string literal after its opening quote: the text it stands for and the
  rest of the input.  A control character ends the scan in an error.
\<close>

definition stringPiece :: "string \<Rightarrow> (string \<times> string) option" where
  "stringPiece s =
     (case s of
        [] \<Rightarrow> None
      | c # t \<Rightarrow>
          if charNat c < 0x20 then None
          else if c = CHR 0x5C then
            (case t of
               [] \<Rightarrow> None
             | e # t' \<Rightarrow>
                 if e = CHR ''u'' then unicodeEscape t'
                 else (case simpleEscape e of None \<Rightarrow> None | Some x \<Rightarrow> Some ([x], t')))
          else let n = runeLen (map charNat (c # t)) in
            if n = 0 then Some (replacementText, t) else Some (take n (c # t), drop n (c # t)))"

lemma stringPiece_shorter: "stringPiece s = Some (x, t) \<Longrightarrow> length t < length s"
  by (auto simp: stringPiece_def Let_def split: list.splits if_splits option.splits
      dest!: unicodeEscape_shorter)

function lexString :: "string \<Rightarrow> (string \<times> string) option" where
  "lexString s =
     (case s of
        [] \<Rightarrow> None
      | c # t \<Rightarrow>
          if c = CHR 0x22 then Some ([], t)
          else case stringPiece s of
            None \<Rightarrow> None
          | Some (x, t') \<Rightarrow> map_option (\<lambda>(y, r). (x @ y, r)) (lexString t'))"
  by auto
termination
  by (relation "measure length") (auto dest: stringPiece_shorter)

declare lexString.simps [simp del]

lemma lexString_shorter: "lexString s = Some (x, t) \<Longrightarrow> length t < length s"
proof (induction s arbitrary: x t rule: lexString.induct)
  case (1 s)
  show ?case
  proof (cases s)
    case Nil
    then show ?thesis using "1.prems" by (simp add: lexString.simps)
  next
    case (Cons c u)
    show ?thesis
    proof (cases "c = CHR 0x22")
      case True
      then show ?thesis using "1.prems" Cons by (simp add: lexString.simps)
    next
      case False
      then obtain y t' z where p: "stringPiece s = Some (y, t')" and l: "lexString t' = Some (z, t)"
        using "1.prems" Cons by (subst (asm) lexString.simps) (auto split: option.splits)
      have "length t < length t'" using "1.IH" [OF Cons False p refl l] .
      then show ?thesis using stringPiece_shorter [OF p] by simp
    qed
  qed
qed

subsection \<open>Tokens\<close>

definition isSpaceChar :: "char \<Rightarrow> bool" where
  "isSpaceChar c \<longleftrightarrow> c \<in> {CHR 0x20, CHR 0x09, CHR 0x0D, CHR 0x0A}"

definition skipWs :: "string \<Rightarrow> string" where
  "skipWs s = dropWhile isSpaceChar s"

text \<open>
  The longest number at the front, following the scanner: a minus sign, \<^verbatim>\<open>0\<close> or digits that
  do not start with it, and optionally a fraction and an exponent, each with a digit.
\<close>

definition someDigits :: "string \<Rightarrow> (string \<times> string) option" where
  "someDigits s =
     (let ds = takeWhile isDigit s in if ds = [] then None else Some (ds, drop (length ds) s))"

definition numInt :: "string \<Rightarrow> (string \<times> string) option" where
  "numInt s =
     (case s of
        [] \<Rightarrow> None
      | c # t \<Rightarrow> if c = CHR ''0'' then Some ([c], t) else someDigits s)"

definition numFrac :: "string \<Rightarrow> (string \<times> string) option" where
  "numFrac s =
     (case s of
        [] \<Rightarrow> Some ([], s)
      | c # t \<Rightarrow>
          if c = CHR ''.'' then map_option (\<lambda>(ds, r). (c # ds, r)) (someDigits t) else Some ([], s))"

definition numSign :: "string \<Rightarrow> string \<times> string" where
  "numSign s =
     (case s of
        [] \<Rightarrow> ([], s)
      | c # t \<Rightarrow> if c = CHR ''+'' \<or> c = CHR ''-'' then ([c], t) else ([], s))"

definition numExp :: "string \<Rightarrow> (string \<times> string) option" where
  "numExp s =
     (case s of
        [] \<Rightarrow> Some ([], s)
      | c # t \<Rightarrow>
          if c = CHR ''e'' \<or> c = CHR ''E'' then
            (case numSign t of (sg, t') \<Rightarrow>
               map_option (\<lambda>(ds, r). (c # sg @ ds, r)) (someDigits t'))
          else Some ([], s))"

definition lexNumber :: "string \<Rightarrow> (string \<times> string) option" where
  "lexNumber s =
     (let (m, s1) = (case s of
                       [] \<Rightarrow> ([], s)
                     | c # t \<Rightarrow> if c = CHR ''-'' then ([c], t) else ([], s)) in
      case numInt s1 of
        None \<Rightarrow> None
      | Some (i, s2) \<Rightarrow>
          (case numFrac s2 of
             None \<Rightarrow> None
           | Some (f, s3) \<Rightarrow>
               (case numExp s3 of
                  None \<Rightarrow> None
                | Some (e, s4) \<Rightarrow> Some (m @ i @ f @ e, s4))))"

datatype token =
    TokScalar json
  | TokOpenArray
  | TokCloseArray
  | TokOpenObject
  | TokCloseObject
  | TokComma
  | TokColon

definition lexWord :: "string \<Rightarrow> json \<Rightarrow> string \<Rightarrow> (token \<times> string) option" where
  "lexWord w v s = map_option (\<lambda>r. (TokScalar v, r)) (cutPrefix w s)"

definition nextToken :: "string \<Rightarrow> (token \<times> string) option" where
  "nextToken s0 =
     (let s = skipWs s0 in
      case s of
        [] \<Rightarrow> None
      | c # t \<Rightarrow>
          if c = CHR ''['' then Some (TokOpenArray, t)
          else if c = CHR '']'' then Some (TokCloseArray, t)
          else if c = CHR ''{'' then Some (TokOpenObject, t)
          else if c = CHR ''}'' then Some (TokCloseObject, t)
          else if c = CHR '','' then Some (TokComma, t)
          else if c = CHR '':'' then Some (TokColon, t)
          else if c = CHR 0x22 then map_option (\<lambda>(x, r). (TokScalar (JStr x), r)) (lexString t)
          else if c = CHR ''t'' then lexWord ''true'' (JBool True) s
          else if c = CHR ''f'' then lexWord ''false'' (JBool False) s
          else if c = CHR ''n'' then lexWord ''null'' JNull s
          else map_option (\<lambda>(x, r). (TokScalar (JNum x), r)) (lexNumber s))"

lemma someDigits_shorter: "someDigits s = Some (x, t) \<Longrightarrow> length t < length s"
proof -
  assume "someDigits s = Some (x, t)"
  then have "takeWhile isDigit s \<noteq> []" "t = drop (length (takeWhile isDigit s)) s"
    by (auto simp: someDigits_def Let_def split: if_splits)
  then show ?thesis by (cases s) (auto split: if_splits)
qed

lemma numInt_shorter: "numInt s = Some (x, t) \<Longrightarrow> length t < length s"
  by (auto simp: numInt_def split: list.splits if_splits dest: someDigits_shorter)

lemma numFrac_shorter: "numFrac s = Some (x, t) \<Longrightarrow> length t \<le> length s"
  by (auto simp: numFrac_def split: list.splits if_splits dest: someDigits_shorter)

lemma numSign_shorter: "length (snd (numSign s)) \<le> length s"
  by (auto simp: numSign_def split: list.splits)

lemma numExp_shorter: "numExp s = Some (x, t) \<Longrightarrow> length t \<le> length s"
proof (cases s)
  case (Cons c u)
  assume "numExp s = Some (x, t)"
  then show ?thesis
    using Cons numSign_shorter [of u]
    by (auto simp: numExp_def split: if_splits prod.splits dest: someDigits_shorter)
qed (simp add: numExp_def)

lemma lexNumber_shorter: "lexNumber s = Some (x, t) \<Longrightarrow> length t < length s"
  by (auto simp: lexNumber_def Let_def split: list.splits if_splits option.splits prod.splits
      dest!: numInt_shorter numFrac_shorter numExp_shorter)

lemma skipWs_length: "length (skipWs s) \<le> length s"
  by (simp add: skipWs_def length_dropWhile_le)

lemma nextToken_shorter: "nextToken s = Some (k, t) \<Longrightarrow> length t < length s"
proof -
  assume k: "nextToken s = Some (k, t)"
  then obtain c u where cu: "skipWs s = c # u"
    by (cases "skipWs s") (auto simp: nextToken_def Let_def)
  have "length t < length (skipWs s)"
    using k cu unfolding nextToken_def Let_def
    by (auto simp: lexWord_def cutPrefix_eq_Some split: if_splits
        dest!: lexString_shorter lexNumber_shorter)
  then show ?thesis using skipWs_length [of s] by simp
qed

subsection \<open>The reader\<close>

definition maxNestingDepth :: nat where
  "maxNestingDepth = 10000"

datatype frame =
    InArray "json list"
  | InObject "(string \<times> json) list"
  | InField string "(string \<times> json) list"

datatype expect =
    ExpectValue
  | ExpectFirst
  | ExpectFirstKey
  | ExpectKey
  | ExpectColon string
  | ExpectComma

text \<open>A finished value: it goes to the innermost open container, or it is the value read.\<close>

fun complete :: "json \<Rightarrow> frame list \<Rightarrow> json + frame list" where
  "complete v [] = Inl v"
| "complete v (InArray vs # fs) = Inr (InArray (v # vs) # fs)"
| "complete v (InField k ms # fs) = Inr (InObject ((k, v) # ms) # fs)"
| "complete v (InObject ms # fs) = Inr (InObject ms # fs)"

datatype readerMove = Refuse | Value json "frame list" | Go expect "frame list"

fun move :: "nat \<Rightarrow> expect \<Rightarrow> frame list \<Rightarrow> token \<Rightarrow> readerMove" where
  "move depth ExpectFirst (InArray [] # fs) TokCloseArray = Value (JArr []) fs"
| "move depth ExpectFirstKey (InObject [] # fs) TokCloseObject = Value (JObj []) fs"
| "move depth e fs tok =
     (if e = ExpectValue \<or> e = ExpectFirst then
        (case tok of
           TokScalar v \<Rightarrow> Value v fs
         | TokOpenArray \<Rightarrow> if length fs < depth then Go ExpectFirst (InArray [] # fs) else Refuse
         | TokOpenObject \<Rightarrow> if length fs < depth then Go ExpectFirstKey (InObject [] # fs) else Refuse
         | _ \<Rightarrow> Refuse)
      else if e = ExpectFirstKey \<or> e = ExpectKey then
        (case tok of TokScalar (JStr k) \<Rightarrow> Go (ExpectColon k) fs | _ \<Rightarrow> Refuse)
      else case e of
        ExpectColon k \<Rightarrow>
          (case (tok, fs) of
             (TokColon, InObject ms # fs') \<Rightarrow> Go ExpectValue (InField k ms # fs')
           | _ \<Rightarrow> Refuse)
      | _ \<Rightarrow>
          (case (tok, fs) of
             (TokComma, InArray _ # _) \<Rightarrow> Go ExpectValue fs
           | (TokComma, InObject _ # _) \<Rightarrow> Go ExpectKey fs
           | (TokCloseArray, InArray vs # fs') \<Rightarrow> Value (JArr (rev vs)) fs'
           | (TokCloseObject, InObject ms # fs') \<Rightarrow> Value (JObj (rev ms)) fs'
           | _ \<Rightarrow> Refuse))"

function readJson :: "nat \<Rightarrow> expect \<Rightarrow> frame list \<Rightarrow> string \<Rightarrow> (json \<times> string) option" where
  "readJson depth e fs s =
     (case nextToken s of
        None \<Rightarrow> None
      | Some (tok, t) \<Rightarrow>
          (case move depth e fs tok of
             Refuse \<Rightarrow> None
           | Go e' fs' \<Rightarrow> readJson depth e' fs' t
           | Value v fs' \<Rightarrow>
               (case complete v fs' of
                  Inl v \<Rightarrow> Some (v, t)
                | Inr fs'' \<Rightarrow> readJson depth ExpectComma fs'' t)))"
  by pat_completeness auto
termination
  by (relation "measure (\<lambda>(depth, e, fs, s). length s)") (auto dest: nextToken_shorter)

declare readJson.simps [simp del]

text \<open>\<^verbatim>\<open>json.Unmarshal\<close> into an untyped value: one value and nothing but space after it.\<close>

definition unmarshalJson :: "string \<Rightarrow> json option" where
  "unmarshalJson s =
     (case readJson maxNestingDepth ExpectValue [] s of
        Some (v, r) \<Rightarrow> if skipWs r = [] then Some v else None
      | None \<Rightarrow> None)"

text \<open>A key's value in the Go map an object decodes to: the last one given.\<close>

definition member :: "string \<Rightarrow> (string \<times> json) list \<Rightarrow> json option" where
  "member k ms = map_of (rev ms) k"

lemma unmarshal_sample: "unmarshalJson ''{ \"a\" : [1, -2.5e3, \"x\", true], \"a\": {\"b\": null} }''
    = Some (JObj [(''a'', JArr [JNum ''1'', JNum ''-2.5e3'', JStr ''x'', JBool True]),
                  (''a'', JObj [(''b'', JNull)])])"
  by code_simp

subsection \<open>Writing\<close>

text \<open>
  \<^verbatim>\<open>json.Marshal\<close>: no space, the characters \<^verbatim>\<open><\<close>, \<^verbatim>\<open>>\<close> and \<^verbatim>\<open>&\<close> and the separators U+2028 and U+2029
  escaped, bytes that are no UTF-8 as U+FFFD.
\<close>

definition unicodeText :: "nat \<Rightarrow> string" where
  "unicodeText n =
     [CHR 0x5C, CHR ''u'', hexDigit (n div 4096 mod 16), hexDigit (n div 256 mod 16),
      hexDigit (n div 16 mod 16), hexDigit (n mod 16)]"

definition escapeByte :: "char \<Rightarrow> string" where
  "escapeByte c =
     (if c = CHR 0x22 \<or> c = CHR 0x5C then [CHR 0x5C, c]
      else if c = CHR 0x08 then [CHR 0x5C, CHR ''b'']
      else if c = CHR 0x0C then [CHR 0x5C, CHR ''f'']
      else if c = CHR 0x0A then [CHR 0x5C, CHR ''n'']
      else if c = CHR 0x0D then [CHR 0x5C, CHR ''r'']
      else if c = CHR 0x09 then [CHR 0x5C, CHR ''t'']
      else if charNat c < 0x20 \<or> c = CHR ''<'' \<or> c = CHR ''>'' \<or> c = CHR ''&''
      then unicodeText (charNat c)
      else [c])"

definition escapeRune :: "string \<Rightarrow> string" where
  "escapeRune s =
     (if s = encodeRune 0x2028 then unicodeText 0x2028
      else if s = encodeRune 0x2029 then unicodeText 0x2029
      else s)"

function escapeText :: "string \<Rightarrow> string" where
  "escapeText s =
     (case s of
        [] \<Rightarrow> []
      | c # t \<Rightarrow>
          if charNat c < 0x80 then escapeByte c @ escapeText t
          else let n = runeLen (map charNat s) in
            if n = 0 then unicodeText 0xFFFD @ escapeText t
            else escapeRune (take n s) @ escapeText (drop n s))"
  by auto
termination
  by (relation "measure length") auto

declare escapeText.simps [simp del]

definition quoteText :: "string \<Rightarrow> string" where
  "quoteText s = CHR 0x22 # escapeText s @ [CHR 0x22]"

fun joinComma :: "string list \<Rightarrow> string" where
  "joinComma [] = []"
| "joinComma [x] = x"
| "joinComma (x # xs) = x @ CHR '','' # joinComma xs"

fun printJson :: "json \<Rightarrow> string" where
  "printJson JNull = ''null''"
| "printJson (JBool b) = (if b then ''true'' else ''false'')"
| "printJson (JNum n) = n"
| "printJson (JStr s) = quoteText s"
| "printJson (JArr vs) = CHR ''['' # joinComma (map printJson vs) @ '']''"
| "printJson (JObj ms) =
     CHR ''{'' # joinComma (map (\<lambda>(k, v). quoteText k @ CHR '':'' # printJson v) ms) @ ''}''"

end
