(* ===== verification/RegisterSubgrove.thy ===== *)
theory RegisterSubgrove
  imports Json Uint128 SignedMessages
begin

text \<open>
  The registration of a subgrove (\<^verbatim>\<open>consensus/register_subgrove.go\<close>):
  the bincode encoder that walks the transaction's JSON.

  The encoder reads and writes at once, field by field.  The theory separates the two: a
  reader (\<open>readTx\<close>) gives the transaction the chain decodes, a \<open>ChainTx\<close>, and \<open>encTx\<close> is its
  bincode; the encoder of the code is the one after the other (\<open>registerSubgrove_refines\<close>).
  The bincode determines the transaction (the interpretations of \<open>prefix_free\<close>, one per
  type).
\<close>

subsection \<open>Reading fields\<close>

datatype bincodeError =
    BadJson
  | TrailingData
  | Want string string string
  | MissingField string
  | NotUint string string nat
  | NotU128 string uint128Error
  | NotAVariant string string
  | UnknownVariant string string
  | BothReaders string
  | WantBytes string nat
  | WantFour string

record jobject =
  objPath :: string
  objFields :: "(string \<times> json) list"

fun describe :: "json \<Rightarrow> string" where
  "describe JNull = ''null''"
| "describe (JStr s) = ''a string''"
| "describe (JNum s) = ''a number''"
| "describe (JBool b) = ''a boolean''"
| "describe (JArr vs) = ''an array''"
| "describe (JObj ms) = ''an object''"

fun asObject :: "json \<Rightarrow> string \<Rightarrow> bincodeError + jobject" where
  "asObject (JObj ms) path = Inr \<lparr>objPath = path, objFields = ms\<rparr>"
| "asObject v path = Inl (Want path ''an object'' (describe v))"

definition atField :: "jobject \<Rightarrow> string \<Rightarrow> string" where
  "atField ob name = objPath ob @ ''.'' @ name"

definition lookupField :: "jobject \<Rightarrow> string \<Rightarrow> json option" where
  "lookupField ob name = member name (objFields ob)"

definition getField :: "jobject \<Rightarrow> string \<Rightarrow> bincodeError + json" where
  "getField ob name =
     (case lookupField ob name of None \<Rightarrow> Inl (MissingField (atField ob name)) | Some v \<Rightarrow> Inr v)"

fun asString :: "json \<Rightarrow> string \<Rightarrow> bincodeError + string" where
  "asString (JStr s) path = Inr s"
| "asString v path = Inl (Want path ''a string'' (describe v))"

definition elemPath :: "string \<Rightarrow> nat \<Rightarrow> string" where
  "elemPath path i = path @ ''['' @ formatUint i @ '']''"

fun asStrings :: "json \<Rightarrow> string \<Rightarrow> bincodeError + string list" where
  "asStrings (JArr vs) path = mapR (\<lambda>(i, x). asString x (elemPath path i)) (enumerate 0 vs)"
| "asStrings v path = Inl (Want path ''an array of strings'' (describe v))"

definition fieldStr :: "jobject \<Rightarrow> string \<Rightarrow> bincodeError + string" where
  "fieldStr ob name = bindR (getField ob name) (\<lambda>v. asString v (atField ob name))"

definition fieldStrOr :: "jobject \<Rightarrow> string \<Rightarrow> string \<Rightarrow> bincodeError + string" where
  "fieldStrOr ob name dflt =
     (case lookupField ob name of None \<Rightarrow> Inr dflt | Some v \<Rightarrow> asString v (atField ob name))"

definition fieldStrs :: "jobject \<Rightarrow> string \<Rightarrow> bincodeError + string list" where
  "fieldStrs ob name = bindR (getField ob name) (\<lambda>v. asStrings v (atField ob name))"

definition fieldStrsOrEmpty :: "jobject \<Rightarrow> string \<Rightarrow> bincodeError + string list" where
  "fieldStrsOrEmpty ob name =
     (case lookupField ob name of None \<Rightarrow> Inr [] | Some v \<Rightarrow> asStrings v (atField ob name))"

fun asUint :: "json \<Rightarrow> nat \<Rightarrow> string \<Rightarrow> bincodeError + nat" where
  "asUint (JNum n) bits path =
     (case parseUint bits n of None \<Rightarrow> Inl (NotUint path n bits) | Some x \<Rightarrow> Inr x)"
| "asUint v bits path = Inl (Want path ''a number'' (describe v))"

definition fieldUint :: "jobject \<Rightarrow> string \<Rightarrow> nat \<Rightarrow> bincodeError + nat" where
  "fieldUint ob name bits = bindR (getField ob name) (\<lambda>v. asUint v bits (atField ob name))"

definition fieldUintOr :: "jobject \<Rightarrow> string \<Rightarrow> nat \<Rightarrow> nat \<Rightarrow> bincodeError + nat" where
  "fieldUintOr ob name bits dflt =
     (case lookupField ob name of None \<Rightarrow> Inr dflt | Some v \<Rightarrow> asUint v bits (atField ob name))"

definition u128Text :: "string \<Rightarrow> string \<Rightarrow> bincodeError + Uint128" where
  "u128Text text path =
     (case ParseUint128 text of Inl e \<Rightarrow> Inl (NotU128 path e) | Inr u \<Rightarrow> Inr u)"

fun asU128 :: "json \<Rightarrow> string \<Rightarrow> bool \<Rightarrow> bincodeError + Uint128" where
  "asU128 (JNum n) path stringToo = u128Text n path"
| "asU128 (JStr s) path stringToo =
     (if stringToo then u128Text s path else Inl (Want path ''a number'' ''a string''))"
| "asU128 v path stringToo = Inl (Want path ''a number'' (describe v))"

fun asBool :: "json \<Rightarrow> string \<Rightarrow> bincodeError + bool" where
  "asBool (JBool b) path = Inr b"
| "asBool v path = Inl (Want path ''a boolean'' (describe v))"

definition fieldBoolOr :: "jobject \<Rightarrow> string \<Rightarrow> bool \<Rightarrow> bincodeError + bool" where
  "fieldBoolOr ob name dflt =
     (case lookupField ob name of None \<Rightarrow> Inr dflt | Some v \<Rightarrow> asBool v (atField ob name))"

definition fieldBool :: "jobject \<Rightarrow> string \<Rightarrow> bincodeError + bool" where
  "fieldBool ob name = bindR (getField ob name) (\<lambda>_. fieldBoolOr ob name False)"

fun asBytes :: "json \<Rightarrow> string \<Rightarrow> bincodeError + bytes" where
  "asBytes (JArr vs) path =
     mapR (\<lambda>(i, x). bindR (asUint x 8 (elemPath path i)) (\<lambda>b. Inr (of_nat b))) (enumerate 0 vs)"
| "asBytes v path = Inl (Want path ''an array of byte values'' (describe v))"

definition fieldBytes :: "jobject \<Rightarrow> string \<Rightarrow> bincodeError + bytes" where
  "fieldBytes ob name = bindR (getField ob name) (\<lambda>v. asBytes v (atField ob name))"

text \<open>An externally tagged enum: \<^verbatim>\<open>"Variant"\<close>, or an object of exactly one key.\<close>

fun enumParts :: "json \<Rightarrow> string \<Rightarrow> bincodeError + (string \<times> json)" where
  "enumParts (JStr s) path = Inr (s, JNull)"
| "enumParts (JObj ms) path =
     (case remdups (map fst ms) of
        [name] \<Rightarrow>
          (case member name ms of
             Some payload \<Rightarrow> Inr (name, payload)
           | None \<Rightarrow> Inl (NotAVariant path ''an object''))
      | _ \<Rightarrow> Inl (NotAVariant path ''an object''))"
| "enumParts v path = Inl (NotAVariant path (describe v))"

subsection \<open>Writing values\<close>

definition putU8 :: "nat \<Rightarrow> bytes" where
  "putU8 n = leBytes 1 n"

definition putU32 :: "nat \<Rightarrow> bytes" where
  "putU32 n = leBytes 4 n"

definition putU64 :: "nat \<Rightarrow> bytes" where
  "putU64 n = leBytes 8 n"

definition putU128 :: "Uint128 \<Rightarrow> bytes" where
  "putU128 u = appendLittleEndian u []"

definition putBool :: "bool \<Rightarrow> bytes" where
  "putBool b = putU8 (if b then 1 else 0)"

definition putBytes :: "bytes \<Rightarrow> bytes" where
  "putBytes b = putU64 (length b) @ b"

definition putStr :: "string \<Rightarrow> bytes" where
  "putStr s = putBytes (stringBytes s)"

definition putStrs :: "string list \<Rightarrow> bytes" where
  "putStrs xs = putU64 (length xs) @ concat (map putStr xs)"

text \<open>\<^verbatim>\<open>option\<close>: an absent or null field is \<^verbatim>\<open>None\<close>.\<close>

definition optionField ::
  "jobject \<Rightarrow> string \<Rightarrow> (json \<Rightarrow> string \<Rightarrow> bincodeError + bytes) \<Rightarrow> bincodeError + bytes" where
  "optionField ob name write =
     (case lookupField ob name of
        None \<Rightarrow> Inr (putU8 0)
      | Some v \<Rightarrow>
          if v = JNull then Inr (putU8 0)
          else bindR (write v (atField ob name)) (\<lambda>b. Inr (putU8 1 @ b)))"

primrec variantIndex :: "string \<Rightarrow> string list \<Rightarrow> nat \<Rightarrow> nat option" where
  "variantIndex name [] i = None"
| "variantIndex name (v # vs) i = (if v = name then Some i else variantIndex name vs (Suc i))"

definition variant :: "string \<Rightarrow> string list \<Rightarrow> string \<Rightarrow> bincodeError + bytes" where
  "variant name variants path =
     (case variantIndex name variants 0 of
        Some i \<Rightarrow> Inr (putU32 i)
      | None \<Rightarrow> Inl (UnknownVariant path name))"

fun unitVariant :: "json \<Rightarrow> string list \<Rightarrow> string \<Rightarrow> bincodeError + bytes" where
  "unitVariant (JStr name) variants path = variant name variants path"
| "unitVariant v variants path = Inl (Want path ''a variant'' (describe v))"

definition teeTypes :: "string list" where
  "teeTypes = [''AwsNitro'', ''IntelSgx'', ''AmdSev'']"

definition subgroveModes :: "string list" where
  "subgroveModes = [''DataStorage'', ''FileStorage'', ''BlockchainIndexing'']"

definition commitmentFrequencies :: "string list" where
  "commitmentFrequencies = [''EveryUpdate'', ''EveryNBlocks'', ''EveryNSeconds'', ''Never'']"

definition executionModes :: "string list" where
  "executionModes = [''ConsensusExecution'', ''IndexerExecution'', ''TeeExecution'']"

definition retentionWindows :: "string list" where
  "retentionWindows = [''Blocks'', ''Seconds'', ''Indefinite'', ''VerifyOnly'']"

definition historicalAuthModes :: "string list" where
  "historicalAuthModes = [''BftEquivalent'', ''CanonizedAccumulator'']"

definition defaultEpochLength :: nat where
  "defaultEpochLength = 100"

subsection \<open>The encoder\<close>

definition readPricing :: "json \<Rightarrow> string \<Rightarrow> bincodeError + bytes" where
  "readPricing v path =
     bindR (asObject v path) (\<lambda>p.
     bindR (fieldBool p ''enabled'') (\<lambda>enabled.
     bindR (getField p ''price_per_query'') (\<lambda>price.
     bindR (asU128 price (atField p ''price_per_query'') False) (\<lambda>u.
     bindR (fieldUint p ''owner_revenue_share_bps'' 32) (\<lambda>share.
       Inr (putBool enabled @ putU128 u @ putU32 share))))))"

definition freeReadersField :: "jobject \<Rightarrow> bincodeError + string list" where
  "freeReadersField m =
     (case (lookupField m ''free_readers'', lookupField m ''readers'') of
        (Some _, Some _) \<Rightarrow> Inl (BothReaders (objPath m))
      | (_, Some readers) \<Rightarrow> asStrings readers (atField m ''readers'')
      | (Some free, None) \<Rightarrow> asStrings free (atField m ''free_readers'')
      | (None, None) \<Rightarrow> Inl (MissingField (atField m ''free_readers'')))"

definition dataStorage :: "jobject \<Rightarrow> bincodeError + bytes" where
  "dataStorage m =
     bindR (fieldStr m ''name'') (\<lambda>modeName.
     bindR (fieldStrs m ''writers'') (\<lambda>writers.
     bindR (freeReadersField m) (\<lambda>free.
     bindR (optionField m ''read_pricing'' readPricing) (\<lambda>pricing.
       Inr (putStr modeName @ putStrs writers @ putStrs free @ pricing)))))"

definition fileStorage :: "jobject \<Rightarrow> bincodeError + bytes" where
  "fileStorage m =
     bindR (fieldStr m ''name'') (\<lambda>modeName.
     bindR (fieldUint m ''max_file_size'' 64) (\<lambda>maxFileSize.
     bindR (fieldUint m ''replication_factor'' 8) (\<lambda>replication.
     bindR (fieldStrs m ''writers'') (\<lambda>writers.
     bindR (fieldStrs m ''free_readers'') (\<lambda>free.
     bindR (optionField m ''read_pricing'' readPricing) (\<lambda>pricing.
     bindR (fieldUintOr m ''retention_period'' 64 0) (\<lambda>retention.
       Inr (putStr modeName @ putU64 maxFileSize @ putU8 replication @ putStrs writers
            @ putStrs free @ pricing @ putU64 retention))))))))"

fun asArray :: "json \<Rightarrow> string \<Rightarrow> bincodeError + json list" where
  "asArray (JArr vs) path = Inr vs"
| "asArray v path = Inl (Want path ''an array'' (describe v))"

definition fieldArrayOrEmpty :: "jobject \<Rightarrow> string \<Rightarrow> bincodeError + json list" where
  "fieldArrayOrEmpty ob name =
     (case lookupField ob name of None \<Rightarrow> Inr [] | Some v \<Rightarrow> asArray v (atField ob name))"

definition wasmModule :: "json \<Rightarrow> string \<Rightarrow> bincodeError + bytes" where
  "wasmModule mv path =
     bindR (asObject mv path) (\<lambda>module.
     bindR (fieldStr module ''name'') (\<lambda>name.
     bindR (fieldBytes module ''hash'') (\<lambda>hash.
     bindR (ensureR (length hash = 32) (WantBytes (atField module ''hash'') (length hash))) (\<lambda>_.
     bindR (fieldBytes module ''content'') (\<lambda>content.
       Inr (putStr name @ hash @ putBytes content))))))"

definition executionMode :: "json \<Rightarrow> string \<Rightarrow> bincodeError + bytes" where
  "executionMode ev path =
     bindR (enumParts ev path) (\<lambda>(exName, exPayload).
     bindR (variant exName executionModes path) (\<lambda>tag.
       if exName = ''IndexerExecution'' then
         bindR (asObject exPayload (path @ ''.'' @ exName)) (\<lambda>ex.
         bindR (fieldUint ex ''sampling_rate_percent'' 8) (\<lambda>rate.
           Inr (tag @ putU8 rate)))
       else if exName = ''TeeExecution'' then
         bindR (asObject exPayload (path @ ''.'' @ exName)) (\<lambda>ex.
         bindR (getField ex ''tee_type'') (\<lambda>tee.
         bindR (unitVariant tee teeTypes (atField ex ''tee_type'')) (\<lambda>t.
           Inr (tag @ t))))
       else Inr tag))"

definition indexerConfig :: "json \<Rightarrow> string \<Rightarrow> bincodeError + bytes" where
  "indexerConfig icv path =
     bindR (asObject icv path) (\<lambda>ic.
     bindR (fieldUint ic ''min_indexers'' 8) (\<lambda>minIndexers.
     bindR (fieldUint ic ''max_indexers'' 8) (\<lambda>maxIndexers.
     bindR (getField ic ''reward_per_epoch'') (\<lambda>rewardV.
     bindR (asU128 rewardV (atField ic ''reward_per_epoch'') True) (\<lambda>reward.
     bindR (fieldUintOr ic ''epoch_length'' 64 defaultEpochLength) (\<lambda>epochLength.
     bindR (getField ic ''min_indexer_stake'') (\<lambda>stakeV.
     bindR (asU128 stakeV (atField ic ''min_indexer_stake'') True) (\<lambda>stake.
       Inr (putU8 minIndexers @ putU8 maxIndexers @ putU128 reward @ putU64 epochLength
            @ putU128 stake)))))))))"

definition retentionWindow :: "json \<Rightarrow> string \<Rightarrow> bincodeError + bytes" where
  "retentionWindow rv path =
     bindR (enumParts rv path) (\<lambda>(rwName, rwValue).
     bindR (variant rwName retentionWindows path) (\<lambda>tag.
       if rwName = ''Blocks'' \<or> rwName = ''Seconds'' then
         bindR (asUint rwValue 64 (path @ ''.'' @ rwName)) (\<lambda>n. Inr (tag @ putU64 n))
       else Inr tag))"

text \<open>The four words of a configuration hash.\<close>

fun configHash :: "json \<Rightarrow> string \<Rightarrow> bincodeError + nat list" where
  "configHash (JArr vs) path =
     (if length vs \<noteq> 4 then Inl (WantFour path)
      else mapR (\<lambda>(i, x). asUint x 32 (elemPath path i)) (enumerate 0 vs))"
| "configHash v path = Inl (WantFour path)"

definition completenessConfig :: "json \<Rightarrow> string \<Rightarrow> bincodeError + bytes" where
  "completenessConfig v path =
     bindR (asObject v path) (\<lambda>c.
     bindR (getField c ''log_config_hash'') (\<lambda>lv.
     bindR (configHash lv (atField c ''log_config_hash'')) (\<lambda>log.
     bindR (getField c ''tx_config_hash'') (\<lambda>tv.
     bindR (configHash tv (atField c ''tx_config_hash'')) (\<lambda>txs.
     bindR (fieldBoolOr c ''deferred'' False) (\<lambda>deferred.
     bindR (case lookupField c ''bond_amount'' of
              None \<Rightarrow> Inr (NewUint128 0)
            | Some bv \<Rightarrow> asU128 bv (atField c ''bond_amount'') False) (\<lambda>bond.
       Inr (concat (map putU32 log) @ concat (map putU32 txs) @ putBool deferred @ putU128 bond))))))))"

definition orField ::
  "jobject \<Rightarrow> string \<Rightarrow> bytes \<Rightarrow> (json \<Rightarrow> string \<Rightarrow> bincodeError + bytes) \<Rightarrow> bincodeError + bytes" where
  "orField ob name dflt write =
     (case lookupField ob name of None \<Rightarrow> Inr dflt | Some v \<Rightarrow> write v (atField ob name))"

definition blockchainIndexing :: "jobject \<Rightarrow> bincodeError + bytes" where
  "blockchainIndexing m =
     bindR (fieldBytes m ''manifest_content'') (\<lambda>manifest.
     bindR (fieldArrayOrEmpty m ''wasm_modules'') (\<lambda>modules.
     bindR (mapR (\<lambda>(i, mv). wasmModule mv (elemPath (atField m ''wasm_modules'') i))
              (enumerate 0 modules)) (\<lambda>encoded.
     bindR (getField m ''execution_mode'') (\<lambda>ev.
     bindR (executionMode ev (atField m ''execution_mode'')) (\<lambda>execution.
     bindR (getField m ''indexer_config'') (\<lambda>icv.
     bindR (indexerConfig icv (atField m ''indexer_config'')) (\<lambda>indexer.
     bindR (orField m ''retention_window'' (putU32 2) retentionWindow) (\<lambda>retention.
     bindR (optionField m ''completeness'' completenessConfig) (\<lambda>completeness.
     bindR (orField m ''historical_auth_mode'' (putU32 0)
              (\<lambda>v. unitVariant v historicalAuthModes)) (\<lambda>auth.
       Inr (putBytes manifest @ putU64 (length modules) @ concat encoded @ execution @ indexer
            @ retention @ completeness @ auth)))))))))))"

definition subgroveMode :: "json \<Rightarrow> string \<Rightarrow> bincodeError + bytes" where
  "subgroveMode v path =
     bindR (enumParts v path) (\<lambda>(name, payload).
     bindR (variant name subgroveModes path) (\<lambda>tag.
     bindR (asObject payload (path @ ''.'' @ name)) (\<lambda>m.
     bindR (if name = ''DataStorage'' then dataStorage m
            else if name = ''FileStorage'' then fileStorage m
            else blockchainIndexing m) (\<lambda>body.
       Inr (tag @ body)))))"

definition privacy :: "json \<Rightarrow> string \<Rightarrow> bincodeError + bytes" where
  "privacy v path =
     bindR (asObject v path) (\<lambda>p.
     bindR (optionField p ''allowed_indexers''
              (\<lambda>v path. bindR (asStrings v path) (\<lambda>xs. Inr (putStrs xs)))) (\<lambda>allowed.
     bindR (getField p ''commitment_frequency'') (\<lambda>cv.
     bindR (enumParts cv (atField p ''commitment_frequency'')) (\<lambda>(name, n).
     bindR (variant name commitmentFrequencies (atField p ''commitment_frequency'')) (\<lambda>tag.
       if name = ''EveryNBlocks'' \<or> name = ''EveryNSeconds'' then
         bindR (asUint n 64 (atField p ''commitment_frequency'' @ ''.'' @ name)) (\<lambda>x.
           Inr (allowed @ tag @ putU64 x))
       else Inr (allowed @ tag))))))"

definition keyGrant :: "json \<Rightarrow> string \<Rightarrow> bincodeError + bytes" where
  "keyGrant v path =
     bindR (asObject v path) (\<lambda>g.
     bindR (fieldStr g ''grantee_did'') (\<lambda>grantee.
     bindR (fieldUint g ''key_epoch'' 32) (\<lambda>epoch.
     bindR (fieldStr g ''grantee_public_key_id'') (\<lambda>keyID.
     bindR (fieldBytes g ''ephemeral_public_key'') (\<lambda>ephemeral.
     bindR (fieldBytes g ''encrypted_key'') (\<lambda>encrypted.
     bindR (fieldStr g ''granted_by'') (\<lambda>grantedBy.
     bindR (fieldUint g ''granted_at'' 64) (\<lambda>grantedAt.
       Inr (putStr grantee @ putU32 epoch @ putStr keyID @ putBytes ephemeral @ putBytes encrypted
            @ putStr grantedBy @ putU64 grantedAt)))))))))"

definition templateConfig :: "json \<Rightarrow> string \<Rightarrow> bincodeError + bytes" where
  "templateConfig v path =
     bindR (asObject v path) (\<lambda>c.
     bindR (fieldStr c ''template_id'') (\<lambda>templateID.
     bindR (fieldUint c ''template_version'' 32) (\<lambda>version.
     bindR (fieldStr c ''variant_id'') (\<lambda>variantID.
     bindR (fieldBytes c ''parameters'') (\<lambda>parameters.
     bindR (fieldStrs c ''contracts'') (\<lambda>contracts.
     bindR (fieldStrs c ''event_signatures'') (\<lambda>events.
     bindR (optionField c ''chain''
              (\<lambda>v path. bindR (asString v path) (\<lambda>s. Inr (putStr s)))) (\<lambda>chain.
       Inr (putStr templateID @ putU32 version @ putStr variantID @ putBytes parameters
            @ putStrs contracts @ putStrs events @ chain)))))))))"

definition checkpointVerification :: "json \<Rightarrow> string \<Rightarrow> bincodeError + bytes" where
  "checkpointVerification cv path =
     bindR (asObject cv path) (\<lambda>c. optionField c ''required_tee'' (\<lambda>v. unitVariant v teeTypes))"

definition defaultMode :: bytes where
  "defaultMode = putU32 0 @ putStr [] @ putStrs [] @ putStrs [] @ putU8 0"

definition registerSubgrove :: "json \<Rightarrow> bincodeError + bytes" where
  "registerSubgrove v =
     bindR (asObject v ''RegisterSubgrove'') (\<lambda>t.
     bindR (fieldStr t ''subgrove_id'') (\<lambda>subgroveID.
     bindR (fieldStr t ''name'') (\<lambda>name.
     bindR (fieldStrOr t ''description'' []) (\<lambda>description.
     bindR (fieldStr t ''schema'') (\<lambda>schema.
     bindR (fieldStr t ''owner_did'') (\<lambda>owner.
     bindR (fieldStrsOrEmpty t ''admins'') (\<lambda>admins.
     bindR (optionField t ''initial_funding''
              (\<lambda>v path. bindR (asU128 v path True) (\<lambda>u. Inr (putU128 u)))) (\<lambda>funding.
     bindR (orField t ''checkpoint_verification'' (putU8 0) checkpointVerification) (\<lambda>checkpoint.
     bindR (orField t ''mode'' defaultMode subgroveMode) (\<lambda>mode.
     bindR (optionField t ''privacy'' privacy) (\<lambda>priv.
     bindR (optionField t ''initial_owner_key_grant'' keyGrant) (\<lambda>grant.
     bindR (optionField t ''template_config'' templateConfig) (\<lambda>template.
     bindR (fieldUintOr t ''confirmation_depth'' 32 0) (\<lambda>depth.
     bindR (fieldBytes t ''signature'') (\<lambda>_.
     bindR (fieldStr t ''public_key_id'') (\<lambda>publicKeyID.
     bindR (fieldUint t ''nonce'' 64) (\<lambda>nonce.
     bindR (fieldBoolOr t ''cryptographic_completeness'' False) (\<lambda>completeness.
       Inr (putStr subgroveID @ putStr name @ putStr description @ putStr schema @ putStr owner
            @ putStrs admins @ funding @ checkpoint @ mode @ priv @ grant @ template
            @ putU32 depth @ putBytes [] @ putStr publicKeyID @ putU64 nonce
            @ putBool completeness)))))))))))))))))))"

text \<open>
  \<^verbatim>\<open>decodeExact\<close>: \<^verbatim>\<open>Decoder.More\<close> answers no before a closing bracket, so text that goes on
  with one is not refused.
\<close>

definition decodeExact :: "string \<Rightarrow> bincodeError + json" where
  "decodeExact data =
     (case readJson maxNestingDepth ExpectValue [] data of
        None \<Rightarrow> Inl BadJson
      | Some (v, r) \<Rightarrow>
          (case skipWs r of
             [] \<Rightarrow> Inr v
           | c # _ \<Rightarrow> if c = CHR '']'' \<or> c = CHR ''}'' then Inr v else Inl TrailingData))"

definition RegisterSubgroveUnsignedBincode :: "string \<Rightarrow> bincodeError + bytes" where
  "RegisterSubgroveUnsignedBincode txJSON = bindR (decodeExact txJSON) registerSubgrove"

subsection \<open>The transaction the chain decodes\<close>

text \<open>
  The specification: the chain's transaction as a value, how it is read from the JSON, and
  its bincode.
\<close>

datatype TeeType = AwsNitro | IntelSgx | AmdSev

record Pricing =
  prEnabled :: bool
  prPrice :: Uint128
  prShare :: u32

record WasmModule =
  wmName :: string
  wmHash :: bytes
  wmContent :: bytes

datatype ExecutionMode = ConsensusExecution | IndexerExecution byte | TeeExecution TeeType

record IndexerConfig =
  icMin :: byte
  icMax :: byte
  icReward :: Uint128
  icEpochLength :: u64
  icStake :: Uint128

datatype Retention = RetainBlocks u64 | RetainSeconds u64 | RetainIndefinite | RetainVerifyOnly

record Completeness =
  cpLog :: "u32 list"
  cpTx :: "u32 list"
  cpDeferred :: bool
  cpBond :: Uint128

datatype AuthMode = BftEquivalent | CanonizedAccumulator

datatype Mode =
    DataStorage string "string list" "string list" "Pricing option"
  | FileStorage string u64 byte "string list" "string list" "Pricing option" u64
  | BlockchainIndexing bytes "WasmModule list" ExecutionMode IndexerConfig Retention
      "Completeness option" AuthMode

datatype Frequency = EveryUpdate | EveryNBlocks u64 | EveryNSeconds u64 | NeverCommit

record Privacy =
  pvAllowed :: "string list option"
  pvFrequency :: Frequency

record Template =
  tpId :: string
  tpVersion :: u32
  tpVariant :: string
  tpParameters :: bytes
  tpContracts :: "string list"
  tpEvents :: "string list"
  tpChain :: "string option"

record ChainTx =
  ctSubgroveID :: string
  ctName :: string
  ctDescription :: string
  ctSchema :: string
  ctOwner :: string
  ctAdmins :: "string list"
  ctFunding :: "Uint128 option"
  ctRequiredTee :: "TeeType option"
  ctMode :: Mode
  ctPrivacy :: "Privacy option"
  ctGrant :: "EncryptedKeyGrant option"
  ctTemplate :: "Template option"
  ctDepth :: u32
  ctPublicKeyID :: string
  ctNonce :: u64
  ctCompleteness :: bool

text \<open>Bincode of the parts.\<close>

definition encOption :: "('a \<Rightarrow> bytes) \<Rightarrow> 'a option \<Rightarrow> bytes" where
  "encOption f x = (case x of None \<Rightarrow> putU8 0 | Some y \<Rightarrow> putU8 1 @ f y)"

definition encVec :: "('a \<Rightarrow> bytes) \<Rightarrow> 'a list \<Rightarrow> bytes" where
  "encVec f xs = putU64 (length xs) @ concat (map f xs)"

fun encTee :: "TeeType \<Rightarrow> bytes" where
  "encTee AwsNitro = putU32 0"
| "encTee IntelSgx = putU32 1"
| "encTee AmdSev = putU32 2"

definition encPricing :: "Pricing \<Rightarrow> bytes" where
  "encPricing p = putBool (prEnabled p) @ putU128 (prPrice p) @ putU32 (unat (prShare p))"

definition encModule :: "WasmModule \<Rightarrow> bytes" where
  "encModule m = putStr (wmName m) @ wmHash m @ putBytes (wmContent m)"

fun encExecution :: "ExecutionMode \<Rightarrow> bytes" where
  "encExecution ConsensusExecution = putU32 0"
| "encExecution (IndexerExecution r) = putU32 1 @ putU8 (unat r)"
| "encExecution (TeeExecution t) = putU32 2 @ encTee t"

definition encIndexer :: "IndexerConfig \<Rightarrow> bytes" where
  "encIndexer c =
     putU8 (unat (icMin c)) @ putU8 (unat (icMax c)) @ putU128 (icReward c)
     @ putU64 (unat (icEpochLength c)) @ putU128 (icStake c)"

fun encRetention :: "Retention \<Rightarrow> bytes" where
  "encRetention (RetainBlocks n) = putU32 0 @ putU64 (unat n)"
| "encRetention (RetainSeconds n) = putU32 1 @ putU64 (unat n)"
| "encRetention RetainIndefinite = putU32 2"
| "encRetention RetainVerifyOnly = putU32 3"

definition encCompleteness :: "Completeness \<Rightarrow> bytes" where
  "encCompleteness c =
     concat (map (\<lambda>w. putU32 (unat w)) (cpLog c)) @ concat (map (\<lambda>w. putU32 (unat w)) (cpTx c))
     @ putBool (cpDeferred c) @ putU128 (cpBond c)"

fun encAuth :: "AuthMode \<Rightarrow> bytes" where
  "encAuth BftEquivalent = putU32 0"
| "encAuth CanonizedAccumulator = putU32 1"

fun encMode :: "Mode \<Rightarrow> bytes" where
  "encMode (DataStorage name writers free pricing) =
     putU32 0 @ putStr name @ putStrs writers @ putStrs free @ encOption encPricing pricing"
| "encMode (FileStorage name maxSize replication writers free pricing retention) =
     putU32 1 @ putStr name @ putU64 (unat maxSize) @ putU8 (unat replication) @ putStrs writers
     @ putStrs free @ encOption encPricing pricing @ putU64 (unat retention)"
| "encMode (BlockchainIndexing manifest modules execution indexer retention completeness auth) =
     putU32 2 @ putBytes manifest @ encVec encModule modules @ encExecution execution
     @ encIndexer indexer @ encRetention retention @ encOption encCompleteness completeness
     @ encAuth auth"

fun encFrequency :: "Frequency \<Rightarrow> bytes" where
  "encFrequency EveryUpdate = putU32 0"
| "encFrequency (EveryNBlocks n) = putU32 1 @ putU64 (unat n)"
| "encFrequency (EveryNSeconds n) = putU32 2 @ putU64 (unat n)"
| "encFrequency NeverCommit = putU32 3"

definition encPrivacy :: "Privacy \<Rightarrow> bytes" where
  "encPrivacy p = encOption putStrs (pvAllowed p) @ encFrequency (pvFrequency p)"

definition encGrant :: "EncryptedKeyGrant \<Rightarrow> bytes" where
  "encGrant g =
     putStr (GranteeDID g) @ putU32 (unat (KeyEpoch g)) @ putStr (GranteePublicKeyID g)
     @ putBytes (EphemeralPublicKey g) @ putBytes (EncryptedKey g) @ putStr (GrantedBy g)
     @ putU64 (unat (GrantedAt g))"

definition encTemplate :: "Template \<Rightarrow> bytes" where
  "encTemplate t =
     putStr (tpId t) @ putU32 (unat (tpVersion t)) @ putStr (tpVariant t)
     @ putBytes (tpParameters t) @ putStrs (tpContracts t) @ putStrs (tpEvents t)
     @ encOption putStr (tpChain t)"

definition encTx :: "ChainTx \<Rightarrow> bytes" where
  "encTx t =
     putStr (ctSubgroveID t) @ putStr (ctName t) @ putStr (ctDescription t) @ putStr (ctSchema t)
     @ putStr (ctOwner t) @ putStrs (ctAdmins t) @ encOption putU128 (ctFunding t)
     @ encOption encTee (ctRequiredTee t) @ encMode (ctMode t) @ encOption encPrivacy (ctPrivacy t)
     @ encOption encGrant (ctGrant t) @ encOption encTemplate (ctTemplate t)
     @ putU32 (unat (ctDepth t)) @ putBytes [] @ putStr (ctPublicKeyID t)
     @ putU64 (unat (ctNonce t)) @ putBool (ctCompleteness t)"

subsection \<open>Reading the chain's transaction\<close>

text \<open>How the chain reads each part from the JSON; the fields are those the encoder walks.\<close>

definition optionRead ::
  "jobject \<Rightarrow> string \<Rightarrow> (json \<Rightarrow> string \<Rightarrow> bincodeError + 'a) \<Rightarrow> bincodeError + 'a option" where
  "optionRead ob name rd =
     (case lookupField ob name of
        None \<Rightarrow> Inr None
      | Some v \<Rightarrow>
          if v = JNull then Inr None else bindR (rd v (atField ob name)) (\<lambda>x. Inr (Some x)))"

definition orRead ::
  "jobject \<Rightarrow> string \<Rightarrow> 'a \<Rightarrow> (json \<Rightarrow> string \<Rightarrow> bincodeError + 'a) \<Rightarrow> bincodeError + 'a" where
  "orRead ob name dflt rd =
     (case lookupField ob name of None \<Rightarrow> Inr dflt | Some v \<Rightarrow> rd v (atField ob name))"

definition teeOf :: "json \<Rightarrow> string \<Rightarrow> bincodeError + TeeType" where
  "teeOf v path =
     bindR (unitVariant v teeTypes path) (\<lambda>_.
       Inr (if v = JStr ''AwsNitro'' then AwsNitro else if v = JStr ''IntelSgx'' then IntelSgx else AmdSev))"

definition authOf :: "json \<Rightarrow> string \<Rightarrow> bincodeError + AuthMode" where
  "authOf v path =
     bindR (unitVariant v historicalAuthModes path) (\<lambda>_.
       Inr (if v = JStr ''BftEquivalent'' then BftEquivalent else CanonizedAccumulator))"

definition pricingOf :: "json \<Rightarrow> string \<Rightarrow> bincodeError + Pricing" where
  "pricingOf v path =
     bindR (asObject v path) (\<lambda>p.
     bindR (fieldBool p ''enabled'') (\<lambda>enabled.
     bindR (getField p ''price_per_query'') (\<lambda>price.
     bindR (asU128 price (atField p ''price_per_query'') False) (\<lambda>u.
     bindR (fieldUint p ''owner_revenue_share_bps'' 32) (\<lambda>share.
       Inr \<lparr>prEnabled = enabled, prPrice = u, prShare = of_nat share\<rparr>)))))"

definition dataStorageOf :: "jobject \<Rightarrow> bincodeError + Mode" where
  "dataStorageOf m =
     bindR (fieldStr m ''name'') (\<lambda>modeName.
     bindR (fieldStrs m ''writers'') (\<lambda>writers.
     bindR (freeReadersField m) (\<lambda>free.
     bindR (optionRead m ''read_pricing'' pricingOf) (\<lambda>pricing.
       Inr (DataStorage modeName writers free pricing)))))"

definition fileStorageOf :: "jobject \<Rightarrow> bincodeError + Mode" where
  "fileStorageOf m =
     bindR (fieldStr m ''name'') (\<lambda>modeName.
     bindR (fieldUint m ''max_file_size'' 64) (\<lambda>maxFileSize.
     bindR (fieldUint m ''replication_factor'' 8) (\<lambda>replication.
     bindR (fieldStrs m ''writers'') (\<lambda>writers.
     bindR (fieldStrs m ''free_readers'') (\<lambda>free.
     bindR (optionRead m ''read_pricing'' pricingOf) (\<lambda>pricing.
     bindR (fieldUintOr m ''retention_period'' 64 0) (\<lambda>retention.
       Inr (FileStorage modeName (of_nat maxFileSize) (of_nat replication) writers free pricing
              (of_nat retention)))))))))"

definition moduleOf :: "json \<Rightarrow> string \<Rightarrow> bincodeError + WasmModule" where
  "moduleOf mv path =
     bindR (asObject mv path) (\<lambda>module.
     bindR (fieldStr module ''name'') (\<lambda>name.
     bindR (fieldBytes module ''hash'') (\<lambda>hash.
     bindR (ensureR (length hash = 32) (WantBytes (atField module ''hash'') (length hash))) (\<lambda>_.
     bindR (fieldBytes module ''content'') (\<lambda>content.
       Inr \<lparr>wmName = name, wmHash = hash, wmContent = content\<rparr>)))))"

definition executionOf :: "json \<Rightarrow> string \<Rightarrow> bincodeError + ExecutionMode" where
  "executionOf ev path =
     bindR (enumParts ev path) (\<lambda>(exName, exPayload).
     bindR (variant exName executionModes path) (\<lambda>_.
       if exName = ''IndexerExecution'' then
         bindR (asObject exPayload (path @ ''.'' @ exName)) (\<lambda>ex.
         bindR (fieldUint ex ''sampling_rate_percent'' 8) (\<lambda>rate.
           Inr (IndexerExecution (of_nat rate))))
       else if exName = ''TeeExecution'' then
         bindR (asObject exPayload (path @ ''.'' @ exName)) (\<lambda>ex.
         bindR (getField ex ''tee_type'') (\<lambda>tee.
         bindR (teeOf tee (atField ex ''tee_type'')) (\<lambda>t.
           Inr (TeeExecution t))))
       else Inr ConsensusExecution))"

definition indexerOf :: "json \<Rightarrow> string \<Rightarrow> bincodeError + IndexerConfig" where
  "indexerOf icv path =
     bindR (asObject icv path) (\<lambda>ic.
     bindR (fieldUint ic ''min_indexers'' 8) (\<lambda>minIndexers.
     bindR (fieldUint ic ''max_indexers'' 8) (\<lambda>maxIndexers.
     bindR (getField ic ''reward_per_epoch'') (\<lambda>rewardV.
     bindR (asU128 rewardV (atField ic ''reward_per_epoch'') True) (\<lambda>reward.
     bindR (fieldUintOr ic ''epoch_length'' 64 defaultEpochLength) (\<lambda>epochLength.
     bindR (getField ic ''min_indexer_stake'') (\<lambda>stakeV.
     bindR (asU128 stakeV (atField ic ''min_indexer_stake'') True) (\<lambda>stake.
       Inr \<lparr>icMin = of_nat minIndexers, icMax = of_nat maxIndexers, icReward = reward,
            icEpochLength = of_nat epochLength, icStake = stake\<rparr>))))))))"

definition retentionOf :: "json \<Rightarrow> string \<Rightarrow> bincodeError + Retention" where
  "retentionOf rv path =
     bindR (enumParts rv path) (\<lambda>(rwName, rwValue).
     bindR (variant rwName retentionWindows path) (\<lambda>_.
       if rwName = ''Blocks'' \<or> rwName = ''Seconds'' then
         bindR (asUint rwValue 64 (path @ ''.'' @ rwName)) (\<lambda>n.
           Inr (if rwName = ''Blocks'' then RetainBlocks (of_nat n) else RetainSeconds (of_nat n)))
       else Inr (if rwName = ''Indefinite'' then RetainIndefinite else RetainVerifyOnly)))"

definition completenessOf :: "json \<Rightarrow> string \<Rightarrow> bincodeError + Completeness" where
  "completenessOf v path =
     bindR (asObject v path) (\<lambda>c.
     bindR (getField c ''log_config_hash'') (\<lambda>lv.
     bindR (configHash lv (atField c ''log_config_hash'')) (\<lambda>log.
     bindR (getField c ''tx_config_hash'') (\<lambda>tv.
     bindR (configHash tv (atField c ''tx_config_hash'')) (\<lambda>txs.
     bindR (fieldBoolOr c ''deferred'' False) (\<lambda>deferred.
     bindR (case lookupField c ''bond_amount'' of
              None \<Rightarrow> Inr (NewUint128 0)
            | Some bv \<Rightarrow> asU128 bv (atField c ''bond_amount'') False) (\<lambda>bond.
       Inr \<lparr>cpLog = map of_nat log, cpTx = map of_nat txs, cpDeferred = deferred, cpBond = bond\<rparr>)))))))"

definition indexingOf :: "jobject \<Rightarrow> bincodeError + Mode" where
  "indexingOf m =
     bindR (fieldBytes m ''manifest_content'') (\<lambda>manifest.
     bindR (fieldArrayOrEmpty m ''wasm_modules'') (\<lambda>modules.
     bindR (mapR (\<lambda>(i, mv). moduleOf mv (elemPath (atField m ''wasm_modules'') i))
              (enumerate 0 modules)) (\<lambda>ms.
     bindR (getField m ''execution_mode'') (\<lambda>ev.
     bindR (executionOf ev (atField m ''execution_mode'')) (\<lambda>execution.
     bindR (getField m ''indexer_config'') (\<lambda>icv.
     bindR (indexerOf icv (atField m ''indexer_config'')) (\<lambda>indexer.
     bindR (orRead m ''retention_window'' RetainIndefinite retentionOf) (\<lambda>retention.
     bindR (optionRead m ''completeness'' completenessOf) (\<lambda>completeness.
     bindR (orRead m ''historical_auth_mode'' BftEquivalent authOf) (\<lambda>auth.
       Inr (BlockchainIndexing manifest ms execution indexer retention completeness auth)))))))))))"

definition modeOf :: "json \<Rightarrow> string \<Rightarrow> bincodeError + Mode" where
  "modeOf v path =
     bindR (enumParts v path) (\<lambda>(name, payload).
     bindR (variant name subgroveModes path) (\<lambda>_.
     bindR (asObject payload (path @ ''.'' @ name)) (\<lambda>m.
       if name = ''DataStorage'' then dataStorageOf m
       else if name = ''FileStorage'' then fileStorageOf m
       else indexingOf m)))"

definition privacyOf :: "json \<Rightarrow> string \<Rightarrow> bincodeError + Privacy" where
  "privacyOf v path =
     bindR (asObject v path) (\<lambda>p.
     bindR (optionRead p ''allowed_indexers'' asStrings) (\<lambda>allowed.
     bindR (getField p ''commitment_frequency'') (\<lambda>cv.
     bindR (enumParts cv (atField p ''commitment_frequency'')) (\<lambda>(name, n).
     bindR (variant name commitmentFrequencies (atField p ''commitment_frequency'')) (\<lambda>_.
       if name = ''EveryNBlocks'' \<or> name = ''EveryNSeconds'' then
         bindR (asUint n 64 (atField p ''commitment_frequency'' @ ''.'' @ name)) (\<lambda>x.
           Inr \<lparr>pvAllowed = allowed,
                pvFrequency = if name = ''EveryNBlocks'' then EveryNBlocks (of_nat x)
                              else EveryNSeconds (of_nat x)\<rparr>)
       else Inr \<lparr>pvAllowed = allowed,
                 pvFrequency = if name = ''EveryUpdate'' then EveryUpdate else NeverCommit\<rparr>)))))"

definition grantOf :: "json \<Rightarrow> string \<Rightarrow> bincodeError + EncryptedKeyGrant" where
  "grantOf v path =
     bindR (asObject v path) (\<lambda>g.
     bindR (fieldStr g ''grantee_did'') (\<lambda>grantee.
     bindR (fieldUint g ''key_epoch'' 32) (\<lambda>epoch.
     bindR (fieldStr g ''grantee_public_key_id'') (\<lambda>keyID.
     bindR (fieldBytes g ''ephemeral_public_key'') (\<lambda>ephemeral.
     bindR (fieldBytes g ''encrypted_key'') (\<lambda>encrypted.
     bindR (fieldStr g ''granted_by'') (\<lambda>grantedBy.
     bindR (fieldUint g ''granted_at'' 64) (\<lambda>grantedAt.
       Inr \<lparr>GranteeDID = grantee, GranteePublicKeyID = keyID, KeyEpoch = of_nat epoch,
            EphemeralPublicKey = ephemeral, EncryptedKey = encrypted, GrantedBy = grantedBy,
            GrantedAt = of_nat grantedAt\<rparr>))))))))"

definition templateOf :: "json \<Rightarrow> string \<Rightarrow> bincodeError + Template" where
  "templateOf v path =
     bindR (asObject v path) (\<lambda>c.
     bindR (fieldStr c ''template_id'') (\<lambda>templateID.
     bindR (fieldUint c ''template_version'' 32) (\<lambda>version.
     bindR (fieldStr c ''variant_id'') (\<lambda>variantID.
     bindR (fieldBytes c ''parameters'') (\<lambda>parameters.
     bindR (fieldStrs c ''contracts'') (\<lambda>contracts.
     bindR (fieldStrs c ''event_signatures'') (\<lambda>events.
     bindR (optionRead c ''chain'' asString) (\<lambda>chain.
       Inr \<lparr>tpId = templateID, tpVersion = of_nat version, tpVariant = variantID,
            tpParameters = parameters, tpContracts = contracts, tpEvents = events,
            tpChain = chain\<rparr>))))))))"

definition checkpointOf :: "json \<Rightarrow> string \<Rightarrow> bincodeError + TeeType option" where
  "checkpointOf cv path = bindR (asObject cv path) (\<lambda>c. optionRead c ''required_tee'' teeOf)"

definition readTx :: "json \<Rightarrow> bincodeError + ChainTx" where
  "readTx v =
     bindR (asObject v ''RegisterSubgrove'') (\<lambda>t.
     bindR (fieldStr t ''subgrove_id'') (\<lambda>subgroveID.
     bindR (fieldStr t ''name'') (\<lambda>name.
     bindR (fieldStrOr t ''description'' []) (\<lambda>description.
     bindR (fieldStr t ''schema'') (\<lambda>schema.
     bindR (fieldStr t ''owner_did'') (\<lambda>owner.
     bindR (fieldStrsOrEmpty t ''admins'') (\<lambda>admins.
     bindR (optionRead t ''initial_funding'' (\<lambda>v path. asU128 v path True)) (\<lambda>funding.
     bindR (orRead t ''checkpoint_verification'' None checkpointOf) (\<lambda>tee.
     bindR (orRead t ''mode'' (DataStorage [] [] [] None) modeOf) (\<lambda>mode.
     bindR (optionRead t ''privacy'' privacyOf) (\<lambda>priv.
     bindR (optionRead t ''initial_owner_key_grant'' grantOf) (\<lambda>grant.
     bindR (optionRead t ''template_config'' templateOf) (\<lambda>template.
     bindR (fieldUintOr t ''confirmation_depth'' 32 0) (\<lambda>depth.
     bindR (fieldBytes t ''signature'') (\<lambda>_.
     bindR (fieldStr t ''public_key_id'') (\<lambda>publicKeyID.
     bindR (fieldUint t ''nonce'' 64) (\<lambda>nonce.
     bindR (fieldBoolOr t ''cryptographic_completeness'' False) (\<lambda>completeness.
       Inr \<lparr>ctSubgroveID = subgroveID, ctName = name, ctDescription = description,
            ctSchema = schema, ctOwner = owner, ctAdmins = admins, ctFunding = funding,
            ctRequiredTee = tee, ctMode = mode, ctPrivacy = priv, ctGrant = grant,
            ctTemplate = template, ctDepth = of_nat depth, ctPublicKeyID = publicKeyID,
            ctNonce = of_nat nonce, ctCompleteness = completeness\<rparr>))))))))))))))))))"

subsection \<open>The encoder is the bincode of what the chain reads\<close>

lemma leBytes_mod: "leBytes k (n mod 256 ^ k) = leBytes k n"
proof (induction k arbitrary: n)
  case 0
  then show ?case by simp
next
  case (Suc k)
  have "n mod 256 ^ Suc k div 256 = n div 256 mod 256 ^ k"
    by (simp add: mod_mult2_eq)
  moreover have "n mod 256 ^ Suc k mod 256 = n mod 256"
    by (simp add: mod_mod_cancel)
  ultimately show ?case using Suc by simp
qed

lemma put_words [simp]:
  "putU8 (unat (of_nat n :: byte)) = putU8 n"
  "putU32 (unat (of_nat n :: u32)) = putU32 n"
  "putU64 (unat (of_nat n :: u64)) = putU64 n"
  using leBytes_mod [of 1 n] leBytes_mod [of 4 n] leBytes_mod [of 8 n]
  by (simp_all add: putU8_def putU32_def putU64_def unat_of_nat)

lemma optionField_refines:
  assumes "\<And>v p. write v p = bindR (rd v p) (\<lambda>x. Inr (f x))"
  shows "optionField ob name write = bindR (optionRead ob name rd) (\<lambda>x. Inr (encOption f x))"
  by (simp add: optionField_def optionRead_def encOption_def assms bindR_assoc split: option.split)

lemma orField_refines:
  assumes "\<And>v p. write v p = bindR (rd v p) (\<lambda>x. Inr (f x))"
  shows "orField ob name (f dflt) write = bindR (orRead ob name dflt rd) (\<lambda>x. Inr (f x))"
  by (simp add: orField_def orRead_def assms split: option.split)

lemma mapR_refines:
  assumes "\<And>x. g x = bindR (h x) (\<lambda>y. Inr (f y))"
  shows "mapR g xs = bindR (mapR h xs) (\<lambda>ys. Inr (map f ys))"
  by (induction xs) (simp_all add: assms bindR_assoc)

lemma variant_unknown: "name \<notin> set variants \<Longrightarrow> variant name variants path = Inl (UnknownVariant path name)"
proof -
  have "name \<notin> set variants \<Longrightarrow> variantIndex name variants i = None" for i
    by (induction variants arbitrary: i) auto
  then show "name \<notin> set variants \<Longrightarrow> variant name variants path = Inl (UnknownVariant path name)"
    by (simp add: variant_def)
qed

lemma tee_refines: "unitVariant v teeTypes path = bindR (teeOf v path) (\<lambda>t. Inr (encTee t))"
proof (cases v)
  case (JStr name)
  consider "name = ''AwsNitro''" | "name = ''IntelSgx''" | "name = ''AmdSev''" | "name \<notin> set teeTypes"
    by (auto simp: teeTypes_def)
  then show ?thesis
    by cases (simp_all add: JStr teeOf_def variant_unknown, simp_all add: variant_def teeTypes_def numeral_2_eq_2)
qed (simp_all add: teeOf_def)

lemma auth_refines:
  "unitVariant v historicalAuthModes path = bindR (authOf v path) (\<lambda>a. Inr (encAuth a))"
proof (cases v)
  case (JStr name)
  consider "name = ''BftEquivalent''" | "name = ''CanonizedAccumulator''" | "name \<notin> set historicalAuthModes"
    by (auto simp: historicalAuthModes_def)
  then show ?thesis
    by cases (simp_all add: JStr authOf_def variant_unknown, simp_all add: variant_def historicalAuthModes_def)
qed (simp_all add: authOf_def)

lemma pricing_refines: "readPricing v path = bindR (pricingOf v path) (\<lambda>p. Inr (encPricing p))"
  by (simp add: readPricing_def pricingOf_def encPricing_def bindR_assoc)

lemma dataStorage_refines:
  "bindR (dataStorage m) (\<lambda>b. Inr (putU32 0 @ b)) = bindR (dataStorageOf m) (\<lambda>x. Inr (encMode x))"
  by (simp add: dataStorage_def dataStorageOf_def optionField_refines [OF pricing_refines] bindR_assoc)

lemma fileStorage_refines:
  "bindR (fileStorage m) (\<lambda>b. Inr (putU32 1 @ b)) = bindR (fileStorageOf m) (\<lambda>x. Inr (encMode x))"
  by (simp add: fileStorage_def fileStorageOf_def optionField_refines [OF pricing_refines] bindR_assoc)

lemma module_refines: "wasmModule v path = bindR (moduleOf v path) (\<lambda>m. Inr (encModule m))"
  by (simp add: wasmModule_def moduleOf_def encModule_def bindR_assoc)

lemma execution_refines: "executionMode v path = bindR (executionOf v path) (\<lambda>x. Inr (encExecution x))"
proof (cases "enumParts v path")
  case (Inr x)
  obtain name payload where x: "x = (name, payload)" by (cases x)
  consider "name = ''ConsensusExecution''" | "name = ''IndexerExecution''" | "name = ''TeeExecution''"
    | "name \<notin> set executionModes" by (auto simp: executionModes_def)
  then show ?thesis
  proof cases
    case 4
    then show ?thesis using Inr x variant_unknown by (simp add: executionMode_def executionOf_def)
  qed (simp_all add: Inr x executionMode_def executionOf_def tee_refines bindR_assoc variant_def
      executionModes_def numeral_2_eq_2)
qed (simp add: executionMode_def executionOf_def)

lemma indexer_refines: "indexerConfig v path = bindR (indexerOf v path) (\<lambda>x. Inr (encIndexer x))"
  by (simp add: indexerConfig_def indexerOf_def encIndexer_def bindR_assoc)

lemma retention_refines: "retentionWindow v path = bindR (retentionOf v path) (\<lambda>x. Inr (encRetention x))"
proof (cases "enumParts v path")
  case (Inr x)
  obtain name payload where x: "x = (name, payload)" by (cases x)
  consider "name = ''Blocks''" | "name = ''Seconds''" | "name = ''Indefinite''" | "name = ''VerifyOnly''"
    | "name \<notin> set retentionWindows" by (auto simp: retentionWindows_def)
  then show ?thesis
  proof cases
    case 5
    then show ?thesis using Inr x variant_unknown by (simp add: retentionWindow_def retentionOf_def)
  qed (simp_all add: Inr x retentionWindow_def retentionOf_def bindR_assoc variant_def
      retentionWindows_def numeral_2_eq_2 numeral_3_eq_3)
qed (simp add: retentionWindow_def retentionOf_def)

lemma completeness_refines:
  "completenessConfig v path = bindR (completenessOf v path) (\<lambda>x. Inr (encCompleteness x))"
  by (simp add: completenessConfig_def completenessOf_def encCompleteness_def bindR_assoc comp_def)

lemma indexing_refines:
  "bindR (blockchainIndexing m) (\<lambda>b. Inr (putU32 2 @ b)) = bindR (indexingOf m) (\<lambda>x. Inr (encMode x))"
proof -
  have modules: "mapR (\<lambda>(i, mv). wasmModule mv (elemPath p i)) ms
      = bindR (mapR (\<lambda>(i, mv). moduleOf mv (elemPath p i)) ms) (\<lambda>xs. Inr (map encModule xs))" for p ms
    by (rule mapR_refines) (auto simp: module_refines)
  have retention: "orField m ''retention_window'' (putU32 2) retentionWindow
      = bindR (orRead m ''retention_window'' RetainIndefinite retentionOf) (\<lambda>x. Inr (encRetention x))"
    using orField_refines [OF retention_refines, of m _ RetainIndefinite] by simp
  have auth: "orField m ''historical_auth_mode'' (putU32 0) (\<lambda>v. unitVariant v historicalAuthModes)
      = bindR (orRead m ''historical_auth_mode'' BftEquivalent authOf) (\<lambda>x. Inr (encAuth x))"
    using orField_refines [OF auth_refines, of m _ BftEquivalent] by simp
  show ?thesis
    unfolding blockchainIndexing_def indexingOf_def modules execution_refines indexer_refines
      optionField_refines [OF completeness_refines] retention auth bindR_assoc bindR_Inr
    by (intro bindR_cong refl) (auto simp: encVec_def dest: mapR_Inr_length)
qed

lemma mode_refines: "subgroveMode v path = bindR (modeOf v path) (\<lambda>x. Inr (encMode x))"
proof (cases "enumParts v path")
  case (Inr x)
  obtain name payload where x: "x = (name, payload)" by (cases x)
  consider "name = ''DataStorage''" | "name = ''FileStorage''" | "name = ''BlockchainIndexing''"
    | "name \<notin> set subgroveModes" by (auto simp: subgroveModes_def)
  then show ?thesis
  proof cases
    case 1
    then have "variant name subgroveModes path = Inr (putU32 0)" by (simp add: variant_def subgroveModes_def)
    then show ?thesis
      using 1 by (simp add: Inr x subgroveMode_def modeOf_def bindR_assoc dataStorage_refines)
  next
    case 2
    then have "variant name subgroveModes path = Inr (putU32 1)" by (simp add: variant_def subgroveModes_def)
    then show ?thesis
      using 2 fileStorage_refines by (simp add: Inr x subgroveMode_def modeOf_def bindR_assoc)
  next
    case 3
    then have "variant name subgroveModes path = Inr (putU32 2)"
      by (simp add: variant_def subgroveModes_def numeral_2_eq_2)
    then show ?thesis
      using 3 by (simp add: Inr x subgroveMode_def modeOf_def bindR_assoc indexing_refines)
  next
    case 4
    then show ?thesis by (simp add: Inr x subgroveMode_def modeOf_def variant_unknown)
  qed
qed (simp add: subgroveMode_def modeOf_def)

text \<open>The frequency of a private subgrove's commitments, after its allowed indexers.\<close>

lemma frequency_refines:
  "bindR (variant name commitmentFrequencies p) (\<lambda>tag.
       if name = ''EveryNBlocks'' \<or> name = ''EveryNSeconds'' then
         bindR (asUint n 64 q) (\<lambda>x. Inr (encOption putStrs allowed @ tag @ putU64 x))
       else Inr (encOption putStrs allowed @ tag))
   = bindR (bindR (variant name commitmentFrequencies p) (\<lambda>_.
       if name = ''EveryNBlocks'' \<or> name = ''EveryNSeconds'' then
         bindR (asUint n 64 q) (\<lambda>x.
           Inr \<lparr>pvAllowed = allowed,
                pvFrequency = if name = ''EveryNBlocks'' then EveryNBlocks (of_nat x)
                              else EveryNSeconds (of_nat x)\<rparr>)
       else Inr \<lparr>pvAllowed = allowed,
                 pvFrequency = if name = ''EveryUpdate'' then EveryUpdate else NeverCommit\<rparr>))
     (\<lambda>x. Inr (encPrivacy x))"
proof -
  consider "name = ''EveryUpdate''" | "name = ''EveryNBlocks''" | "name = ''EveryNSeconds''" | "name = ''Never''"
    | "name \<notin> set commitmentFrequencies" by (auto simp: commitmentFrequencies_def)
  then show ?thesis
    by cases (simp_all add: variant_unknown, simp_all add: variant_def commitmentFrequencies_def
        encPrivacy_def bindR_assoc numeral_2_eq_2 numeral_3_eq_3)
qed

lemma strs_refines: "bindR (asStrings v p) (\<lambda>xs. Inr (putStrs xs)) = bindR (asStrings v p) (\<lambda>x. Inr (putStrs x))"
  by simp

lemma privacy_refines: "privacy v path = bindR (privacyOf v path) (\<lambda>x. Inr (encPrivacy x))"
  unfolding privacy_def privacyOf_def bindR_assoc optionField_refines [OF strs_refines] bindR_Inr
  by (intro bindR_cong refl) (simp add: frequency_refines split: prod.split)

lemma grant_refines: "keyGrant v path = bindR (grantOf v path) (\<lambda>x. Inr (encGrant x))"
  by (simp add: keyGrant_def grantOf_def encGrant_def bindR_assoc)

lemma template_refines: "templateConfig v path = bindR (templateOf v path) (\<lambda>x. Inr (encTemplate x))"
proof -
  have "optionField c ''chain'' (\<lambda>v path. bindR (asString v path) (\<lambda>s. Inr (putStr s)))
      = bindR (optionRead c ''chain'' asString) (\<lambda>x. Inr (encOption putStr x))" for c
    by (rule optionField_refines) (rule refl)
  then show ?thesis by (simp add: templateConfig_def templateOf_def encTemplate_def bindR_assoc)
qed

lemma checkpoint_refines:
  "checkpointVerification v path = bindR (checkpointOf v path) (\<lambda>x. Inr (encOption encTee x))"
  by (simp add: checkpointVerification_def checkpointOf_def optionField_refines [OF tee_refines]
      bindR_assoc)

lemma registerSubgrove_refines: "registerSubgrove v = bindR (readTx v) (\<lambda>t. Inr (encTx t))"
proof -
  have funding: "optionField t name (\<lambda>v path. bindR (asU128 v path True) (\<lambda>u. Inr (putU128 u)))
      = bindR (optionRead t name (\<lambda>v path. asU128 v path True)) (\<lambda>x. Inr (encOption putU128 x))" for t name
    by (rule optionField_refines) (rule refl)
  have checkpoint: "orField t name (putU8 0) checkpointVerification
      = bindR (orRead t name None checkpointOf) (\<lambda>x. Inr (encOption encTee x))" for t name
    using orField_refines [OF checkpoint_refines, of t name None] by (simp add: encOption_def)
  have mode: "orField t name defaultMode subgroveMode
      = bindR (orRead t name (DataStorage [] [] [] None) modeOf) (\<lambda>x. Inr (encMode x))" for t name
    using orField_refines [OF mode_refines, of t name "DataStorage [] [] [] None"]
    by (simp add: defaultMode_def encOption_def)
  show ?thesis
    by (simp add: registerSubgrove_def readTx_def encTx_def bindR_assoc funding checkpoint mode
        optionField_refines [OF privacy_refines] optionField_refines [OF grant_refines]
        optionField_refines [OF template_refines])
qed

subsection \<open>The bincode determines the transaction\<close>

lemma put_cut:
  "m < 2 ^ 8 \<Longrightarrow> n < 2 ^ 8 \<Longrightarrow> putU8 m @ r = putU8 n @ s \<longleftrightarrow> m = n \<and> r = s"
  "m < 2 ^ 32 \<Longrightarrow> n < 2 ^ 32 \<Longrightarrow> putU32 m @ r = putU32 n @ s \<longleftrightarrow> m = n \<and> r = s"
  "m < 2 ^ 64 \<Longrightarrow> n < 2 ^ 64 \<Longrightarrow> putU64 m @ r = putU64 n @ s \<longleftrightarrow> m = n \<and> r = s"
  using leCode.enc_eq_iff [of m 1 n r s] leCode.enc_eq_iff [of m 4 n r s]
    leCode.enc_eq_iff [of m 8 n r s]
  by (simp_all add: putU8_def putU32_def putU64_def)

lemma unat_small: "unat (b :: byte) < 2 ^ 8" "unat (w :: u32) < 2 ^ 32" "unat (d :: u64) < 2 ^ 64"
  using unsigned_less [of b] unsigned_less [of w] unsigned_less [of d] by simp_all

lemma put_word_cut [simp]:
  "putU8 (unat b) @ r = putU8 (unat b') @ s \<longleftrightarrow> b = b' \<and> r = s"
  "putU32 (unat w) @ r = putU32 (unat w') @ s \<longleftrightarrow> w = w' \<and> r = s"
  "putU64 (unat d) @ r = putU64 (unat d') @ s \<longleftrightarrow> d = d' \<and> r = s"
  for b b' :: byte and w w' :: u32 and d d' :: u64
  using put_cut(1) [OF unat_small(1) unat_small(1), of b r b' s]
    put_cut(2) [OF unat_small(2) unat_small(2), of w r w' s]
    put_cut(3) [OF unat_small(3) unat_small(3), of d r d' s]
  by (simp_all only: unat_inj)

lemma put_tag_cut:
  "putU32 0 @ r = putU32 1 @ s \<longleftrightarrow> False" "putU32 0 @ r = putU32 2 @ s \<longleftrightarrow> False"
  "putU32 0 @ r = putU32 3 @ s \<longleftrightarrow> False" "putU32 1 @ r = putU32 0 @ s \<longleftrightarrow> False"
  "putU32 1 @ r = putU32 2 @ s \<longleftrightarrow> False" "putU32 1 @ r = putU32 3 @ s \<longleftrightarrow> False"
  "putU32 2 @ r = putU32 0 @ s \<longleftrightarrow> False" "putU32 2 @ r = putU32 1 @ s \<longleftrightarrow> False"
  "putU32 2 @ r = putU32 3 @ s \<longleftrightarrow> False" "putU32 3 @ r = putU32 0 @ s \<longleftrightarrow> False"
  "putU32 3 @ r = putU32 1 @ s \<longleftrightarrow> False" "putU32 3 @ r = putU32 2 @ s \<longleftrightarrow> False"
  "putU32 n @ r = putU32 n @ s \<longleftrightarrow> r = s"
  "putU8 0 @ r = putU8 1 @ s \<longleftrightarrow> False" "putU8 1 @ r = putU8 0 @ s \<longleftrightarrow> False"
  "putU8 n @ r = putU8 n @ s \<longleftrightarrow> r = s"
  by (simp_all add: put_cut)

lemmas put_tags [simp] = put_tag_cut put_tag_cut [unfolded One_nat_def]

lemma putBool_cut [simp]: "putBool a @ r = putBool b @ s \<longleftrightarrow> a = b \<and> r = s"
  using put_cut(1) [of "if a then 1 else 0" "if b then 1 else 0" r s]
  by (auto simp: putBool_def split: if_splits)

lemma putU128_cut [simp]: "putU128 u @ r = putU128 v @ s \<longleftrightarrow> u = v \<and> r = s"
  using u128Code.enc_eq_iff [where x = u and y = v and r = r and s = s] by (simp add: putU128_def)

definition shortBytes :: "bytes \<Rightarrow> bool" where
  "shortBytes b \<longleftrightarrow> length b < 2 ^ 64"

definition shortStr :: "string \<Rightarrow> bool" where
  "shortStr s \<longleftrightarrow> length s < 2 ^ 64"

definition shortList :: "('a \<Rightarrow> bool) \<Rightarrow> 'a list \<Rightarrow> bool" where
  "shortList ok xs \<longleftrightarrow> length xs < 2 ^ 64 \<and> list_all ok xs"

interpretation bytesCode: prefix_free shortBytes putBytes
  by unfold_locales (auto simp: putBytes_def shortBytes_def put_cut)

interpretation strCode: prefix_free shortStr putStr
proof
  fix x y r s
  assume "shortStr x" "shortStr y" "putStr x @ r = putStr y @ s"
  then show "x = y \<and> r = s"
    using bytesCode.cut [of "stringBytes x" "stringBytes y" r s]
    by (simp add: putStr_def shortStr_def shortBytes_def stringBytes_inj)
qed

lemma encVec_prefix_free:
  assumes "prefix_free ok f"
  shows "prefix_free (shortList ok) (encVec f)"
proof
  fix xs ys :: "'a list" and r s
  assume "shortList ok xs" "shortList ok ys" and eq: "encVec f xs @ r = encVec f ys @ s"
  then have ok: "list_all ok xs" "list_all ok ys" "length xs < 2 ^ 64" "length ys < 2 ^ 64"
    by (simp_all add: shortList_def)
  then have "length xs = length ys" "concat (map f xs) @ r = concat (map f ys) @ s"
    using eq put_cut(3) [of "length xs" "length ys"] by (simp_all add: encVec_def)
  then show "xs = ys \<and> r = s" using prefix_free.concat_cut [OF assms] ok by blast
qed

lemma encOption_prefix_free:
  assumes "prefix_free ok f"
  shows "prefix_free (pred_option ok) (encOption f)"
proof
  fix x y :: "'a option" and r s
  assume ok: "pred_option ok x" "pred_option ok y" and eq: "encOption f x @ r = encOption f y @ s"
  show "x = y \<and> r = s"
  proof (cases x)
    case None
    then show ?thesis using eq by (cases y) (simp_all add: encOption_def)
  next
    case (Some a)
    then obtain b where b: "y = Some b" using eq by (cases y) (simp_all add: encOption_def)
    then have "f a @ r = f b @ s" using Some eq by (simp add: encOption_def)
    then show ?thesis using prefix_free.cut [OF assms, of a b r s] ok Some b by simp
  qed
qed

lemma putStrs_vec: "putStrs = encVec putStr"
  by (simp add: fun_eq_iff putStrs_def encVec_def)

interpretation strsCode: prefix_free "shortList shortStr" putStrs
  unfolding putStrs_vec by (rule encVec_prefix_free) (rule strCode.prefix_free_axioms)

lemma concat_words_cut:
  fixes xs ys :: "u32 list"
  assumes "length xs = length ys"
  shows "concat (map (\<lambda>w. putU32 (unat w)) xs) @ r = concat (map (\<lambda>w. putU32 (unat w)) ys) @ s
           \<longleftrightarrow> xs = ys \<and> r = s"
  using assms by (induction xs ys rule: list_induct2) auto

interpretation teeCode: prefix_free "\<lambda>_. True" encTee
proof
  fix x y :: TeeType and r s
  assume "encTee x @ r = encTee y @ s"
  then show "x = y \<and> r = s" by (cases x; cases y) simp_all
qed

interpretation pricingCode: prefix_free "\<lambda>_. True" encPricing
proof
  fix x y :: Pricing and r s
  assume "encPricing x @ r = encPricing y @ s"
  then show "x = y \<and> r = s" by (simp add: encPricing_def)
qed

definition okModule :: "WasmModule \<Rightarrow> bool" where
  "okModule m \<longleftrightarrow> shortStr (wmName m) \<and> length (wmHash m) = 32 \<and> shortBytes (wmContent m)"

interpretation moduleCode: prefix_free okModule encModule
proof
  fix x y :: WasmModule and r s
  assume "okModule x" "okModule y" "encModule x @ r = encModule y @ s"
  then show "x = y \<and> r = s"
    by (simp add: encModule_def okModule_def strCode.enc_eq_iff bytesCode.enc_eq_iff)
qed

interpretation executionCode: prefix_free "\<lambda>_. True" encExecution
proof
  fix x y :: ExecutionMode and r s
  assume "encExecution x @ r = encExecution y @ s"
  then show "x = y \<and> r = s"
    by (cases x; cases y) (simp_all add: teeCode.enc_eq_iff)
qed

interpretation indexerCode: prefix_free "\<lambda>_. True" encIndexer
proof
  fix x y :: IndexerConfig and r s
  assume "encIndexer x @ r = encIndexer y @ s"
  then show "x = y \<and> r = s" by (simp add: encIndexer_def)
qed

interpretation retentionCode: prefix_free "\<lambda>_. True" encRetention
proof
  fix x y :: Retention and r s
  assume "encRetention x @ r = encRetention y @ s"
  then show "x = y \<and> r = s" by (cases x; cases y) simp_all
qed

interpretation authCode: prefix_free "\<lambda>_. True" encAuth
proof
  fix x y :: AuthMode and r s
  assume "encAuth x @ r = encAuth y @ s"
  then show "x = y \<and> r = s" by (cases x; cases y) simp_all
qed

definition okCompleteness :: "Completeness \<Rightarrow> bool" where
  "okCompleteness c \<longleftrightarrow> length (cpLog c) = 4 \<and> length (cpTx c) = 4"

interpretation completenessCode: prefix_free okCompleteness encCompleteness
proof
  fix x y :: Completeness and r s
  assume "okCompleteness x" "okCompleteness y" "encCompleteness x @ r = encCompleteness y @ s"
  then show "x = y \<and> r = s" by (simp add: encCompleteness_def okCompleteness_def concat_words_cut)
qed

interpretation pricingOptCode: prefix_free "pred_option (\<lambda>_. True)" "encOption encPricing"
  by (rule encOption_prefix_free) (rule pricingCode.prefix_free_axioms)

interpretation modulesCode: prefix_free "shortList okModule" "encVec encModule"
  by (rule encVec_prefix_free) (rule moduleCode.prefix_free_axioms)

interpretation completenessOptCode: prefix_free "pred_option okCompleteness" "encOption encCompleteness"
  by (rule encOption_prefix_free) (rule completenessCode.prefix_free_axioms)

fun okMode :: "Mode \<Rightarrow> bool" where
  "okMode (DataStorage name writers free pricing) \<longleftrightarrow>
     shortStr name \<and> shortList shortStr writers \<and> shortList shortStr free"
| "okMode (FileStorage name maxSize replication writers free pricing retention) \<longleftrightarrow>
     shortStr name \<and> shortList shortStr writers \<and> shortList shortStr free"
| "okMode (BlockchainIndexing manifest modules execution indexer retention completeness auth) \<longleftrightarrow>
     shortBytes manifest \<and> shortList okModule modules \<and> pred_option okCompleteness completeness"

lemma pred_option_True [simp]: "pred_option (\<lambda>_. True) x"
  by (cases x) simp_all

lemmas code_cuts =
  strCode.enc_eq_iff bytesCode.enc_eq_iff strsCode.enc_eq_iff teeCode.enc_eq_iff
  executionCode.enc_eq_iff indexerCode.enc_eq_iff retentionCode.enc_eq_iff authCode.enc_eq_iff
  pricingOptCode.enc_eq_iff modulesCode.enc_eq_iff completenessOptCode.enc_eq_iff

interpretation modeCode: prefix_free okMode encMode
proof
  fix x y :: Mode and r s
  assume "okMode x" "okMode y" "encMode x @ r = encMode y @ s"
  then show "x = y \<and> r = s" by (cases x; cases y) (simp_all add: code_cuts)
qed

interpretation frequencyCode: prefix_free "\<lambda>_. True" encFrequency
proof
  fix x y :: Frequency and r s
  assume "encFrequency x @ r = encFrequency y @ s"
  then show "x = y \<and> r = s" by (cases x; cases y) simp_all
qed

interpretation allowedCode: prefix_free "pred_option (shortList shortStr)" "encOption putStrs"
  by (rule encOption_prefix_free) (rule strsCode.prefix_free_axioms)

definition okPrivacy :: "Privacy \<Rightarrow> bool" where
  "okPrivacy p \<longleftrightarrow> pred_option (shortList shortStr) (pvAllowed p)"

interpretation privacyCode: prefix_free okPrivacy encPrivacy
proof
  fix x y :: Privacy and r s
  assume "okPrivacy x" "okPrivacy y" "encPrivacy x @ r = encPrivacy y @ s"
  then show "x = y \<and> r = s"
    by (simp add: encPrivacy_def okPrivacy_def allowedCode.enc_eq_iff frequencyCode.enc_eq_iff)
qed

definition okGrant :: "EncryptedKeyGrant \<Rightarrow> bool" where
  "okGrant g \<longleftrightarrow>
     shortStr (GranteeDID g) \<and> shortStr (GranteePublicKeyID g) \<and> shortBytes (EphemeralPublicKey g)
     \<and> shortBytes (EncryptedKey g) \<and> shortStr (GrantedBy g)"

interpretation bincodeGrant: prefix_free okGrant encGrant
proof
  fix x y :: EncryptedKeyGrant and r s
  assume "okGrant x" "okGrant y" "encGrant x @ r = encGrant y @ s"
  then show "x = y \<and> r = s"
    by (simp add: encGrant_def okGrant_def strCode.enc_eq_iff bytesCode.enc_eq_iff)
qed

interpretation strOptCode: prefix_free "pred_option shortStr" "encOption putStr"
  by (rule encOption_prefix_free) (rule strCode.prefix_free_axioms)

definition okTemplate :: "Template \<Rightarrow> bool" where
  "okTemplate t \<longleftrightarrow>
     shortStr (tpId t) \<and> shortStr (tpVariant t) \<and> shortBytes (tpParameters t)
     \<and> shortList shortStr (tpContracts t) \<and> shortList shortStr (tpEvents t)
     \<and> pred_option shortStr (tpChain t)"

interpretation templateCode: prefix_free okTemplate encTemplate
proof
  fix x y :: Template and r s
  assume "okTemplate x" "okTemplate y" "encTemplate x @ r = encTemplate y @ s"
  then show "x = y \<and> r = s"
    by (simp add: encTemplate_def okTemplate_def code_cuts strOptCode.enc_eq_iff)
qed

interpretation fundingCode: prefix_free "pred_option (\<lambda>_. True)" "encOption putU128"
  by (rule encOption_prefix_free) (unfold_locales, simp)

interpretation teeOptCode: prefix_free "pred_option (\<lambda>_. True)" "encOption encTee"
  by (rule encOption_prefix_free) (rule teeCode.prefix_free_axioms)

interpretation privacyOptCode: prefix_free "pred_option okPrivacy" "encOption encPrivacy"
  by (rule encOption_prefix_free) (rule privacyCode.prefix_free_axioms)

interpretation grantOptCode: prefix_free "pred_option okGrant" "encOption encGrant"
  by (rule encOption_prefix_free) (rule bincodeGrant.prefix_free_axioms)

interpretation templateOptCode: prefix_free "pred_option okTemplate" "encOption encTemplate"
  by (rule encOption_prefix_free) (rule templateCode.prefix_free_axioms)

text \<open>What fits in memory: every length is below \<open>2 ^ 64\<close>, as every Go length is.\<close>

definition okTx :: "ChainTx \<Rightarrow> bool" where
  "okTx t \<longleftrightarrow>
     shortStr (ctSubgroveID t) \<and> shortStr (ctName t) \<and> shortStr (ctDescription t)
     \<and> shortStr (ctSchema t) \<and> shortStr (ctOwner t) \<and> shortList shortStr (ctAdmins t)
     \<and> okMode (ctMode t) \<and> pred_option okPrivacy (ctPrivacy t) \<and> pred_option okGrant (ctGrant t)
     \<and> pred_option okTemplate (ctTemplate t) \<and> shortStr (ctPublicKeyID t)"

interpretation txCode: prefix_free okTx encTx
proof
  fix x y :: ChainTx and r s
  have empty: "shortBytes []" by (simp add: shortBytes_def)
  assume "okTx x" "okTx y" "encTx x @ r = encTx y @ s"
  then show "x = y \<and> r = s"
    by (simp add: encTx_def okTx_def code_cuts modeCode.enc_eq_iff fundingCode.enc_eq_iff
        teeOptCode.enc_eq_iff privacyOptCode.enc_eq_iff grantOptCode.enc_eq_iff
        templateOptCode.enc_eq_iff empty)
qed

subsection \<open>Bincode that fits in memory\<close>

lemma put_lengths [simp]:
  "length (putU8 n) = 1" "length (putU32 n) = 4" "length (putU64 n) = 8"
  "length (putBytes b) = 8 + length b" "length (putStr s) = 8 + length s" "length (putBool c) = 1"
  by (simp_all add: putU8_def putU32_def putU64_def putBytes_def putStr_def putBool_def)

lemma concat_bounds:
  "x \<in> set xs \<Longrightarrow> length (f x) \<le> length (concat (map f xs))"
  "(\<And>x. x \<in> set xs \<Longrightarrow> 1 \<le> length (f x)) \<Longrightarrow> length xs \<le> length (concat (map f xs))"
  by (induction xs) fastforce+

lemma encVec_fits:
  assumes "length (encVec f xs) < n" and "\<And>x. x \<in> set xs \<Longrightarrow> length (f x) < n \<Longrightarrow> ok x"
    and "\<And>x. x \<in> set xs \<Longrightarrow> 1 \<le> length (f x)"
  shows "length xs < n \<and> list_all ok xs"
proof -
  have c: "length (concat (map f xs)) < n" using assms(1) by (simp add: encVec_def)
  have "length xs < n" using concat_bounds(2) [of xs f] assms(3) c by fastforce
  moreover have "ok x" if "x \<in> set xs" for x
    using assms(2) [OF that] concat_bounds(1) [OF that, of f] c by simp
  ultimately show ?thesis by (simp add: list_all_iff)
qed

lemma strs_fit: "length (putStrs xs) < 2 ^ 64 \<Longrightarrow> shortList shortStr xs"
  unfolding putStrs_vec shortList_def by (rule encVec_fits) (auto simp: shortStr_def)

lemma option_fits:
  "length (encOption f x) < n \<Longrightarrow> (\<And>y. x = Some y \<Longrightarrow> length (f y) < n \<Longrightarrow> ok y) \<Longrightarrow> pred_option ok x"
  by (cases x) (auto simp: encOption_def)

text \<open>What reading fixes of the shapes: module hashes of 32 bytes, configuration hashes of 4 words.\<close>

fun shapedMode :: "Mode \<Rightarrow> bool" where
  "shapedMode (BlockchainIndexing manifest modules execution indexer retention completeness auth) \<longleftrightarrow>
     list_all (\<lambda>m. length (wmHash m) = 32) modules \<and> pred_option okCompleteness completeness"
| "shapedMode _ \<longleftrightarrow> True"

lemma configHash_four: "configHash v p = Inr ns \<Longrightarrow> length ns = 4"
  by (cases v) (auto split: if_splits dest: mapR_Inr_length)

lemma completenessOf_shaped: "completenessOf v p = Inr c \<Longrightarrow> okCompleteness c"
  by (auto simp: completenessOf_def okCompleteness_def bindR_eq_Inr dest: configHash_four)

lemma optionRead_all:
  assumes "optionRead ob name rd = Inr x" and "\<And>v p y. rd v p = Inr y \<Longrightarrow> ok y"
  shows "pred_option ok x"
  using assms(1) by (auto simp: optionRead_def bindR_eq_Inr split: option.splits if_splits dest: assms(2))

lemma indexingOf_shaped: "indexingOf m = Inr x \<Longrightarrow> shapedMode x"
proof -
  assume "indexingOf m = Inr x"
  then obtain manifest ms execution indexer retention completeness auth arr where
    x: "x = BlockchainIndexing manifest ms execution indexer retention completeness auth"
    and ms: "mapR (\<lambda>(i, mv). moduleOf mv (elemPath (atField m ''wasm_modules'') i)) arr = Inr ms"
    and c: "optionRead m ''completeness'' completenessOf = Inr completeness"
    unfolding indexingOf_def bindR_eq_Inr by blast
  have "list_all (\<lambda>m. length (wmHash m) = 32) ms"
    using ms by (rule mapR_all) (auto simp: moduleOf_def bindR_eq_Inr ensureR_eq_Inr)
  moreover have "pred_option okCompleteness completeness"
    using c by (rule optionRead_all) (rule completenessOf_shaped)
  ultimately show "shapedMode x" using x by simp
qed

lemma modeOf_shaped: "modeOf v p = Inr x \<Longrightarrow> shapedMode x"
  by (auto simp: modeOf_def bindR_eq_Inr dataStorageOf_def fileStorageOf_def
      split: prod.splits if_splits dest: indexingOf_shaped)

lemma mode_fits:
  assumes "length (encMode x) < 2 ^ 64" and "shapedMode x"
  shows "okMode x"
proof (cases x)
  case (BlockchainIndexing manifest modules execution indexer retention completeness auth)
  have "length modules < 2 ^ 64
      \<and> list_all (\<lambda>m. length (wmHash m) = 32 \<longrightarrow> okModule m) modules"
    using assms(1) BlockchainIndexing
    by (intro encVec_fits [of encModule]) (auto simp: okModule_def shortStr_def shortBytes_def encModule_def)
  then show ?thesis
    using assms BlockchainIndexing by (auto simp: shortBytes_def shortList_def list_all_iff)
qed (use assms in \<open>auto simp: shortStr_def intro!: strs_fit\<close>)

lemma readTx_fits:
  assumes "readTx v = Inr t" and "length (encTx t) < 2 ^ 64"
  shows "okTx t"
proof -
  have "shapedMode (ctMode t)"
    using assms(1) by (auto simp: readTx_def bindR_eq_Inr orRead_def split: option.splits dest!: modeOf_shaped)
  then have "okMode (ctMode t)" using assms(2) by (intro mode_fits) (simp_all add: encTx_def)
  moreover have "pred_option okPrivacy (ctPrivacy t)"
  proof (rule option_fits [of encPrivacy _ "2 ^ 64"])
    show "length (encOption encPrivacy (ctPrivacy t)) < 2 ^ 64" using assms(2) by (simp add: encTx_def)
  next
    fix p
    assume "length (encPrivacy p) < 2 ^ 64"
    then show "okPrivacy p"
      unfolding okPrivacy_def by (intro option_fits [of putStrs _ "2 ^ 64"] strs_fit) (auto simp: encPrivacy_def)
  qed
  moreover have "pred_option okGrant (ctGrant t)"
    by (rule option_fits [of encGrant _ "2 ^ 64"]) (use assms(2) in \<open>auto simp: encTx_def
      encGrant_def okGrant_def shortStr_def shortBytes_def\<close>)
  moreover have "pred_option okTemplate (ctTemplate t)"
    by (rule option_fits [of encTemplate _ "2 ^ 64"]) (use assms(2) in \<open>auto simp: encTx_def
      encTemplate_def okTemplate_def shortStr_def shortBytes_def intro!: strs_fit
      option_fits [of putStr _ "2 ^ 64"]\<close>)
  ultimately show ?thesis
    using assms(2) by (auto simp: okTx_def encTx_def shortStr_def intro!: strs_fit)
qed

subsection \<open>Properties\<close>


text \<open>C20: the bytes hashed for a registration determine it: two JSON texts with the same
  unsigned bincode (shorter than \<open>2 ^ 64\<close> bytes) are decoded by the chain as the same
  transaction, defaults filled in, every field and every nested list and variant included.\<close>

theorem bincode_binds_registration:
  assumes "RegisterSubgroveUnsignedBincode a = Inr b" and "RegisterSubgroveUnsignedBincode c = Inr b"
    and "length b < 2 ^ 64"
  shows "bindR (decodeExact a) readTx = bindR (decodeExact c) readTx"
proof -
  obtain v w t u where v: "decodeExact a = Inr v" "readTx v = Inr t" "b = encTx t"
    and w: "decodeExact c = Inr w" "readTx w = Inr u" "b = encTx u"
    using assms by (auto simp: RegisterSubgroveUnsignedBincode_def registerSubgrove_refines bindR_eq_Inr)
  have "okTx t" "okTx u"
    using readTx_fits [OF v(2)] readTx_fits [OF w(2)] v(3) w(3) assms(3) by simp_all
  then have "t = u" using txCode.enc_inj v(3) w(3) by metis
  then show ?thesis using v w by simp
qed

definition sampleJson :: string where
  "sampleJson =
     ''{\"subgrove_id\":\"a\",\"name\":\"A\",\"schema\":\"{}\",\"owner_did\":\"did:willow:a\",'' @
     ''\"signature\":[],\"public_key_id\":\"k\",\"nonce\":3}''"

text \<open>The same registration with a default spelled out.\<close>

definition sampleJson2 :: string where
  "sampleJson2 =
     ''{\"subgrove_id\":\"a\",\"name\":\"A\",\"description\":\"\",\"schema\":\"{}\",\"owner_did\":\"did:willow:a\",'' @
     ''\"signature\":[1,2],\"public_key_id\":\"k\",\"nonce\":3}''"

definition sampleTx :: ChainTx where
  "sampleTx =
     \<lparr>ctSubgroveID = ''a'', ctName = ''A'', ctDescription = [], ctSchema = ''{}'',
      ctOwner = ''did:willow:a'', ctAdmins = [], ctFunding = None, ctRequiredTee = None,
      ctMode = DataStorage [] [] [] None, ctPrivacy = None, ctGrant = None, ctTemplate = None,
      ctDepth = 0, ctPublicKeyID = ''k'', ctNonce = 3, ctCompleteness = False\<rparr>"

lemmas read_field =
  fieldStr_def fieldStrOr_def fieldStrs_def fieldStrsOrEmpty_def fieldUint_def fieldUintOr_def
  fieldBool_def fieldBoolOr_def fieldBytes_def getField_def lookupField_def member_def orRead_def

lemma sample_decoded:
  "decodeExact sampleJson =
     Inr (JObj [(''subgrove_id'', JStr ''a''), (''name'', JStr ''A''), (''schema'', JStr ''{}''),
                (''owner_did'', JStr ''did:willow:a''), (''signature'', JArr []),
                (''public_key_id'', JStr ''k''), (''nonce'', JNum ''3'')])"
  by code_simp

lemma sample2_decoded:
  "decodeExact sampleJson2 =
     Inr (JObj [(''subgrove_id'', JStr ''a''), (''name'', JStr ''A''), (''description'', JStr []),
                (''schema'', JStr ''{}''), (''owner_did'', JStr ''did:willow:a''),
                (''signature'', JArr [JNum ''1'', JNum ''2'']), (''public_key_id'', JStr ''k''),
                (''nonce'', JNum ''3'')])"
  by code_simp

lemma sample_read:
  "bindR (decodeExact sampleJson) readTx = Inr sampleTx"
  "bindR (decodeExact sampleJson2) readTx = Inr sampleTx"
proof -
  have "parseUint 64 ''3'' = Some 3" "parseUint 8 ''1'' = Some 1" "parseUint 8 ''2'' = Some 2"
    by (simp_all add: parseUint_def digitsVal_def digitVal_def isDigit_def)
  then show "bindR (decodeExact sampleJson) readTx = Inr sampleTx"
    "bindR (decodeExact sampleJson2) readTx = Inr sampleTx"
    by (simp_all add: sample_decoded sample2_decoded readTx_def read_field optionRead_def sampleTx_def)
qed

theorem bincode_binds_registration_witness:
  "RegisterSubgroveUnsignedBincode sampleJson = Inr (encTx sampleTx)
   \<and> bindR (decodeExact sampleJson) readTx = bindR (decodeExact sampleJson2) readTx"
proof -
  have b: "RegisterSubgroveUnsignedBincode sampleJson = Inr (encTx sampleTx)"
    "RegisterSubgroveUnsignedBincode sampleJson2 = Inr (encTx sampleTx)"
    using sample_read
    by (auto simp: RegisterSubgroveUnsignedBincode_def registerSubgrove_refines bindR_eq_Inr)
  have "length (encTx sampleTx) < 2 ^ 64"
    by (simp add: encTx_def sampleTx_def putStrs_def encOption_def)
  from bincode_binds_registration [OF b this] show ?thesis using b(1) by blast
qed

end
