(* ===== verification/RegisterMessage.thy ===== *)
theory RegisterMessage
  imports RegisterSubgrove
begin

text \<open>
  The registration of a subgrove as the SDK holds and signs it: the structs of
  \<^verbatim>\<open>consensus/types.go\<close> and \<^verbatim>\<open>consensus/privacy.go\<close> and the JSON they marshal to, the checks
  made before signing (\<^verbatim>\<open>checkStorageRegistration\<close>, \<^verbatim>\<open>checkChainSchema\<close>) and the signed message
  (\<^verbatim>\<open>FormatRegisterSubgroveMessage\<close> in \<^verbatim>\<open>signed_messages.go\<close>), whose Config line is the SHA-256
  of the bincode.  The theory shows that the chain reads back the registration the SDK holds
  (\<open>readTx_txJson\<close>) and that two registrations with one signed message are read alike.
\<close>

subsection \<open>The transaction as the SDK holds it\<close>

text \<open>
  The Go structs of \<^verbatim>\<open>consensus/types.go\<close> and \<^verbatim>\<open>consensus/privacy.go\<close>.  A nil slice is the
  empty list where both marshal alike; \<^verbatim>\<open>AllowedIndexers\<close>, where they do not, is optional.
\<close>

record SubgroveDataStorage =
  dsName :: string
  dsWriters :: "string list"
  dsFreeReaders :: "string list"
  dsReadPricing :: "Pricing option"

record SubgroveFileStorage =
  fsName :: string
  fsMaxFileSize :: u64
  fsReplicationFactor :: byte
  fsWriters :: "string list"
  fsFreeReaders :: "string list"
  fsReadPricing :: "Pricing option"
  fsRetentionPeriod :: u64

record SubgroveMode =
  smDataStorage :: "SubgroveDataStorage option"
  smFileStorage :: "SubgroveFileStorage option"
  smBlockchainIndexing :: "json option"

record CommitmentFrequency =
  cfVariant :: string
  cfN :: u64

record PrivacyConfig =
  pcAllowedIndexers :: "string list option"
  pcCommitmentFrequency :: CommitmentFrequency

record RegisterSubgroveTx =
  rsSubgroveID :: string
  rsName :: string
  rsDescription :: string
  rsSchema :: string
  rsOwnerDid :: string
  rsAdmins :: "string list"
  rsInitialFunding :: "Uint128 option"
  rsRequiredTEE :: "string option"
  rsMode :: "SubgroveMode option"
  rsPrivacy :: "PrivacyConfig option"
  rsInitialOwnerKeyGrant :: "EncryptedKeyGrant option"
  rsTemplateConfig :: "string option"
  rsConfirmationDepth :: u32
  rsSignature :: bytes
  rsPublicKeyID :: string
  rsNonce :: u64
  rsCryptographicCompleteness :: bool

text \<open>
  \<^verbatim>\<open>json.Marshal\<close> of a string, read back: each byte that starts no well-formed UTF-8 sequence
  is U+FFFD.
\<close>

function coerceUtf8 :: "string \<Rightarrow> string" where
  "coerceUtf8 s =
     (case s of
        [] \<Rightarrow> []
      | c # t \<Rightarrow>
          let n = runeLen (map charNat s) in
          if n = 0 then replacementText @ coerceUtf8 t else take n s @ coerceUtf8 (drop n s))"
  by auto
termination
  by (relation "measure length") auto

declare coerceUtf8.simps [simp del]

definition textJson :: "string \<Rightarrow> json" where
  "textJson s = JStr (coerceUtf8 s)"

definition textsJson :: "string list \<Rightarrow> json" where
  "textsJson xs = JArr (map textJson xs)"

definition optJson :: "('a \<Rightarrow> json) \<Rightarrow> 'a option \<Rightarrow> json" where
  "optJson f x = (case x of None \<Rightarrow> JNull | Some y \<Rightarrow> f y)"

definition u128Json :: "Uint128 \<Rightarrow> json" where
  "u128Json u = JNum (MarshalJSON u)"

definition pricingJson :: "Pricing \<Rightarrow> json" where
  "pricingJson p =
     JObj [(''enabled'', JBool (prEnabled p)), (''price_per_query'', u128Json (prPrice p)),
           (''owner_revenue_share_bps'', uintJson (unat (prShare p)))]"

definition dataStorageJson :: "SubgroveDataStorage \<Rightarrow> json" where
  "dataStorageJson m =
     JObj [(''name'', textJson (dsName m)), (''writers'', textsJson (dsWriters m)),
           (''free_readers'', textsJson (dsFreeReaders m)),
           (''read_pricing'', optJson pricingJson (dsReadPricing m))]"

definition fileStorageJson :: "SubgroveFileStorage \<Rightarrow> json" where
  "fileStorageJson m =
     JObj [(''name'', textJson (fsName m)), (''max_file_size'', uintJson (unat (fsMaxFileSize m))),
           (''replication_factor'', uintJson (unat (fsReplicationFactor m))),
           (''writers'', textsJson (fsWriters m)), (''free_readers'', textsJson (fsFreeReaders m)),
           (''read_pricing'', optJson pricingJson (fsReadPricing m)),
           (''retention_period'', uintJson (unat (fsRetentionPeriod m)))]"

definition omitEmpty :: "string \<Rightarrow> json option \<Rightarrow> (string \<times> json) list" where
  "omitEmpty name v = (case v of None \<Rightarrow> [] | Some j \<Rightarrow> [(name, j)])"

definition modeJson :: "SubgroveMode \<Rightarrow> json" where
  "modeJson m =
     JObj (omitEmpty ''DataStorage'' (map_option dataStorageJson (smDataStorage m))
           @ omitEmpty ''FileStorage'' (map_option fileStorageJson (smFileStorage m))
           @ omitEmpty ''BlockchainIndexing'' (smBlockchainIndexing m))"

definition frequencyJson :: "CommitmentFrequency \<Rightarrow> json" where
  "frequencyJson cf =
     (if cfVariant cf = ''EveryUpdate'' \<or> cfVariant cf = ''Never'' then JStr (cfVariant cf)
      else if cfVariant cf = ''EveryNBlocks'' then JObj [(''EveryNBlocks'', uintJson (unat (cfN cf)))]
      else if cfVariant cf = ''EveryNSeconds'' then JObj [(''EveryNSeconds'', uintJson (unat (cfN cf)))]
      else JStr ''EveryUpdate'')"

definition privacyJson :: "PrivacyConfig \<Rightarrow> json" where
  "privacyJson p =
     JObj [(''allowed_indexers'', optJson textsJson (pcAllowedIndexers p)),
           (''commitment_frequency'', frequencyJson (pcCommitmentFrequency p))]"

definition grantJson :: "EncryptedKeyGrant \<Rightarrow> json" where
  "grantJson g =
     JObj [(''grantee_did'', textJson (GranteeDID g)), (''key_epoch'', uintJson (unat (KeyEpoch g))),
           (''grantee_public_key_id'', textJson (GranteePublicKeyID g)),
           (''ephemeral_public_key'', byteArrayJson (EphemeralPublicKey g)),
           (''encrypted_key'', byteArrayJson (EncryptedKey g)),
           (''granted_by'', textJson (GrantedBy g)), (''granted_at'', uintJson (unat (GrantedAt g)))]"

definition emptyDataStorage :: SubgroveDataStorage where
  "emptyDataStorage = \<lparr>dsName = [], dsWriters = [], dsFreeReaders = [], dsReadPricing = None\<rparr>"

definition modeOrDefault :: "RegisterSubgroveTx \<Rightarrow> SubgroveMode" where
  "modeOrDefault tx =
     (case rsMode tx of
        None \<Rightarrow> \<lparr>smDataStorage = Some emptyDataStorage, smFileStorage = None, smBlockchainIndexing = None\<rparr>
      | Some m \<Rightarrow> m)"

text \<open>The template configuration is JSON text the caller gives; text that is no JSON fails to marshal.\<close>

definition templateJson :: "string option \<Rightarrow> json option" where
  "templateJson t = (case t of None \<Rightarrow> Some JNull | Some raw \<Rightarrow> unmarshalJson raw)"

definition txJson :: "RegisterSubgroveTx \<Rightarrow> json \<Rightarrow> json" where
  "txJson tx template =
     JObj [(''subgrove_id'', textJson (rsSubgroveID tx)), (''name'', textJson (rsName tx)),
           (''description'', textJson (rsDescription tx)), (''schema'', textJson (rsSchema tx)),
           (''owner_did'', textJson (rsOwnerDid tx)), (''admins'', textsJson (rsAdmins tx)),
           (''initial_funding'', optJson u128Json (rsInitialFunding tx)),
           (''checkpoint_verification'', JObj [(''required_tee'', optJson textJson (rsRequiredTEE tx))]),
           (''mode'', modeJson (modeOrDefault tx)),
           (''privacy'', optJson privacyJson (rsPrivacy tx)),
           (''initial_owner_key_grant'', optJson grantJson (rsInitialOwnerKeyGrant tx)),
           (''template_config'', template),
           (''confirmation_depth'', uintJson (unat (rsConfirmationDepth tx))),
           (''signature'', byteArrayJson (rsSignature tx)),
           (''public_key_id'', textJson (rsPublicKeyID tx)),
           (''nonce'', uintJson (unat (rsNonce tx))),
           (''cryptographic_completeness'', JBool (rsCryptographicCompleteness tx))]"

definition marshalTx :: "RegisterSubgroveTx \<Rightarrow> json option" where
  "marshalTx tx = map_option (txJson tx) (templateJson (rsTemplateConfig tx))"

subsection \<open>What a registration is checked for\<close>

datatype registerError =
    ModeCount nat
  | IndexingNotSigned
  | FieldRefused messageError
  | SchemaNotObject
  | SchemaTwice string
  | SchemaVersion
  | SchemaFields string
  | SchemaIndexes
  | SchemaRequired
  | SchemaDeclaresIndexes
  | GrantNotEpochZero u32
  | GrantNotOwner string string
  | MarshalFailed
  | BincodeRefused bincodeError

text \<open>\<^verbatim>\<open>jsonObjectEntries\<close>: the members of one object, in order, a key given twice included.\<close>

definition jsonObjectEntries :: "string \<Rightarrow> (string \<times> json) list option" where
  "jsonObjectEntries data =
     (case readJson (Suc maxNestingDepth) ExpectValue [] data of
        Some (JObj ms, r) \<Rightarrow> if skipWs r = [] then Some ms else None
      | _ \<Rightarrow> None)"

definition chainFieldTypes :: "string list" where
  "chainFieldTypes = [''string'', ''number'', ''boolean'', ''array'', ''object'', ''bytes'']"

fun schemaField :: "string \<times> json \<Rightarrow> registerError + unit" where
  "schemaField (k, JStr t) = ensureR (t \<in> set chainFieldTypes) (SchemaFields k)"
| "schemaField (k, v) = Inl (SchemaFields k)"

fun isText :: "json \<Rightarrow> bool" where
  "isText (JStr s) = True"
| "isText v = False"

definition schemaEntry :: "string \<Rightarrow> json \<Rightarrow> registerError + unit" where
  "schemaEntry key v =
     (if key = ''version'' then
        (case v of
           JNum n \<Rightarrow> ensureR (parseUint 32 n \<noteq> None) SchemaVersion
         | _ \<Rightarrow> Inl SchemaVersion)
      else if key = ''fields'' then
        (case v of JObj ms \<Rightarrow> eachR schemaField ms | _ \<Rightarrow> Inl (SchemaFields []))
      else if key = ''indexes'' then
        (case v of JArr vs \<Rightarrow> ensureR (vs = []) SchemaDeclaresIndexes | _ \<Rightarrow> Inl SchemaIndexes)
      else
        (case v of
           JArr vs \<Rightarrow> eachR (\<lambda>name. ensureR (isText name) SchemaRequired) vs
         | _ \<Rightarrow> Inl SchemaRequired))"

primrec checkEntries :: "string list \<Rightarrow> (string \<times> json) list \<Rightarrow> registerError + unit" where
  "checkEntries seen [] = Inr ()"
| "checkEntries seen (e # es) =
     (case e of (key, v) \<Rightarrow>
        if key \<notin> set [''version'', ''fields'', ''indexes'', ''required_fields''] then checkEntries seen es
        else if key \<in> set seen then Inl (SchemaTwice key)
        else bindR (schemaEntry key v) (\<lambda>_. checkEntries (key # seen) es))"

definition checkChainSchema :: "string \<Rightarrow> registerError + unit" where
  "checkChainSchema schema =
     (case jsonObjectEntries schema of
        None \<Rightarrow> Inl SchemaNotObject
      | Some entries \<Rightarrow> checkEntries [] entries)"

definition refuse :: "messageError + unit \<Rightarrow> registerError + unit" where
  "refuse r = (case r of Inl e \<Rightarrow> Inl (FieldRefused e) | Inr u \<Rightarrow> Inr u)"

definition modeWriters :: "SubgroveMode option \<Rightarrow> string list \<times> string list" where
  "modeWriters m =
     (case m of
        None \<Rightarrow> ([], [])
      | Some mode \<Rightarrow>
          (case smDataStorage mode of
             Some d \<Rightarrow> (dsWriters d, dsFreeReaders d)
           | None \<Rightarrow>
               (case smFileStorage mode of
                  Some f \<Rightarrow> (fsWriters f, fsFreeReaders f)
                | None \<Rightarrow> ([], []))))"

definition ownerGrant :: "RegisterSubgroveTx \<Rightarrow> registerError + unit" where
  "ownerGrant tx =
     (case rsInitialOwnerKeyGrant tx of
        None \<Rightarrow> Inr ()
      | Some grant \<Rightarrow>
          if \<not> ((case rsMode tx of None \<Rightarrow> True | Some m \<Rightarrow> smDataStorage m \<noteq> None) \<and> rsPrivacy tx \<noteq> None)
          then Inr ()
          else if KeyEpoch grant \<noteq> 0 then Inl (GrantNotEpochZero (KeyEpoch grant))
          else if GranteeDID grant \<noteq> rsOwnerDid tx
          then Inl (GrantNotOwner (rsOwnerDid tx) (GranteeDID grant))
          else refuse (validateWillowDID (GranteeDID grant) ''initial owner key grant grantee''))"

definition checkStorageRegistration :: "RegisterSubgroveTx \<Rightarrow> registerError + unit" where
  "checkStorageRegistration tx =
     bindR (refuse (validateStorageSubgroveID (rsSubgroveID tx))) (\<lambda>_.
     bindR (eachR (\<lambda>a. refuse (validateWillowDID a ''admin'')) (rsAdmins tx)) (\<lambda>_.
     bindR (eachR (\<lambda>w. refuse (validateWillowDID w ''writer'')) (fst (modeWriters (rsMode tx)))) (\<lambda>_.
     bindR (eachR (\<lambda>r. refuse (validateWillowDID r ''free reader'')) (snd (modeWriters (rsMode tx)))) (\<lambda>_.
     bindR (checkChainSchema (rsSchema tx)) (\<lambda>_. ownerGrant tx)))))"

definition checkMode :: "SubgroveMode option \<Rightarrow> registerError + unit" where
  "checkMode mode =
     (case mode of
        None \<Rightarrow> Inr ()
      | Some m \<Rightarrow>
          let modes = length (filter id [smDataStorage m \<noteq> None, smFileStorage m \<noteq> None,
                                         smBlockchainIndexing m \<noteq> None]) in
          if modes \<noteq> 1 then Inl (ModeCount modes)
          else if smBlockchainIndexing m \<noteq> None then Inl IndexingNotSigned
          else Inr ())"

definition registerMessage :: "RegisterSubgroveTx \<Rightarrow> bytes \<Rightarrow> messageError + string" where
  "registerMessage tx payload =
     build
     (uintLine ''Nonce'' (unat (rsNonce tx))
     (hexLine ''Config'' (sha256 payload)
     (textLine ''Owner'' (rsOwnerDid tx)
     (textLine ''Subgrove'' (rsSubgroveID tx)
     (newSignedMessage ''RegisterSubgrove'')))))"

definition FormatRegisterSubgroveMessage :: "RegisterSubgroveTx \<Rightarrow> registerError + string" where
  "FormatRegisterSubgroveMessage tx =
     bindR (checkMode (rsMode tx)) (\<lambda>_.
     bindR (checkStorageRegistration tx) (\<lambda>_.
     case marshalTx tx of
       None \<Rightarrow> Inl MarshalFailed
     | Some body \<Rightarrow>
         (case registerSubgrove body of
            Inl e \<Rightarrow> Inl (BincodeRefused e)
          | Inr payload \<Rightarrow>
              (case registerMessage tx payload of
                 Inl e \<Rightarrow> Inl (FieldRefused e)
               | Inr m \<Rightarrow> Inr m))))"

subsection \<open>The chain reads what the SDK holds\<close>

definition chainGrant :: "EncryptedKeyGrant \<Rightarrow> EncryptedKeyGrant" where
  "chainGrant g =
     g\<lparr>GranteeDID := coerceUtf8 (GranteeDID g), GranteePublicKeyID := coerceUtf8 (GranteePublicKeyID g),
       GrantedBy := coerceUtf8 (GrantedBy g)\<rparr>"

definition chainDataStorage :: "SubgroveDataStorage \<Rightarrow> Mode" where
  "chainDataStorage d =
     DataStorage (coerceUtf8 (dsName d)) (map coerceUtf8 (dsWriters d)) (map coerceUtf8 (dsFreeReaders d))
       (dsReadPricing d)"

definition chainFileStorage :: "SubgroveFileStorage \<Rightarrow> Mode" where
  "chainFileStorage f =
     FileStorage (coerceUtf8 (fsName f)) (fsMaxFileSize f) (fsReplicationFactor f)
       (map coerceUtf8 (fsWriters f)) (map coerceUtf8 (fsFreeReaders f)) (fsReadPricing f)
       (fsRetentionPeriod f)"

definition chainMode :: "SubgroveMode \<Rightarrow> Mode" where
  "chainMode m =
     (case smDataStorage m of
        Some d \<Rightarrow> chainDataStorage d
      | None \<Rightarrow> chainFileStorage (the (smFileStorage m)))"

definition chainFrequency :: "CommitmentFrequency \<Rightarrow> Frequency" where
  "chainFrequency cf =
     (if cfVariant cf = ''Never'' then NeverCommit
      else if cfVariant cf = ''EveryNBlocks'' then EveryNBlocks (cfN cf)
      else if cfVariant cf = ''EveryNSeconds'' then EveryNSeconds (cfN cf)
      else EveryUpdate)"

definition chainPrivacy :: "PrivacyConfig \<Rightarrow> Privacy" where
  "chainPrivacy p =
     \<lparr>pvAllowed = map_option (map coerceUtf8) (pcAllowedIndexers p),
      pvFrequency = chainFrequency (pcCommitmentFrequency p)\<rparr>"

text \<open>The transaction the chain decodes, given the environment and template it reads.\<close>

definition chainOf :: "RegisterSubgroveTx \<Rightarrow> TeeType option \<Rightarrow> Template option \<Rightarrow> ChainTx" where
  "chainOf tx tee template =
     \<lparr>ctSubgroveID = coerceUtf8 (rsSubgroveID tx), ctName = coerceUtf8 (rsName tx),
      ctDescription = coerceUtf8 (rsDescription tx), ctSchema = coerceUtf8 (rsSchema tx),
      ctOwner = coerceUtf8 (rsOwnerDid tx), ctAdmins = map coerceUtf8 (rsAdmins tx),
      ctFunding = rsInitialFunding tx, ctRequiredTee = tee, ctMode = chainMode (modeOrDefault tx),
      ctPrivacy = map_option chainPrivacy (rsPrivacy tx),
      ctGrant = map_option chainGrant (rsInitialOwnerKeyGrant tx), ctTemplate = template,
      ctDepth = rsConfirmationDepth tx, ctPublicKeyID = coerceUtf8 (rsPublicKeyID tx),
      ctNonce = rsNonce tx, ctCompleteness = rsCryptographicCompleteness tx\<rparr>"

definition optionOf :: "(json \<Rightarrow> string \<Rightarrow> bincodeError + 'a) \<Rightarrow> json \<Rightarrow> string \<Rightarrow> bincodeError + 'a option" where
  "optionOf rd v p = (if v = JNull then Inr None else bindR (rd v p) (\<lambda>x. Inr (Some x)))"

lemma optionRead_field: "lookupField ob name = Some v \<Longrightarrow> optionRead ob name rd = optionOf rd v (atField ob name)"
  by (simp add: optionRead_def optionOf_def)

lemma mapR_enumerate:
  "(\<And>i x. x \<in> set xs \<Longrightarrow> f (i, h x) = Inr (g x)) \<Longrightarrow> mapR f (enumerate k (map h xs)) = Inr (map g xs)"
  by (induction xs arbitrary: k) simp_all

lemma asString_text [simp]: "asString (textJson s) p = Inr (coerceUtf8 s)"
  by (simp add: textJson_def)

lemma asStrings_texts [simp]: "asStrings (textsJson xs) p = Inr (map coerceUtf8 xs)"
  by (simp add: textsJson_def mapR_enumerate)

lemma asUint_uint:
  "asUint (uintJson (unat b)) 8 p = Inr (unat b)" "asUint (uintJson (unat w)) 32 p = Inr (unat w)"
  "asUint (uintJson (unat d)) 64 p = Inr (unat d)" for b :: byte and w :: u32 and d :: u64
  using unat_small(1) [of b] unat_small(2) [of w] unat_small(3) [of d]
  by (simp_all only: uintJson_def asUint.simps parseUint_formatUint if_True option.case)

lemma asBytes_array [simp]: "asBytes (byteArrayJson bs) p = Inr bs"
proof -
  have "mapR (\<lambda>(i, x). bindR (asUint x 8 (elemPath p i)) (\<lambda>b. Inr (of_nat b)))
      (enumerate 0 (map (\<lambda>b. uintJson (unat b)) bs)) = Inr (map (\<lambda>b. b) bs)"
    by (rule mapR_enumerate) (simp add: asUint_uint)
  then show ?thesis by (simp add: byteArrayJson_def)
qed

lemma asU128_u128 [simp]: "asU128 (u128Json u) p b = Inr u"
  by (simp add: u128Json_def MarshalJSON_def u128Text_def)

lemma json_not_null [simp]:
  "textJson s \<noteq> JNull" "textsJson xs \<noteq> JNull" "u128Json u \<noteq> JNull" "pricingJson r \<noteq> JNull"
  "privacyJson q \<noteq> JNull" "grantJson g \<noteq> JNull"
  by (simp_all add: textJson_def textsJson_def u128Json_def pricingJson_def privacyJson_def grantJson_def)

lemma optionOf_optJson:
  assumes "\<And>x. f x \<noteq> JNull" and "\<And>x. rd (f x) p = Inr (g x)"
  shows "optionOf rd (optJson f y) p = Inr (map_option g y)"
  using assms by (cases y) (simp_all add: optionOf_def optJson_def)

lemma pricing_reads [simp]: "pricingOf (pricingJson x) p = Inr x"
  by (simp add: pricingOf_def pricingJson_def read_field optionRead_field asUint_uint)

lemma grant_reads [simp]: "grantOf (grantJson g) p = Inr (chainGrant g)"
  by (simp add: grantOf_def grantJson_def read_field optionRead_field asUint_uint chainGrant_def)

lemma pricing_opt_reads: "optionOf pricingOf (optJson pricingJson x) p = Inr x"
  using optionOf_optJson [of pricingJson pricingOf p id x] by (simp add: option.map_id)

lemma dataStorage_reads:
  "asObject (dataStorageJson d) q = Inr m \<Longrightarrow> dataStorageOf m = Inr (chainDataStorage d)"
  by (auto simp: dataStorageJson_def dataStorageOf_def freeReadersField_def read_field optionRead_field
      pricing_opt_reads chainDataStorage_def)

lemma fileStorage_reads:
  "asObject (fileStorageJson d) q = Inr m \<Longrightarrow> fileStorageOf m = Inr (chainFileStorage d)"
  by (auto simp: fileStorageJson_def fileStorageOf_def read_field optionRead_field asUint_uint
      pricing_opt_reads chainFileStorage_def)

lemma checkMode_shape:
  assumes "checkMode (rsMode tx) = Inr ()"
  obtains d where "modeOrDefault tx = \<lparr>smDataStorage = Some d, smFileStorage = None, smBlockchainIndexing = None\<rparr>"
  | f where "modeOrDefault tx = \<lparr>smDataStorage = None, smFileStorage = Some f, smBlockchainIndexing = None\<rparr>"
proof (cases "rsMode tx")
  case None
  then show ?thesis using that by (simp add: modeOrDefault_def)
next
  case (Some m)
  obtain d f ix where m: "m = \<lparr>smDataStorage = d, smFileStorage = f, smBlockchainIndexing = ix\<rparr>"
    by (cases m) simp
  then show ?thesis
    using assms Some that by (cases d; cases f; cases ix) (simp_all add: checkMode_def modeOrDefault_def)
qed

lemma mode_reads:
  assumes "checkMode (rsMode tx) = Inr ()"
  shows "modeOf (modeJson (modeOrDefault tx)) p = Inr (chainMode (modeOrDefault tx))"
  using assms
proof (rule checkMode_shape)
  fix d
  assume "modeOrDefault tx = \<lparr>smDataStorage = Some d, smFileStorage = None, smBlockchainIndexing = None\<rparr>"
  moreover obtain ms where "dataStorageJson d = JObj ms" by (simp add: dataStorageJson_def)
  ultimately show ?thesis
    using dataStorage_reads [of d]
    by (simp add: modeOf_def modeJson_def omitEmpty_def member_def variant_def subgroveModes_def chainMode_def)
next
  fix f
  assume "modeOrDefault tx = \<lparr>smDataStorage = None, smFileStorage = Some f, smBlockchainIndexing = None\<rparr>"
  moreover obtain ms where "fileStorageJson f = JObj ms" by (simp add: fileStorageJson_def)
  ultimately show ?thesis
    using fileStorage_reads [of f]
    by (simp add: modeOf_def modeJson_def omitEmpty_def member_def variant_def subgroveModes_def chainMode_def)
qed

lemma mode_reads_not_null: "modeJson m \<noteq> JNull"
  by (simp add: modeJson_def)

lemma privacy_reads [simp]: "privacyOf (privacyJson x) p = Inr (chainPrivacy x)"
proof -
  have "optionOf asStrings (optJson textsJson (pcAllowedIndexers x)) q
      = Inr (map_option (map coerceUtf8) (pcAllowedIndexers x))" for q
    by (rule optionOf_optJson) simp_all
  moreover consider "cfVariant (pcCommitmentFrequency x) = ''EveryUpdate''"
    | "cfVariant (pcCommitmentFrequency x) = ''Never''"
    | "cfVariant (pcCommitmentFrequency x) = ''EveryNBlocks''"
    | "cfVariant (pcCommitmentFrequency x) = ''EveryNSeconds''"
    | "cfVariant (pcCommitmentFrequency x) \<notin> {''EveryUpdate'', ''Never'', ''EveryNBlocks'', ''EveryNSeconds''}"
    by blast
  ultimately show ?thesis
    by cases (simp_all add: privacyOf_def privacyJson_def read_field optionRead_field frequencyJson_def chainPrivacy_def
        chainFrequency_def variant_def commitmentFrequencies_def asUint_uint)
qed

text \<open>
  The chain reads a marshalled registration as the registration itself, its texts as UTF-8;
  only an unknown environment or a template that does not parse is refused.
\<close>

lemma readTx_txJson:
  assumes "checkMode (rsMode tx) = Inr ()"
  shows "readTx (txJson tx j) =
     bindR (optionOf teeOf (optJson textJson (rsRequiredTEE tx))
              ''RegisterSubgrove.checkpoint_verification.required_tee'') (\<lambda>tee.
     bindR (optionOf templateOf j ''RegisterSubgrove.template_config'') (\<lambda>template.
       Inr (chainOf tx tee template)))"
proof -
  have funding: "optionOf (\<lambda>v p. asU128 v p True) (optJson u128Json x) p = Inr x" for x p
    using optionOf_optJson [of u128Json "\<lambda>v p. asU128 v p True" p id x] by (simp add: option.map_id)
  have priv: "optionOf privacyOf (optJson privacyJson x) p = Inr (map_option chainPrivacy x)" for x p
    by (rule optionOf_optJson) simp_all
  have grant: "optionOf grantOf (optJson grantJson x) p = Inr (map_option chainGrant x)" for x p
    by (rule optionOf_optJson) simp_all
  show ?thesis
    by (simp add: readTx_def txJson_def read_field optionRead_field asUint_uint funding priv grant
        mode_reads [OF assms] checkpointOf_def atField_def chainOf_def)
qed

subsection \<open>Properties\<close>

text \<open>The bytes whose SHA-256 the Config line carries.\<close>

definition unsignedBincode :: "RegisterSubgroveTx \<Rightarrow> registerError + bytes" where
  "unsignedBincode tx =
     (case marshalTx tx of
        None \<Rightarrow> Inl MarshalFailed
      | Some body \<Rightarrow>
          (case registerSubgrove body of Inl e \<Rightarrow> Inl (BincodeRefused e) | Inr payload \<Rightarrow> Inr payload))"

lemma Format_Inr:
  assumes "FormatRegisterSubgroveMessage tx = Inr m"
  obtains payload where "checkMode (rsMode tx) = Inr ()" and "checkStorageRegistration tx = Inr ()"
    and "unsignedBincode tx = Inr payload" and "registerMessage tx payload = Inr m"
  using assms
  by (auto simp: FormatRegisterSubgroveMessage_def unsignedBincode_def bindR_eq_Inr
      split: option.splits sum.splits)

lemma registerMessage_binds:
  assumes "registerMessage tx a = Inr m" and "registerMessage tx' b = Inr m"
  shows "rsSubgroveID tx = rsSubgroveID tx' \<and> rsOwnerDid tx = rsOwnerDid tx' \<and> sha256 a = sha256 b
    \<and> rsNonce tx = rsNonce tx'"
proof -
  let ?lines = "\<lambda>tx a. [''RegisterSubgrove'', fieldLine ''Subgrove'' (rsSubgroveID tx),
      fieldLine ''Owner'' (rsOwnerDid tx), fieldLine ''Config'' (hexEncode (sha256 a)),
      fieldLine ''Nonce'' (formatUint (unat (rsNonce tx)))]"
  have labels: "plain ''RegisterSubgrove''" "plain ''Config''" by (simp_all add: plain_def newline_def)
  have lines: "m = joinLines (?lines tx a) \<and> list_all plain (?lines tx a)"
    if "registerMessage tx a = Inr m" for tx a
    using that labels by (auto simp: registerMessage_def build_Inr plain_fieldLine)
  have "?lines tx a = ?lines tx' b"
    using lines [OF assms(1)] lines [OF assms(2)] by (intro same_lines) auto
  then show ?thesis by (simp add: field_injs)
qed

text \<open>C21: the signed message of a registration binds all of it.  If two registrations have
  the same message and SHA-256 does not collide on their two encodings, the chain reads
  both as the same transaction: same id, names, schema, owner, admins, funding, mode with
  its lists and pricing, privacy, key grant, template, depth, key, nonce and completeness,
  texts compared as the UTF-8 that is sent.\<close>

theorem register_message_binds:
  assumes "FormatRegisterSubgroveMessage tx = Inr m" and "FormatRegisterSubgroveMessage tx' = Inr m"
    and "unsignedBincode tx = Inr u" and "unsignedBincode tx' = Inr u'"
    and "sha256 u = sha256 u' \<longrightarrow> u = u'" and "length u < 2 ^ 64"
  shows "\<exists>tee template. chainOf tx tee template = chainOf tx' tee template
    \<and> u = encTx (chainOf tx tee template)"
proof -
  have parts: "\<exists>tee template j. readTx (txJson t j) = Inr (chainOf t tee template) \<and> b = encTx (chainOf t tee template)"
    if fmt: "FormatRegisterSubgroveMessage t = Inr m" and b: "unsignedBincode t = Inr b" for t b
  proof -
    obtain j where reg: "registerSubgrove (txJson t j) = Inr b"
      using b by (auto simp: unsignedBincode_def marshalTx_def split: option.splits sum.splits)
    obtain c where c: "readTx (txJson t j) = Inr c" "b = encTx c"
      using reg by (auto simp: registerSubgrove_refines bindR_eq_Inr)
    have "checkMode (rsMode t) = Inr ()" using fmt by (rule Format_Inr)
    from c(1) [unfolded readTx_txJson [OF this]] obtain tee template where "c = chainOf t tee template"
      by (auto simp: bindR_eq_Inr)
    then show ?thesis using c by auto
  qed
  have "sha256 u = sha256 u'"
    using assms(1-4) registerMessage_binds by (metis Format_Inr sum.inject(2))
  then have same: "u = u'" using assms(5) by simp
  obtain tee template j where t: "readTx (txJson tx j) = Inr (chainOf tx tee template)"
    "u = encTx (chainOf tx tee template)" using parts [OF assms(1,3)] by blast
  obtain tee' template' j' where t': "readTx (txJson tx' j') = Inr (chainOf tx' tee' template')"
    "u' = encTx (chainOf tx' tee' template')" using parts [OF assms(2,4)] by blast
  have "okTx (chainOf tx tee template)" "okTx (chainOf tx' tee' template')"
    using readTx_fits t t' same assms(6) by metis+
  then have eq: "chainOf tx tee template = chainOf tx' tee' template'"
    using txCode.enc_inj t(2) t'(2) same by metis
  then have "tee = tee'" "template = template'" by (simp_all add: chainOf_def)
  then show ?thesis using eq t(2) by metis
qed

text \<open>A registration without pricing or privacy, and the same one signed.\<close>

definition sampleRegistration :: "bytes \<Rightarrow> RegisterSubgroveTx" where
  "sampleRegistration sig =
     \<lparr>rsSubgroveID = ''notes'', rsName = ''Notes'', rsDescription = [],
      rsSchema = ''{\"version\":1,\"fields\":{\"t\":\"string\"},\"indexes\":[],\"required_fields\":[\"t\"]}'',
      rsOwnerDid = ''did:willow:a'', rsAdmins = [], rsInitialFunding = None, rsRequiredTEE = None,
      rsMode = None, rsPrivacy = None, rsInitialOwnerKeyGrant = None, rsTemplateConfig = None,
      rsConfirmationDepth = 0, rsSignature = sig, rsPublicKeyID = ''k1'', rsNonce = 3,
      rsCryptographicCompleteness = False\<rparr>"

lemma sample_schema: "checkChainSchema (rsSchema (sampleRegistration sig)) = Inr ()"
proof -
  have "jsonObjectEntries (rsSchema (sampleRegistration [])) =
      Some [(''version'', JNum ''1''), (''fields'', JObj [(''t'', JStr ''string'')]),
            (''indexes'', JArr []), (''required_fields'', JArr [JStr ''t''])]"
    by code_simp
  then have "jsonObjectEntries (rsSchema (sampleRegistration sig)) =
      Some [(''version'', JNum ''1''), (''fields'', JObj [(''t'', JStr ''string'')]),
            (''indexes'', JArr []), (''required_fields'', JArr [JStr ''t''])]"
    by (simp add: sampleRegistration_def)
  moreover have "parseUint 32 ''1'' \<noteq> None"
    by (simp add: parseUint_def digitsVal_def digitVal_def isDigit_def)
  ultimately show ?thesis
    by (simp add: checkChainSchema_def schemaEntry_def chainFieldTypes_def)
qed

lemma sample_bincode:
  "unsignedBincode (sampleRegistration sig) = Inr (encTx (chainOf (sampleRegistration sig) None None))"
proof -
  have "checkMode (rsMode (sampleRegistration sig)) = Inr ()"
    by (simp add: checkMode_def sampleRegistration_def)
  from readTx_txJson [OF this, of JNull] show ?thesis
    by (simp add: unsignedBincode_def marshalTx_def templateJson_def registerSubgrove_refines
        optionOf_def optJson_def sampleRegistration_def)
qed

lemma sample_message:
  "FormatRegisterSubgroveMessage (sampleRegistration sig)
     = FormatRegisterSubgroveMessage (sampleRegistration [])"
  "\<not> isl (FormatRegisterSubgroveMessage (sampleRegistration sig))"
proof -
  have checks: "checkMode None = Inr ()"
    "validateStorageSubgroveID ''notes'' = Inr ()" "validString ''notes''" "validString ''did:willow:a''"
    by code_simp+
  have storage: "checkStorageRegistration (sampleRegistration sig) = Inr ()" for sig
    using checks(2) sample_schema [of sig]
    by (simp add: checkStorageRegistration_def sampleRegistration_def modeWriters_def refuse_def ownerGrant_def)
  have chain: "chainOf (sampleRegistration sig) None None = chainOf (sampleRegistration []) None None" for sig
    by (simp add: chainOf_def sampleRegistration_def modeOrDefault_def)
  have plain: "plain ''notes''" "plain ''did:willow:a''" by (simp_all add: plain_def newline_def)
  have msg: "FormatRegisterSubgroveMessage (sampleRegistration sig) =
      Inr (projr (registerMessage (sampleRegistration []) (encTx (chainOf (sampleRegistration []) None None))))"
    for sig
  proof -
    let ?p = "encTx (chainOf (sampleRegistration []) None None)"
    have "\<exists>m. registerMessage (sampleRegistration sig) ?p = Inr m"
      using checks(3,4) plain by (simp add: registerMessage_def build_Inr sampleRegistration_def)
    moreover have "registerMessage (sampleRegistration sig) ?p = registerMessage (sampleRegistration []) ?p"
      by (simp add: registerMessage_def sampleRegistration_def)
    ultimately show ?thesis
      using sample_bincode [of sig] storage [of sig] checks(1) chain [of sig]
      by (auto simp: FormatRegisterSubgroveMessage_def unsignedBincode_def sampleRegistration_def
          split: option.splits sum.splits)
  qed
  show "FormatRegisterSubgroveMessage (sampleRegistration sig)
     = FormatRegisterSubgroveMessage (sampleRegistration [])" using msg by metis
  show "\<not> isl (FormatRegisterSubgroveMessage (sampleRegistration sig))" using msg by (metis sum.disc(2))
qed

theorem register_message_binds_witness:
  "\<exists>tee template. chainOf (sampleRegistration [7]) tee template = chainOf (sampleRegistration []) tee template"
proof -
  let ?m = "projr (FormatRegisterSubgroveMessage (sampleRegistration []))"
  have m: "FormatRegisterSubgroveMessage (sampleRegistration sig) = Inr ?m" for sig
    using sample_message [of sig] by (metis sum.collapse(2))
  have u: "unsignedBincode (sampleRegistration sig) = Inr (encTx (chainOf (sampleRegistration []) None None))" for sig
    using sample_bincode [of sig] by (simp add: chainOf_def sampleRegistration_def modeOrDefault_def)
  have "length (encTx (chainOf (sampleRegistration []) None None)) < 300" by code_simp
  then have short: "length (encTx (chainOf (sampleRegistration []) None None)) < 2 ^ 64" by simp
  from register_message_binds [OF m m u u _ short] show ?thesis by blast
qed

end
