(* ===== verification/Files.thy ===== *)
theory Files
  imports HttpBody SignedMessages Writes Json
begin

text \<open>
  File storage (\<^verbatim>\<open>files.go\<close>): splitting a file into chunks, the Merkle root over their hashes,
  the shape a manifest must have, and uploading, downloading and deleting a file with what
  they send and in which order.  The theory shows that the Merkle root binds the chunk
  hashes of a file of a known number of chunks, that what a download returns hashes to the
  manifest, and that a file uploaded is downloaded whole from a storage node that serves the
  chunks it was sent.

  What the storage node answers and what the API answers to a submission are arguments; the
  requests sent are part of the result.  The cipher of \<^verbatim>\<open>EncryptFile\<close> is a library's and an
  argument too.
\<close>

subsection \<open>Data\<close>

definition DefaultChunkSize :: nat where
  "DefaultChunkSize = 262144"

definition maxFileSize :: nat where
  "maxFileSize = 2 ^ 30"

definition maxChunkCount :: nat where
  "maxChunkCount = maxFileSize div 4096"

record FileSigningOptions =
  fsoOwnerDID :: string
  fsoPublicKeyID :: string
  fsoSignFunc :: "(string \<Rightarrow> string option) option"
  fsoNonce :: u64

record FileManifest =
  mfFileKey :: string
  mfFilename :: string
  mfContentType :: string
  mfTotalSize :: u64
  mfContentHash :: string
  mfChunkCount :: u32
  mfChunkSize :: u32
  mfChunkMerkleRoot :: string
  mfOwnerDID :: string
  mfCreatedAt :: u64
  mfUpdatedAt :: u64
  mfEncrypted :: bool
  mfStorageNodes :: "string list"

text \<open>What a storage node answers a chunk: nothing, or a status and a body.\<close>

datatype nodeAnswer = NodeUnrequested | NodeUnreached | NodeAnswered nat string

datatype chunkFault = ChunkRequest | ChunkNetwork | ChunkRefused nat string

datatype fileError =
    SigningRequired string
  | NodeDIDRequired
  | MessageRefused messageError
  | SignFailed
  | SignatureNotHex hexError
  | SubmitFailed writeFailure
  | ChunkUploadError FileManifest WriteResult nat chunkFault
  | FileSizeOut u64
  | ChunkCountOut u32
  | ChunksDontMake u32 u32 u64
  | MetadataFailed
  | FileNotFound string
  | ChunkDownload nat
  | ChunkUnread nat ioError
  | ChunkTooLong nat u64
  | RootMismatch
  | ContentMismatch

subsection \<open>Chunks and their Merkle root\<close>

text \<open>
  \<^verbatim>\<open>chunkData\<close> is only called with \<open>DefaultChunkSize\<close>; with a size of 0 its loop would not end.
\<close>

function chunkData :: "bytes \<Rightarrow> nat \<Rightarrow> bytes list" where
  "chunkData data chunkSize =
     (if data = [] \<or> chunkSize = 0 then []
      else take chunkSize data # chunkData (drop chunkSize data) chunkSize)"
  by auto
termination
  by (relation "measure (\<lambda>(data, chunkSize). length data)") auto

declare chunkData.simps [simp del]

fun pairHash :: "bytes list \<Rightarrow> bytes list" where
  "pairHash (a # b # hs) = sha256 (a @ b) # pairHash hs"
| "pairHash _ = []"

definition padEven :: "bytes list \<Rightarrow> bytes list" where
  "padEven hs = (if odd (length hs) then hs @ [last hs] else hs)"

lemma length_pairHash [simp]: "length (pairHash hs) = length hs div 2"
  by (induction hs rule: pairHash.induct) auto

lemma length_padEven: "length (padEven hs) = length hs + length hs mod 2"
  by (auto simp: padEven_def odd_iff_mod_2_eq_one even_iff_mod_2_eq_zero)

lemma level_shorter: "1 < length hs \<Longrightarrow> length (pairHash (padEven hs)) < length hs"
  by (simp add: length_padEven)

function merkleLoop :: "bytes list \<Rightarrow> bytes list" where
  "merkleLoop current =
     (if 1 < length current then merkleLoop (pairHash (padEven current)) else current)"
  by auto
termination
  by (relation "measure length") (simp, simp only: in_measure level_shorter)

declare merkleLoop.simps [simp del]

definition computeMerkleRoot :: "bytes list \<Rightarrow> bytes" where
  "computeMerkleRoot hashes =
     (if hashes = [] then replicate 32 0
      else hd (merkleLoop (if length hashes = 1 then hashes @ [hd hashes] else hashes)))"

subsection \<open>Content types\<close>

text \<open>\<^verbatim>\<open>filepath.Ext\<close>: from the last dot of the last path element on.\<close>

definition fileExt :: "string \<Rightarrow> string" where
  "fileExt path =
     (let base = rev (takeWhile (\<lambda>c. c \<noteq> CHR ''/'') (rev path)) in
      if CHR ''.'' \<in> set base
      then CHR ''.'' # rev (takeWhile (\<lambda>c. c \<noteq> CHR ''.'') (rev base)) else [])"

text \<open>
  \<^verbatim>\<open>strings.ToLower\<close>, as far as a result made of ASCII goes: besides the letters A to Z only
  U+0130 has a lower case among the letters of the table's extensions.
\<close>

fun lowerText :: "string \<Rightarrow> string" where
  "lowerText (c # d # s) =
     (if c = CHR 0xC4 \<and> d = CHR 0xB0 then CHR ''i'' # lowerText s
      else lowerText [c] @ lowerText (d # s))"
| "lowerText [c] =
     (let n = of_char c :: nat in [if 65 \<le> n \<and> n \<le> 90 then char_of (n + 32) else c])"
| "lowerText [] = []"

definition contentTypes :: "(string \<times> string) list" where
  "contentTypes =
     [(''.png'', ''image/png''), (''.jpg'', ''image/jpeg''), (''.jpeg'', ''image/jpeg''),
      (''.gif'', ''image/gif''), (''.pdf'', ''application/pdf''), (''.json'', ''application/json''),
      (''.txt'', ''text/plain''), (''.html'', ''text/html''), (''.css'', ''text/css''),
      (''.js'', ''application/javascript''), (''.wasm'', ''application/wasm''),
      (''.zip'', ''application/zip''), (''.mp4'', ''video/mp4''), (''.mp3'', ''audio/mpeg'')]"

definition guessContentType :: "string \<Rightarrow> string" where
  "guessContentType filename =
     (case map_of contentTypes (lowerText (fileExt filename)) of
        Some ct \<Rightarrow> ct
      | None \<Rightarrow> ''application/octet-stream'')"

subsection \<open>Signing\<close>

definition checkFileSigning :: "string \<Rightarrow> FileSigningOptions option \<Rightarrow> fileError + FileSigningOptions" where
  "checkFileSigning op signing =
     (case signing of
        None \<Rightarrow> Inl (SigningRequired op)
      | Some s \<Rightarrow>
          if fsoOwnerDID s = [] \<or> fsoSignFunc s = None then Inl (SigningRequired op) else Inr s)"

definition decodeSignatureHex :: "string \<Rightarrow> fileError + bytes" where
  "decodeSignatureHex sig =
     (case hexDecode (trimPrefix ''0x'' sig) of Inl e \<Rightarrow> Inl (SignatureNotHex e) | Inr b \<Rightarrow> Inr b)"

text \<open>Formatting a message, signing it and decoding the signature, as each file write does.\<close>

definition signMessage ::
  "FileSigningOptions \<Rightarrow> messageError + string \<Rightarrow> fileError + bytes" where
  "signMessage signing message =
     (case message of
        Inl e \<Rightarrow> Inl (MessageRefused e)
      | Inr m \<Rightarrow>
          (case fsoSignFunc signing of
             None \<Rightarrow> Inl SignFailed
           | Some sign \<Rightarrow>
               (case sign m of None \<Rightarrow> Inl SignFailed | Some sig \<Rightarrow> decodeSignatureHex sig)))"

subsection \<open>Uploading\<close>

text \<open>
  What an upload did: the allocator it leaves, the transactions it submitted, the chunks it
  sent to the storage node with their URLs, and its result.
\<close>

record 'r fileTrace =
  ftAllocator :: nonceAllocator
  ftSubmitted :: "(u64 \<times> string) list"
  ftSent :: "(string \<times> bytes) list"
  ftResult :: "fileError + 'r"

definition uploadChunk :: "(string \<Rightarrow> bytes \<Rightarrow> nodeAnswer) \<Rightarrow> string \<Rightarrow> bytes \<Rightarrow> chunkFault + unit" where
  "uploadChunk node url chunk =
     (case node url chunk of
        NodeUnrequested \<Rightarrow> Inl ChunkRequest
      | NodeUnreached \<Rightarrow> Inl ChunkNetwork
      | NodeAnswered status body \<Rightarrow>
          if status < 200 \<or> 300 \<le> status then Inl (ChunkRefused status (trimSpace (take 512 body))) else Inr ())"

definition uploadURL :: "string \<Rightarrow> string \<Rightarrow> string \<Rightarrow> nat \<Rightarrow> nat \<Rightarrow> string \<Rightarrow> string" where
  "uploadURL endpoint subgroveID fileKey i chunkCount contentHashHex =
     endpoint @ ''/upload/'' @ subgroveID @ ''/'' @ fileKey @ ''?chunk_index='' @ formatUint i
     @ ''&chunk_count='' @ formatUint chunkCount @ ''&content_hash='' @ contentHashHex"

primrec uploadChunks ::
  "(string \<Rightarrow> bytes \<Rightarrow> nodeAnswer) \<Rightarrow> (nat \<Rightarrow> string) \<Rightarrow> nat \<Rightarrow> bytes list
    \<Rightarrow> (string \<times> bytes) list \<times> (nat \<times> chunkFault) option" where
  "uploadChunks node url i [] = ([], None)"
| "uploadChunks node url i (chunk # rest) =
     (case uploadChunk node (url i) chunk of
        Inl e \<Rightarrow> ([(url i, chunk)], Some (i, e))
      | Inr _ \<Rightarrow>
          (case uploadChunks node url (Suc i) rest of (sent, r) \<Rightarrow> ((url i, chunk) # sent, r)))"

definition manifestFields ::
  "string \<Rightarrow> string \<Rightarrow> string \<Rightarrow> bytes \<Rightarrow> FileSigningOptions \<Rightarrow> FileManifestFields" where
  "manifestFields subgroveID fileKey filename data signing =
     (let chunks = chunkData data DefaultChunkSize in
      \<lparr>fmSubgroveID = subgroveID, fmFileKey = fileKey, fmOwnerDID = fsoOwnerDID signing,
       fmFilename = filename, fmContentType = guessContentType filename,
       fmTotalSize = of_nat (length data), fmContentHash = sha256 data,
       fmChunkCount = of_nat (length chunks), fmChunkSize = of_nat DefaultChunkSize,
       fmChunkMerkleRoot = computeMerkleRoot (map sha256 chunks), fmEncryption = None,
       fmNonce = fsoNonce signing\<rparr>)"

definition manifestTx :: "FileManifestFields \<Rightarrow> bytes \<Rightarrow> string \<Rightarrow> string" where
  "manifestTx f signature publicKeyID =
     printJson (JObj [(''StoreFileManifest'', JObj
       [(''chunk_count'', uintJson (unat (fmChunkCount f))),
        (''chunk_merkle_root'', byteArrayJson (fmChunkMerkleRoot f)),
        (''chunk_size'', uintJson (unat (fmChunkSize f))),
        (''content_hash'', byteArrayJson (fmContentHash f)),
        (''content_type'', JStr (fmContentType f)), (''file_key'', JStr (fmFileKey f)),
        (''filename'', JStr (fmFilename f)), (''nonce'', uintJson (unat (fmNonce f))),
        (''owner_did'', JStr (fmOwnerDID f)), (''public_key_id'', JStr publicKeyID),
        (''signature'', byteArrayJson signature), (''subgrove_id'', JStr (fmSubgroveID f)),
        (''total_size'', uintJson (unat (fmTotalSize f)))])])"

definition uploadManifest :: "FileManifestFields \<Rightarrow> string \<Rightarrow> FileManifest" where
  "uploadManifest f endpoint =
     \<lparr>mfFileKey = fmFileKey f, mfFilename = fmFilename f, mfContentType = fmContentType f,
      mfTotalSize = fmTotalSize f, mfContentHash = hexEncode (fmContentHash f),
      mfChunkCount = fmChunkCount f, mfChunkSize = fmChunkSize f,
      mfChunkMerkleRoot = hexEncode (fmChunkMerkleRoot f), mfOwnerDID = [], mfCreatedAt = 0,
      mfUpdatedAt = 0, mfEncrypted = False, mfStorageNodes = [endpoint]\<rparr>"

definition UploadContext ::
  "writeEnv \<Rightarrow> (string \<Rightarrow> bytes \<Rightarrow> nodeAnswer) \<Rightarrow> nonceAllocator \<Rightarrow> string \<Rightarrow> string \<Rightarrow> string
    \<Rightarrow> bytes \<Rightarrow> string \<Rightarrow> FileSigningOptions option \<Rightarrow> FileManifest fileTrace" where
  "UploadContext env node a subgroveID fileKey filename data endpoint signing =
     (let failed = (\<lambda>e. \<lparr>ftAllocator = a, ftSubmitted = [], ftSent = [], ftResult = Inl e\<rparr>) in
      case checkFileSigning ''Upload'' signing of
        Inl e \<Rightarrow> failed e
      | Inr s \<Rightarrow>
          let chunks = chunkData data DefaultChunkSize;
              fields = manifestFields subgroveID fileKey filename data s in
          (case signMessage s (FormatStoreFileManifestMessage fields) of
             Inl e \<Rightarrow> failed e
           | Inr signature \<Rightarrow>
               (case submitSigned env a (fmOwnerDID fields) (fmNonce fields)
                       (manifestTx fields signature (fsoPublicKeyID s)) of
                  (a', sent, Inl e) \<Rightarrow>
                    \<lparr>ftAllocator = a', ftSubmitted = sent, ftSent = [], ftResult = Inl (SubmitFailed e)\<rparr>
                | (a', sent, Inr txHash) \<Rightarrow>
                    let manifest = uploadManifest fields endpoint;
                        url = (\<lambda>i. uploadURL endpoint subgroveID fileKey i (length chunks)
                                     (hexEncode (sha256 data))) in
                    (case uploadChunks node url 0 chunks of (posted, r) \<Rightarrow>
                       \<lparr>ftAllocator = a', ftSubmitted = sent, ftSent = posted,
                        ftResult =
                          (case r of
                             None \<Rightarrow> Inr manifest
                           | Some (i, e) \<Rightarrow>
                               Inl (ChunkUploadError manifest
                                      \<lparr>wrDID = fmOwnerDID fields, wrNonce = fmNonce fields, wrTxHash = txHash\<rparr>
                                      i e))\<rparr>))))"

subsection \<open>Downloading\<close>

definition checkFileShape :: "FileManifest \<Rightarrow> fileError + unit" where
  "checkFileShape m =
     (let count = ucast (mfChunkCount m) :: u64; size = ucast (mfChunkSize m) :: u64 in
      if mfTotalSize m = 0 \<or> of_nat maxFileSize < mfTotalSize m then Inl (FileSizeOut (mfTotalSize m))
      else if count = 0 \<or> of_nat maxChunkCount < count then Inl (ChunkCountOut (mfChunkCount m))
      else if count * size < mfTotalSize m \<or> mfTotalSize m \<le> (count - 1) * size
      then Inl (ChunksDontMake (mfChunkCount m) (mfChunkSize m) (mfTotalSize m))
      else Inr ())"

text \<open>\<^verbatim>\<open>io.LimitReader\<close> of a body: its first \<open>n\<close> bytes and then an end of file.\<close>

definition limitSource :: "nat \<Rightarrow> source \<Rightarrow> source" where
  "limitSource n src =
     (if n \<le> length (concat (chunks src)) then \<lparr>chunks = [take n (concat (chunks src))], ending = EOF\<rparr>
      else src)"

definition chunkURL :: "string \<Rightarrow> string \<Rightarrow> string \<Rightarrow> nat \<Rightarrow> string \<Rightarrow> string" where
  "chunkURL endpoint subgroveID fileKey i contentHash =
     endpoint @ ''/chunk/'' @ subgroveID @ ''/'' @ fileKey @ ''/'' @ formatUint i
     @ ''?content_hash='' @ contentHash"

definition chunkWant :: "FileManifest \<Rightarrow> u32 \<Rightarrow> u64" where
  "chunkWant m i =
     (let want = ucast (mfChunkSize m) :: u64 in
      if i = mfChunkCount m - 1 then mfTotalSize m - ucast i * want else want)"

definition downloadChunk ::
  "(nat \<Rightarrow> nat) \<Rightarrow> (string \<Rightarrow> source option) \<Rightarrow> FileManifest \<Rightarrow> (nat \<Rightarrow> string) \<Rightarrow> nat \<Rightarrow> fileError + bytes" where
  "downloadChunk spare node m url i =
     (case node (url i) of
        None \<Rightarrow> Inl (ChunkDownload i)
      | Some body \<Rightarrow>
          let want = chunkWant m (of_nat i) in
          (case ReadAll spare (limitSource (unat want + 1) body) Chunk of
             Inl e \<Rightarrow> Inl (ChunkUnread i e)
           | Inr chunk \<Rightarrow>
               if unat want < length chunk then Inl (ChunkTooLong i want)
               else Inr (stringBytes chunk)))"

definition verifyChunks :: "FileManifest \<Rightarrow> bytes list \<Rightarrow> fileError + bytes" where
  "verifyChunks m cs =
     (if hexEncode (computeMerkleRoot (map sha256 cs)) \<noteq> mfChunkMerkleRoot m then Inl RootMismatch
      else if hexEncode (sha256 (concat cs)) \<noteq> mfContentHash m then Inl ContentMismatch
      else Inr (concat cs))"

definition DownloadContext ::
  "(nat \<Rightarrow> nat) \<Rightarrow> fileError + FileManifest \<Rightarrow> (string \<Rightarrow> source option) \<Rightarrow> string \<Rightarrow> string \<Rightarrow> string
    \<Rightarrow> fileError + bytes" where
  "DownloadContext spare metadata node subgroveID fileKey endpoint =
     bindR metadata (\<lambda>m.
     bindR (checkFileShape m) (\<lambda>_.
     bindR (mapR (downloadChunk spare node m
                    (\<lambda>i. chunkURL endpoint subgroveID fileKey i (mfContentHash m)))
              [0..<unat (mfChunkCount m)]) (\<lambda>cs.
       verifyChunks m cs)))"

text \<open>The API's answer about a file: its status and, when it decodes, the manifest.\<close>

definition MetadataContext :: "(nat \<times> FileManifest option) option \<Rightarrow> string \<Rightarrow> fileError + FileManifest" where
  "MetadataContext resp fileKey =
     (case resp of
        None \<Rightarrow> Inl MetadataFailed
      | Some (status, manifest) \<Rightarrow>
          if status \<noteq> 200 then Inl (FileNotFound fileKey)
          else (case manifest of None \<Rightarrow> Inl MetadataFailed | Some m \<Rightarrow> Inr m))"

subsection \<open>Deleting and unregistering\<close>

definition deleteTx :: "string \<Rightarrow> string \<Rightarrow> FileSigningOptions \<Rightarrow> bytes \<Rightarrow> string" where
  "deleteTx subgroveID fileKey s signature =
     printJson (JObj [(''DeleteFileManifest'', JObj
       [(''file_key'', JStr fileKey), (''nonce'', uintJson (unat (fsoNonce s))),
        (''owner_did'', JStr (fsoOwnerDID s)), (''public_key_id'', JStr (fsoPublicKeyID s)),
        (''signature'', byteArrayJson signature), (''subgrove_id'', JStr subgroveID)])])"

text \<open>Signing a transaction and submitting it once under the nonce it names.\<close>

definition submitFileTx ::
  "writeEnv \<Rightarrow> nonceAllocator \<Rightarrow> string \<Rightarrow> FileSigningOptions \<Rightarrow> messageError + string
    \<Rightarrow> (bytes \<Rightarrow> string) \<Rightarrow> unit fileTrace" where
  "submitFileTx env a did s message body =
     (case signMessage s message of
        Inl e \<Rightarrow> \<lparr>ftAllocator = a, ftSubmitted = [], ftSent = [], ftResult = Inl e\<rparr>
      | Inr signature \<Rightarrow>
          (case submitSigned env a did (fsoNonce s) (body signature) of
             (a', sent, r) \<Rightarrow>
               \<lparr>ftAllocator = a', ftSubmitted = sent, ftSent = [],
                ftResult = (case r of Inl e \<Rightarrow> Inl (SubmitFailed e) | Inr _ \<Rightarrow> Inr ())\<rparr>))"

definition DeleteContext ::
  "writeEnv \<Rightarrow> nonceAllocator \<Rightarrow> string \<Rightarrow> string \<Rightarrow> FileSigningOptions option \<Rightarrow> unit fileTrace" where
  "DeleteContext env a subgroveID fileKey signing =
     (case checkFileSigning ''Delete'' signing of
        Inl e \<Rightarrow> \<lparr>ftAllocator = a, ftSubmitted = [], ftSent = [], ftResult = Inl e\<rparr>
      | Inr s \<Rightarrow>
          submitFileTx env a (fsoOwnerDID s) s
            (FormatDeleteFileManifestMessage subgroveID fileKey (fsoOwnerDID s) (fsoNonce s))
            (deleteTx subgroveID fileKey s))"

definition unregisterTx :: "string \<Rightarrow> FileSigningOptions \<Rightarrow> bytes \<Rightarrow> string" where
  "unregisterTx nodeDID s signature =
     printJson (JObj [(''UnregisterStorageNode'', JObj
       [(''node_did'', JStr nodeDID), (''nonce'', uintJson (unat (fsoNonce s))),
        (''public_key_id'', JStr (fsoPublicKeyID s)), (''signature'', byteArrayJson signature)])])"

definition UnregisterStorageNodeContext ::
  "writeEnv \<Rightarrow> nonceAllocator \<Rightarrow> string \<Rightarrow> FileSigningOptions option \<Rightarrow> unit fileTrace" where
  "UnregisterStorageNodeContext env a nodeDID signing =
     (let refused = \<lparr>ftAllocator = a, ftSubmitted = [], ftSent = [], ftResult = Inl NodeDIDRequired\<rparr> in
      case signing of
        None \<Rightarrow> refused
      | Some s \<Rightarrow>
          if nodeDID = [] \<or> fsoSignFunc s = None then refused
          else submitFileTx env a nodeDID s (FormatUnregisterStorageNodeMessage nodeDID (fsoNonce s))
                 (unregisterTx nodeDID s))"

subsection \<open>Encrypting\<close>

text \<open>
  The cipher is \<^verbatim>\<open>golang.org/x/crypto/chacha20poly1305\<close>: \<open>seal\<close> and \<open>unseal\<close> under a key and a
  nonce; \<open>random\<close> is what the system's generator gives.
\<close>

definition EncryptFile ::
  "(bytes \<Rightarrow> bytes \<Rightarrow> bytes \<Rightarrow> bytes) \<Rightarrow> bytes option \<Rightarrow> bytes \<Rightarrow> bytes \<Rightarrow> (bytes \<times> bytes) option" where
  "EncryptFile seal random data key =
     (case random of None \<Rightarrow> None | Some nonce \<Rightarrow> Some (seal key nonce data, nonce))"

definition DecryptFile ::
  "(bytes \<Rightarrow> bytes \<Rightarrow> bytes \<Rightarrow> bytes option) \<Rightarrow> bytes \<Rightarrow> bytes \<Rightarrow> bytes \<Rightarrow> bytes option" where
  "DecryptFile unseal ciphertext key nonce = unseal key nonce ciphertext"

subsection \<open>Lemmas: the Merkle root\<close>

text \<open>Every 64-byte input hashed on the way to the root.\<close>

fun pairsOf :: "bytes list \<Rightarrow> bytes list" where
  "pairsOf (a # b # hs) = (a @ b) # pairsOf hs"
| "pairsOf _ = []"

function merkleInputs :: "bytes list \<Rightarrow> bytes list" where
  "merkleInputs current =
     (if 1 < length current
      then pairsOf (padEven current) @ merkleInputs (pairHash (padEven current)) else [])"
  by auto
termination
  by (relation "measure length") (simp, simp only: in_measure level_shorter)

declare merkleInputs.simps [simp del]

definition rootInputs :: "bytes list \<Rightarrow> bytes list" where
  "rootInputs hashes = merkleInputs (if length hashes = 1 then hashes @ [hd hashes] else hashes)"

text \<open>SHA-256 does not collide between two sets of inputs.\<close>

definition noCollision :: "bytes list \<Rightarrow> bytes list \<Rightarrow> bool" where
  "noCollision xs ys \<longleftrightarrow> list_all (\<lambda>x. list_all (\<lambda>y. sha256 x = sha256 y \<longrightarrow> x = y) ys) xs"

definition digests :: "bytes list \<Rightarrow> bool" where
  "digests hs \<longleftrightarrow> list_all (\<lambda>h. length h = 32) hs"

lemma noCollision_append:
  "noCollision (a @ b) (c @ d) \<Longrightarrow> noCollision a c \<and> noCollision b d"
  by (auto simp: noCollision_def list_all_iff)

lemma pairHash_inj:
  assumes "length xs = length ys" and "even (length xs)" and "digests xs" and "digests ys"
    and "noCollision (pairsOf xs) (pairsOf ys)" and "pairHash xs = pairHash ys"
  shows "xs = ys"
  using assms
proof (induction xs arbitrary: ys rule: pairHash.induct)
  case (1 a b hs)
  then obtain c d ks where ys: "ys = c # d # ks" by (cases ys rule: pairHash.cases) auto
  have "a @ b = c @ d" using "1.prems" ys by (simp add: noCollision_def)
  then have "a = c \<and> b = d" using "1.prems"(3,4) ys by (simp add: digests_def)
  moreover have "hs = ks"
    using "1.prems" ys by (intro "1.IH") (auto simp: digests_def noCollision_def list_all_iff)
  ultimately show ?case using ys by simp
qed auto

lemma padEven_inj: "length xs = length ys \<Longrightarrow> padEven xs = padEven ys \<Longrightarrow> xs = ys"
  by (auto simp: padEven_def split: if_splits)

lemma padEven_even: "even (length (padEven xs))"
  by (auto simp: padEven_def)

lemma padEven_digests: "digests xs \<Longrightarrow> digests (padEven xs)"
  by (cases "xs = []") (auto simp: padEven_def digests_def list_all_iff)

lemma pairHash_digests: "digests (pairHash xs)"
  by (induction xs rule: pairHash.induct) (auto simp: digests_def)

lemma merkleLoop_inj:
  assumes "length xs = length ys" and "digests xs" and "digests ys"
    and "noCollision (merkleInputs xs) (merkleInputs ys)" and "merkleLoop xs = merkleLoop ys"
  shows "xs = ys"
  using assms
proof (induction xs arbitrary: ys rule: merkleLoop.induct)
  case (1 xs)
  show ?case
  proof (cases "1 < length xs")
    case True
    let ?x = "padEven xs" and ?y = "padEven ys"
    have len: "length ?x = length ?y" using "1.prems"(1) by (simp add: length_padEven)
    have nc: "noCollision (pairsOf ?x) (pairsOf ?y)"
      "noCollision (merkleInputs (pairHash ?x)) (merkleInputs (pairHash ?y))"
      using "1.prems"(1,4) True noCollision_append merkleInputs.simps [of xs] merkleInputs.simps [of ys]
      by metis+
    have "merkleLoop (pairHash ?x) = merkleLoop (pairHash ?y)"
      using "1.prems"(1,5) True merkleLoop.simps [of xs] merkleLoop.simps [of ys] by simp
    then have "pairHash ?x = pairHash ?y"
      using "1.IH" [OF True] len nc(2) pairHash_digests by simp
    then have "?x = ?y"
      using pairHash_inj [OF len padEven_even] nc(1) padEven_digests "1.prems"(2,3) by blast
    then show ?thesis using padEven_inj "1.prems"(1) by blast
  next
    case False
    then show ?thesis
      using "1.prems"(1,5) merkleLoop.simps [of xs] merkleLoop.simps [of ys] by simp
  qed
qed

lemma merkleLoop_single: "xs \<noteq> [] \<Longrightarrow> length (merkleLoop xs) = 1"
proof (induction xs rule: merkleLoop.induct)
  case (1 xs)
  show ?case
  proof (cases "1 < length xs")
    case True
    have "0 < length (pairHash (padEven xs))" using True by (simp add: length_padEven)
    then have "pairHash (padEven xs) \<noteq> []" by blast
    then show ?thesis using "1.IH" [OF True] True merkleLoop.simps [of xs] by simp
  next
    case False
    moreover have "length xs \<noteq> 0" using "1.prems" by simp
    ultimately have "length xs = 1" by linarith
    then show ?thesis using merkleLoop.simps [of xs] by simp
  qed
qed

lemma singletons_eq: "length xs = 1 \<Longrightarrow> length ys = 1 \<Longrightarrow> hd xs = hd ys \<Longrightarrow> xs = ys"
  by (cases xs; cases ys) auto

lemma computeMerkleRoot_inj:
  assumes "length xs = length ys" and "digests xs" and "digests ys"
    and "noCollision (rootInputs xs) (rootInputs ys)"
    and "computeMerkleRoot xs = computeMerkleRoot ys"
  shows "xs = ys"
proof (cases "xs = []")
  case True
  then show ?thesis using assms(1) by simp
next
  case False
  let ?p = "\<lambda>hs. if length hs = 1 then hs @ [hd hs] else hs :: bytes list"
  have ne: "xs \<noteq> []" "ys \<noteq> []" using False assms(1) by auto
  then have "?p xs \<noteq> []" "?p ys \<noteq> []" by simp_all
  then have single: "length (merkleLoop (?p xs)) = 1" "length (merkleLoop (?p ys)) = 1"
    by (blast intro: merkleLoop_single)+
  have "hd (merkleLoop (?p xs)) = hd (merkleLoop (?p ys))"
    using assms(5) ne by (simp add: computeMerkleRoot_def)
  then have "merkleLoop (?p xs) = merkleLoop (?p ys)"
    using single singletons_eq by blast
  moreover have "digests (?p xs)" "digests (?p ys)"
    using assms(2,3) ne by (auto simp: digests_def list_all_iff)
  moreover have "length (?p xs) = length (?p ys)" using assms(1) by simp
  ultimately have "?p xs = ?p ys"
    using merkleLoop_inj assms(4) by (simp only: rootInputs_def)
  then show ?thesis using assms(1) by (auto split: if_splits)
qed

subsection \<open>Lemmas: chunks\<close>

lemma chunkData_concat: "0 < k \<Longrightarrow> concat (chunkData data k) = data"
proof (induction data k rule: chunkData.induct)
  case (1 data k)
  then show ?case by (cases "data = []") (simp_all add: chunkData.simps)
qed

lemma chunkData_length: "0 < k \<Longrightarrow> length (chunkData data k) = (length data + k - 1) div k"
proof (induction data k rule: chunkData.induct)
  case (1 data k)
  show ?case
  proof (cases "data = []")
    case True
    then show ?thesis using "1.prems" by (simp add: chunkData.simps)
  next
    case False
    have "(length data - k + k - 1) div k + 1 = (length data + k - 1) div k"
    proof (cases "k \<le> length data")
      case True
      then have "length data + k - 1 = (length data - k + k - 1) + k" using False "1.prems" by simp
      then show ?thesis using "1.prems" by (metis div_add_self2 not_gr_zero)
    next
      case False': False
      moreover have "0 < length data" using False by simp
      ultimately have eq: "length data + k - 1 = (length data - 1) + k" and lt: "length data - 1 < k"
        and "length data - k + k - 1 < k"
        by linarith+
      then have "(length data - k + k - 1) div k = 0" by simp
      moreover have "((length data - 1) + k) div k = 1" using lt "1.prems" by (simp only: div_add_self2) simp
      ultimately show ?thesis by (simp only: eq)
    qed
    then show ?thesis using "1.IH" False "1.prems" by (subst chunkData.simps) simp
  qed
qed

lemma chunkData_nth:
  "0 < k \<Longrightarrow> i < length (chunkData data k) \<Longrightarrow> chunkData data k ! i = take k (drop (i * k) data)"
proof (induction data k arbitrary: i rule: chunkData.induct)
  case (1 data k)
  have ne: "data \<noteq> []" using "1.prems" by (auto simp: chunkData.simps)
  have eq: "chunkData data k = take k data # chunkData (drop k data) k"
    using ne "1.prems"(1) by (subst chunkData.simps) simp
  show ?case
  proof (cases i)
    case 0
    then show ?thesis using eq by simp
  next
    case (Suc j)
    then have "chunkData (drop k data) k ! j = take k (drop (j * k) (drop k data))"
      using "1.IH" [of j] ne "1.prems" eq by simp
    then show ?thesis using Suc eq by (simp add: add.commute)
  qed
qed

subsection \<open>Lemmas: the shape of a manifest\<close>

text \<open>
  The check of the shape, read over the numbers: the products don't wrap, since a count that
  is accepted is at most \<open>2 ^ 18\<close>.
\<close>

lemma unat_ucast_u32: "unat (ucast (x :: u32) :: u64) = unat x"
  using unsigned_less [of x, where ?'a = nat] by (simp add: unsigned_ucast_eq take_bit_nat_eq_self)

lemma unat_shape_mult:
  fixes c s :: u64
  assumes "unat c \<le> 2 ^ 18" and "unat s < 2 ^ 32"
  shows "unat (c * s) = unat c * unat s"
proof -
  have "unat c * unat s \<le> 2 ^ 18 * 2 ^ 32" using assms by (intro mult_le_mono) simp_all
  then have "unat c * unat s < 2 ^ LENGTH(64)" by (simp add: power_add [symmetric])
  then show ?thesis by (simp add: unat_word_ariths)
qed

lemma unat_pred: "0 < unat x \<Longrightarrow> unat (x - 1) = unat x - 1" for x :: "'a::len word"
  by (metis unat_minus_one unat_gt_0)

lemma unat_u32_less: "unat (x :: u32) < 2 ^ 32"
  using unsigned_less [of x, where ?'a = nat] by simp

lemma checkFileShape_iff:
  "checkFileShape m = Inr () \<longleftrightarrow>
     0 < unat (mfTotalSize m) \<and> unat (mfTotalSize m) \<le> 2 ^ 30
     \<and> 0 < unat (mfChunkCount m) \<and> unat (mfChunkCount m) \<le> 2 ^ 18
     \<and> unat (mfTotalSize m) \<le> unat (mfChunkCount m) * unat (mfChunkSize m)
     \<and> (unat (mfChunkCount m) - 1) * unat (mfChunkSize m) < unat (mfTotalSize m)"
proof -
  let ?c = "ucast (mfChunkCount m) :: u64" and ?s = "ucast (mfChunkSize m) :: u64"
  have size: "mfTotalSize m = 0 \<or> of_nat maxFileSize < mfTotalSize m
      \<longleftrightarrow> \<not> (0 < unat (mfTotalSize m) \<and> unat (mfTotalSize m) \<le> 2 ^ 30)"
    by (simp add: maxFileSize_def word_less_nat_alt unat_eq_0) linarith
  have count: "?c = 0 \<or> of_nat maxChunkCount < ?c
      \<longleftrightarrow> \<not> (0 < unat (mfChunkCount m) \<and> unat (mfChunkCount m) \<le> 2 ^ 18)"
    by (simp add: maxFileSize_def maxChunkCount_def word_less_nat_alt unat_ucast_u32
          unat_eq_0 [symmetric]) linarith
  have mults: "0 < unat (mfChunkCount m) \<Longrightarrow> unat (mfChunkCount m) \<le> 2 ^ 18 \<Longrightarrow>
      unat (?c * ?s) = unat (mfChunkCount m) * unat (mfChunkSize m)
      \<and> unat ((?c - 1) * ?s) = (unat (mfChunkCount m) - 1) * unat (mfChunkSize m)"
    using unat_shape_mult [of ?c ?s] unat_shape_mult [of "?c - 1" ?s] unat_u32_less [of "mfChunkSize m"]
      unat_pred [of ?c]
    by (simp add: unat_ucast_u32)
  show ?thesis
    unfolding checkFileShape_def Let_def size count
    using mults by (auto simp: word_less_nat_alt word_le_nat_alt)
qed

lemma chunkWant_nat:
  assumes "checkFileShape m = Inr ()" and "i < unat (mfChunkCount m)"
  shows "unat (chunkWant m (of_nat i)) =
    (if i = unat (mfChunkCount m) - 1 then unat (mfTotalSize m) - i * unat (mfChunkSize m)
     else unat (mfChunkSize m))"
proof -
  let ?c = "unat (mfChunkCount m)" and ?s = "ucast (mfChunkSize m) :: u64"
  have shape: "0 < ?c" "?c \<le> 2 ^ 18" "(?c - 1) * unat (mfChunkSize m) < unat (mfTotalSize m)"
    using assms(1) checkFileShape_iff by blast+
  have i: "unat (of_nat i :: u32) = i"
    using assms(2) unat_u32_less [of "mfChunkCount m"] by (simp add: unat_of_nat)
  have last: "of_nat i = mfChunkCount m - 1 \<longleftrightarrow> i = ?c - 1"
    using i shape(1) unat_pred [of "mfChunkCount m"] by (metis unat_inj)
  have mult: "unat (ucast (of_nat i :: u32) * ?s) = i * unat (mfChunkSize m)"
    using unat_shape_mult [of "ucast (of_nat i :: u32)" ?s] assms(2) shape(2) i
      unat_u32_less [of "mfChunkSize m"] by (simp add: unat_ucast_u32)
  have "unat (mfTotalSize m - ucast (of_nat i :: u32) * ?s) =
      unat (mfTotalSize m) - i * unat (mfChunkSize m)" if "i = ?c - 1"
  proof -
    have "ucast (of_nat i :: u32) * ?s \<le> mfTotalSize m"
      using mult shape(3) that by (simp add: word_le_nat_alt)
    then show ?thesis using mult by (simp add: unat_sub)
  qed
  then show ?thesis by (simp add: chunkWant_def Let_def last unat_ucast_u32)
qed

lemma chunkWant_sum:
  assumes "checkFileShape m = Inr ()"
  shows "(\<Sum>i<unat (mfChunkCount m). unat (chunkWant m (of_nat i))) = unat (mfTotalSize m)"
proof -
  let ?c = "unat (mfChunkCount m)" and ?s = "unat (mfChunkSize m)" and ?t = "unat (mfTotalSize m)"
  have shape: "0 < ?c" "(?c - 1) * ?s < ?t" using assms checkFileShape_iff by blast+
  let ?w = "\<lambda>i. unat (chunkWant m (of_nat i))"
  obtain k where k: "?c = Suc k" using shape(1) gr0_implies_Suc by blast
  have "sum ?w {..<Suc k} = sum ?w {..<k} + ?w k" by (rule sum.lessThan_Suc)
  also have "sum ?w {..<k} = (\<Sum>i<k. ?s)"
    using k by (intro sum.cong refl) (simp only: chunkWant_nat [OF assms] lessThan_iff, simp)
  also have "?w k = ?t - k * ?s" using k chunkWant_nat [OF assms, of k] by simp
  also have "(\<Sum>i<k. ?s) + (?t - k * ?s) = ?t" using shape(2) k by simp
  finally show ?thesis using k by simp
qed

subsection \<open>Lemmas: downloading\<close>

lemma downloadChunk_length:
  "downloadChunk spare node m url i = Inr chunk \<Longrightarrow> length chunk \<le> unat (chunkWant m (of_nat i))"
  by (auto simp: downloadChunk_def Let_def split: option.splits sum.splits if_splits)

lemma length_concat_upt:
  assumes "list_all2 (\<lambda>i c. length c \<le> f i) [0..<n] cs"
  shows "length (concat cs) \<le> (\<Sum>i<n. f i)"
proof -
  have len: "length cs = n" using assms list_all2_lengthD by fastforce
  have "length (concat cs) = (\<Sum>i<n. length (cs ! i))"
    by (simp add: length_concat sum_list_sum_nth len atLeast0LessThan)
  also have "\<dots> \<le> (\<Sum>i<n. f i)"
    using assms by (intro sum_mono) (auto simp: list_all2_conv_all_nth)
  finally show ?thesis .
qed

lemma DownloadContext_Inr:
  assumes "DownloadContext spare metadata node subgroveID fileKey endpoint = Inr d"
  obtains m cs where "metadata = Inr m" and "checkFileShape m = Inr ()"
    and "list_all2 (\<lambda>i c. downloadChunk spare node m
           (\<lambda>i. chunkURL endpoint subgroveID fileKey i (mfContentHash m)) i = Inr c)
           [0..<unat (mfChunkCount m)] cs"
    and "verifyChunks m cs = Inr d"
  using assms that by (auto simp: DownloadContext_def bindR_eq_Inr mapR_eq_Inr)

lemma verifyChunks_Inr:
  "verifyChunks m cs = Inr d \<longleftrightarrow>
     d = concat cs \<and> hexEncode (computeMerkleRoot (map sha256 cs)) = mfChunkMerkleRoot m
     \<and> hexEncode (sha256 d) = mfContentHash m"
  by (auto simp: verifyChunks_def)

lemma DownloadContext_checked:
  assumes "DownloadContext spare (Inr m) node subgroveID fileKey endpoint = Inr d"
  shows "hexEncode (sha256 d) = mfContentHash m \<and> length d \<le> unat (mfTotalSize m)
    \<and> unat (mfTotalSize m) \<le> maxFileSize
    \<and> (\<exists>cs. length cs = unat (mfChunkCount m) \<and> concat cs = d
          \<and> hexEncode (computeMerkleRoot (map sha256 cs)) = mfChunkMerkleRoot m)"
  using assms
proof (rule DownloadContext_Inr)
  fix m' :: FileManifest and cs
  let ?u = "\<lambda>i. chunkURL endpoint subgroveID fileKey i (mfContentHash m')"
  assume "Inr m = (Inr m' :: fileError + FileManifest)" and ok: "checkFileShape m' = Inr ()"
    and all: "list_all2 (\<lambda>i c. downloadChunk spare node m' ?u i = Inr c) [0..<unat (mfChunkCount m')] cs"
    and v: "verifyChunks m' cs = Inr d"
  then have m: "m' = m" by simp
  have "list_all2 (\<lambda>i c. length c \<le> unat (chunkWant m (of_nat i))) [0..<unat (mfChunkCount m)] cs"
    using all m by (auto elim!: list_all2_mono dest: downloadChunk_length)
  then have "length (concat cs) \<le> unat (mfTotalSize m)"
    using length_concat_upt chunkWant_sum ok m by metis
  moreover have "length cs = unat (mfChunkCount m)" using all m list_all2_lengthD by fastforce
  moreover have "unat (mfTotalSize m) \<le> maxFileSize"
    using ok m checkFileShape_iff by (simp add: maxFileSize_def)
  ultimately show ?thesis using v m by (auto simp: verifyChunks_Inr)
qed

subsection \<open>Lemmas: what an upload leaves\<close>

lemma uploadChunks_sent:
  "uploadChunks node url i cs = (sent, None) \<Longrightarrow> map snd sent = cs"
  by (induction cs arbitrary: i sent) (auto split: sum.splits prod.splits)

lemma UploadContext_Inr:
  assumes "ftResult (UploadContext env node a subgroveID fileKey filename data endpoint signing) = Inr m"
  obtains s where "checkFileSigning ''Upload'' signing = Inr s"
    and "m = uploadManifest (manifestFields subgroveID fileKey filename data s) endpoint"
    and "map snd (ftSent (UploadContext env node a subgroveID fileKey filename data endpoint signing)) =
           chunkData data DefaultChunkSize"
  using assms that
  by (auto simp: UploadContext_def Let_def split: sum.splits prod.splits option.splits dest: uploadChunks_sent)

lemma ceil_div_bounds:
  fixes n k :: nat
  assumes "0 < n" and "0 < k"
  shows "0 < (n + k - 1) div k \<and> n \<le> (n + k - 1) div k * k \<and> ((n + k - 1) div k - 1) * k < n"
proof -
  let ?q = "(n + k - 1) div k" and ?r = "(n + k - 1) mod k"
  have eq: "?q * k + ?r = n + k - 1" by simp
  have r: "?r < k" using assms(2) by simp
  have "k \<le> n + k - 1" using assms by simp
  then have "0 < ?q" using assms(2) by (simp add: div_greater_zero_iff)
  moreover have "n \<le> ?q * k" using eq r assms by linarith
  moreover have "(?q - 1) * k = ?q * k - k" by (simp add: diff_mult_distrib)
  ultimately show ?thesis using eq r assms by linarith
qed

definition uploaded :: "bytes \<Rightarrow> FileManifest \<Rightarrow> bool" where
  "uploaded data m \<longleftrightarrow>
     (let cs = chunkData data DefaultChunkSize in
      unat (mfTotalSize m) = length data \<and> unat (mfChunkCount m) = length cs
      \<and> unat (mfChunkSize m) = DefaultChunkSize \<and> mfContentHash m = hexEncode (sha256 data)
      \<and> mfChunkMerkleRoot m = hexEncode (computeMerkleRoot (map sha256 cs)))"

lemma chunkCount_bound:
  "length data \<le> maxFileSize \<Longrightarrow> length (chunkData data DefaultChunkSize) \<le> 4096"
proof -
  assume "length data \<le> maxFileSize"
  then have "length data + DefaultChunkSize - 1 \<le> 2 ^ 30 + DefaultChunkSize - 1"
    by (simp add: maxFileSize_def)
  then have "(length data + DefaultChunkSize - 1) div DefaultChunkSize
      \<le> (2 ^ 30 + DefaultChunkSize - 1) div DefaultChunkSize"
    by (rule div_le_mono)
  also have "\<dots> = 4096" by (simp add: DefaultChunkSize_def)
  finally show ?thesis by (simp add: chunkData_length DefaultChunkSize_def)
qed

lemma uploadManifest_uploaded:
  assumes "length data \<le> maxFileSize"
  shows "uploaded data (uploadManifest (manifestFields subgroveID fileKey filename data s) endpoint)"
proof -
  have "unat (of_nat (length data) :: u64) = length data"
    using assms by (simp add: unat_of_nat maxFileSize_def)
  moreover have "unat (of_nat (length (chunkData data DefaultChunkSize)) :: u32)
      = length (chunkData data DefaultChunkSize)"
    using chunkCount_bound [OF assms] by (simp add: unat_of_nat)
  ultimately show ?thesis
    by (simp add: uploaded_def uploadManifest_def manifestFields_def Let_def DefaultChunkSize_def)
qed

lemma uploaded_shape:
  assumes "uploaded data m" and "data \<noteq> []" and "length data \<le> maxFileSize"
  shows "checkFileShape m = Inr ()"
proof -
  have len: "length (chunkData data DefaultChunkSize) =
      (length data + DefaultChunkSize - 1) div DefaultChunkSize"
    by (simp add: chunkData_length DefaultChunkSize_def)
  show ?thesis
    unfolding checkFileShape_iff
    using assms len ceil_div_bounds [of "length data" DefaultChunkSize] chunkCount_bound [OF assms(3)]
    by (simp add: uploaded_def Let_def maxFileSize_def DefaultChunkSize_def)
qed

lemma uploaded_want:
  assumes "uploaded data m" and "data \<noteq> []" and "length data \<le> maxFileSize"
    and "i < length (chunkData data DefaultChunkSize)"
  shows "unat (chunkWant m (of_nat i)) = length (chunkData data DefaultChunkSize ! i)"
proof -
  let ?k = "DefaultChunkSize" and ?c = "length (chunkData data DefaultChunkSize)"
  have k: "0 < ?k" by (simp add: DefaultChunkSize_def)
  have c: "?c = (length data + ?k - 1) div ?k" by (simp add: chunkData_length k)
  have bounds: "length data \<le> ?c * ?k" "(?c - 1) * ?k < length data"
    using ceil_div_bounds [of "length data" ?k] assms(2) k c by simp_all
  have "unat (chunkWant m (of_nat i)) = (if i = ?c - 1 then length data - i * ?k else ?k)"
    using chunkWant_nat [OF uploaded_shape [OF assms(1-3)]] assms(1,4) by (simp add: uploaded_def Let_def)
  moreover have "length (chunkData data ?k ! i) = min (length data - i * ?k) ?k"
    using chunkData_nth [OF k assms(4)] by simp
  moreover have "length data - i * ?k \<le> ?k" if "i = ?c - 1"
    using bounds(1) that assms(4) by (cases ?c) simp_all
  moreover have "?k \<le> length data - i * ?k" if "i \<noteq> ?c - 1"
  proof -
    have "(i + 1) * ?k \<le> (?c - 1) * ?k" using that assms(4) by (intro mult_le_mono1) linarith
    then show ?thesis using bounds(2) by (simp add: distrib_right)
  qed
  ultimately show ?thesis by (auto simp: min_def)
qed

subsection \<open>Lemmas: a file served as it was sent\<close>

text \<open>A storage node serves a chunk whole at a URL, in pieces of any size.\<close>

definition servesChunk :: "(string \<Rightarrow> source option) \<Rightarrow> string \<Rightarrow> bytes \<Rightarrow> bool" where
  "servesChunk node url chunk \<longleftrightarrow>
     (case node url of
        None \<Rightarrow> False
      | Some src \<Rightarrow> ending src = EOF \<and> stringBytes (concat (source.chunks src)) = chunk)"

definition servesFile :: "(string \<Rightarrow> source option) \<Rightarrow> (nat \<Rightarrow> string) \<Rightarrow> bytes list \<Rightarrow> bool" where
  "servesFile node url cs \<longleftrightarrow> list_all (\<lambda>i. servesChunk node (url i) (cs ! i)) [0..<length cs]"

lemma downloadChunk_served:
  assumes "servesChunk node (url i) chunk" and "unat (chunkWant m (of_nat i)) = length chunk"
    and "length chunk \<le> Chunk"
  shows "downloadChunk spare node m url i = Inr chunk"
proof -
  obtain src where src: "node (url i) = Some src" "ending src = EOF"
    "stringBytes (concat (source.chunks src)) = chunk"
    using assms(1) by (auto simp: servesChunk_def split: option.splits)
  then have "length (concat (source.chunks src)) = length chunk" by (metis length_stringBytes)
  then show ?thesis using src assms(2,3) by (simp add: downloadChunk_def limitSource_def ReadAll_eq)
qed

lemma download_served:
  assumes "uploaded data m" and "data \<noteq> []" and "length data \<le> maxFileSize"
    and "servesFile node (\<lambda>i. chunkURL endpoint subgroveID fileKey i (mfContentHash m))
           (chunkData data DefaultChunkSize)"
  shows "DownloadContext spare (Inr m) node subgroveID fileKey endpoint = Inr data"
proof -
  let ?cs = "chunkData data DefaultChunkSize"
  let ?u = "\<lambda>i. chunkURL endpoint subgroveID fileKey i (mfContentHash m)"
  have k: "0 < DefaultChunkSize" "DefaultChunkSize \<le> Chunk" by (simp_all add: DefaultChunkSize_def Chunk_def)
  have "downloadChunk spare node m ?u i = Inr (?cs ! i)" if i: "i < length ?cs" for i
  proof (rule downloadChunk_served)
    show "servesChunk node (?u i) (?cs ! i)" using assms(4) i by (simp add: servesFile_def list_all_iff)
    show "unat (chunkWant m (of_nat i)) = length (?cs ! i)" using uploaded_want [OF assms(1-3) i] .
    show "length (?cs ! i) \<le> Chunk" using chunkData_nth [OF k(1) i] k(2) by simp
  qed
  then have "mapR (downloadChunk spare node m ?u) [0..<length ?cs] = Inr ?cs"
    by (simp add: mapR_eq_Inr list_all2_conv_all_nth)
  moreover have "unat (mfChunkCount m) = length ?cs" using assms(1) by (simp add: uploaded_def Let_def)
  moreover have "verifyChunks m ?cs = Inr data"
    using assms(1) chunkData_concat [OF k(1)] by (simp add: verifyChunks_Inr uploaded_def Let_def)
  ultimately show ?thesis
    using uploaded_shape [OF assms(1-3)] by (simp add: DownloadContext_def)
qed

subsection \<open>Properties\<close>

text \<open>
  The Merkle root binds the chunk hashes: two lists of as many chunk hashes have the
  same root exactly when they are the same, unless two of the 64-byte inputs hashed on the
  way collide.
\<close>

lemma merkle_root_binds_chunks:
  assumes "length xs = length ys" and "digests xs" and "digests ys"
    and "noCollision (rootInputs xs) (rootInputs ys)"
  shows "computeMerkleRoot xs = computeMerkleRoot ys \<longleftrightarrow> xs = ys"
  using computeMerkleRoot_inj [OF assms] by blast

text \<open>
  C26: what a download returns hashes to the manifest's content hash, is no longer than the
  size the manifest gives, which is at most a gibibyte, and is made of as many chunks as the
  manifest counts, whose hashes have its Merkle root, whatever the storage node answers.
\<close>

theorem download_matches_manifest:
  assumes "DownloadContext spare (Inr m) node subgroveID fileKey endpoint = Inr d"
  shows "hexEncode (sha256 d) = mfContentHash m \<and> length d \<le> unat (mfTotalSize m)
    \<and> unat (mfTotalSize m) \<le> maxFileSize
    \<and> (\<exists>cs. length cs = unat (mfChunkCount m) \<and> concat cs = d
          \<and> hexEncode (computeMerkleRoot (map sha256 cs)) = mfChunkMerkleRoot m)"
  using assms by (rule DownloadContext_checked)

text \<open>
  C27: a file of one byte to a gibibyte whose upload succeeds is downloaded whole from a
  storage node that serves each chunk as it was sent.
\<close>

theorem upload_download_roundtrip:
  assumes "up = UploadContext env put a subgroveID fileKey filename data endpoint signing"
    and "ftResult up = Inr m" and "data \<noteq> []" and "length data \<le> maxFileSize"
    and "servesFile node (\<lambda>i. chunkURL endpoint subgroveID fileKey i (mfContentHash m))
           (map snd (ftSent up))"
  shows "DownloadContext spare (Inr m) node subgroveID fileKey endpoint = Inr data"
proof -
  obtain s where "m = uploadManifest (manifestFields subgroveID fileKey filename data s) endpoint"
    and "map snd (ftSent up) = chunkData data DefaultChunkSize"
    using UploadContext_Inr assms(1,2) by blast
  then show ?thesis
    using download_served uploadManifest_uploaded assms(3-5) by metis
qed

subsection \<open>Witnesses\<close>

lemma merkle_root_binds_chunks_sample:
  "computeMerkleRoot [replicate 32 7] = computeMerkleRoot [replicate 32 7]
    \<longleftrightarrow> [replicate 32 7] = [replicate 32 (7 :: byte)]"
proof (rule merkle_root_binds_chunks)
  show "digests [replicate 32 (7 :: byte)]" by (simp add: digests_def)
  then show "digests [replicate 32 (7 :: byte)]" .
  show "noCollision (rootInputs [replicate 32 7]) (rootInputs [replicate 32 (7 :: byte)])"
    by (simp add: noCollision_def rootInputs_def merkleInputs.simps padEven_def)
qed simp

definition acceptingEnv :: writeEnv where
  "acceptingEnv =
     sampleEnv\<lparr>answer := \<lambda>body. Answered 200 (Some \<lparr>seSuccess = True,
       seData = Some \<lparr>sdTxHash = ''h'', sdCode = 0, sdLog = []\<rparr>, seError = None\<rparr>)\<rparr>"

definition sampleSigning :: FileSigningOptions where
  "sampleSigning =
     \<lparr>fsoOwnerDID = ''did'', fsoPublicKeyID = ''key'', fsoSignFunc = Some (\<lambda>m. Some ''0xab''), fsoNonce = 7\<rparr>"

definition sampleUpload :: "FileManifest fileTrace" where
  "sampleUpload =
     UploadContext acceptingEnv (\<lambda>u c. NodeAnswered 200 []) newNonceAllocator ''sg'' ''f'' ''a.txt'' [65]
       ''http'' (Some sampleSigning)"

definition sampleManifest :: FileManifest where
  "sampleManifest = uploadManifest (manifestFields ''sg'' ''f'' ''a.txt'' [65] sampleSigning) ''http''"

lemma sample_chunks: "chunkData [65] DefaultChunkSize = [[65]]"
  by (simp add: chunkData.simps DefaultChunkSize_def)

lemma sample_begin: "\<not> isl (snd (beginNonce newNonceAllocator ''did'' 7 None 0))"
  by code_simp

lemma sample_submit:
  "snd (submitSigned acceptingEnv newNonceAllocator ''did'' 7 body) = ([(7, body)], Inr ''h'')"
  using sample_begin
  by (auto simp: submitSigned_def acceptingEnv_def sampleEnv_def postTx_def reached_def
        split: prod.splits sum.splits)

lemma sample_uploaded:
  "ftResult sampleUpload = Inr sampleManifest" "map snd (ftSent sampleUpload) = [[65]]"
proof -
  have "hexDecode ''ab'' = Inr [0xab]" by code_simp
  moreover have "trimPrefix ''0x'' ''0xab'' = ''ab''" by code_simp
  moreover have "plain (guessContentType ''a.txt'')" "validString (guessContentType ''a.txt'')"
    "validString ''sg''" "validString ''f''" "validString ''did''" "validString ''a.txt''"
    by code_simp+
  then have "\<exists>m. FormatStoreFileManifestMessage (manifestFields ''sg'' ''f'' ''a.txt'' [65] sampleSigning) = Inr m"
    by (auto simp: FormatStoreFileManifestMessage_def manifestFields_def Let_def sampleSigning_def build_Inr
          plain_def newline_def)
  ultimately obtain sig where sig: "signMessage sampleSigning
      (FormatStoreFileManifestMessage (manifestFields ''sg'' ''f'' ''a.txt'' [65] sampleSigning)) = Inr sig"
    by (auto simp: signMessage_def decodeSignatureHex_def sampleSigning_def)
  have fields: "fmOwnerDID (manifestFields ''sg'' ''f'' ''a.txt'' [65] sampleSigning) = ''did''"
    "fmNonce (manifestFields ''sg'' ''f'' ''a.txt'' [65] sampleSigning) = 7"
    by (simp_all add: manifestFields_def sampleSigning_def Let_def)
  have signing: "checkFileSigning ''Upload'' (Some sampleSigning) = Inr sampleSigning"
    by (simp add: checkFileSigning_def sampleSigning_def)
  let ?tx = "manifestTx (manifestFields ''sg'' ''f'' ''a.txt'' [65] sampleSigning) sig (fsoPublicKeyID sampleSigning)"
  obtain a' where sub: "submitSigned acceptingEnv newNonceAllocator ''did'' 7 ?tx = (a', [(7, ?tx)], Inr ''h'')"
    using sample_submit [of ?tx] by (metis prod.collapse)
  show "ftResult sampleUpload = Inr sampleManifest" "map snd (ftSent sampleUpload) = [[65]]"
    by (simp_all add: sampleUpload_def UploadContext_def signing Let_def sig fields sub sample_chunks
          sampleManifest_def uploadChunk_def)
qed

theorem upload_download_roundtrip_witness:
  "DownloadContext (\<lambda>n. 0) (Inr sampleManifest) (\<lambda>u. Some \<lparr>chunks = [''A''], ending = EOF\<rparr>) ''sg'' ''f'' ''http''
     = Inr [65]"
  by (rule upload_download_roundtrip [OF sampleUpload_def sample_uploaded(1)])
    (simp_all add: sample_uploaded(2) maxFileSize_def servesFile_def servesChunk_def stringBytes_def)

theorem download_matches_manifest_witness:
  "hexEncode (sha256 [65]) = mfContentHash sampleManifest"
proof -
  have "DownloadContext (\<lambda>n. 0) (Inr sampleManifest) (\<lambda>u. Some \<lparr>chunks = [''A''], ending = EOF\<rparr>)
      ''sg'' ''f'' ''http'' = Inr [65]"
    by (rule download_served)
      (simp_all add: sampleManifest_def uploadManifest_uploaded maxFileSize_def sample_chunks servesFile_def
        servesChunk_def stringBytes_def)
  then show ?thesis using download_matches_manifest by blast
qed

end
