(* ===== verification/Errors.thy ===== *)
theory Errors
  imports HttpBody Json Uint128
begin

text \<open>
  The errors of the SDK (\<^verbatim>\<open>errors.go\<close>) with how they are told apart along a chain of wrapped
  errors, and the decoding of a JSON object into a struct as \<^verbatim>\<open>encoding/json\<close> does it, which
  the clients of the API share.
\<close>

subsection \<open>Errors\<close>

datatype ErrorType =
    ErrorTypeNetwork | ErrorTypeHTTP | ErrorTypeAuthentication | ErrorTypeValidation
  | ErrorTypeNotFound | ErrorTypePermissionDenied | ErrorTypeSerialization | ErrorTypeCrypto
  | ErrorTypeProof | ErrorTypeLightClient | ErrorTypeConfig | ErrorTypeConsensus
  | ErrorTypeTransaction | ErrorTypeAPI | ErrorTypeUnsupported

text \<open>
  An error value: the SDK's own, the sentinels, an error another error wraps with a text
  (\<^verbatim>\<open>fmt.Errorf("...: %w")\<close>), an error that joins several, and an error of another package by
  its text.  \<open>AnswerTooLarge\<close> stands for the errors of \<^verbatim>\<open>httpbody\<close> that match
  \<^verbatim>\<open>ErrAnswerTooLarge\<close>.
\<close>

datatype sdkError =
    WillowError ErrorType string "sdkError option"
  | HTTPError int string
  | SdkTransactionError string string int
  | InsufficientFundsError u64 u64
  | ErrNotAuthenticated
  | AnswerTooLarge string
  | Wrapped string sdkError
  | Joined string "sdkError list"
  | Foreign string

fun typeText :: "ErrorType \<Rightarrow> string" where
  "typeText ErrorTypeNetwork = ''network''"
| "typeText ErrorTypeHTTP = ''http''"
| "typeText ErrorTypeAuthentication = ''authentication''"
| "typeText ErrorTypeValidation = ''validation''"
| "typeText ErrorTypeNotFound = ''not_found''"
| "typeText ErrorTypePermissionDenied = ''permission_denied''"
| "typeText ErrorTypeSerialization = ''serialization''"
| "typeText ErrorTypeCrypto = ''crypto''"
| "typeText ErrorTypeProof = ''proof''"
| "typeText ErrorTypeLightClient = ''light_client''"
| "typeText ErrorTypeConfig = ''config''"
| "typeText ErrorTypeConsensus = ''consensus''"
| "typeText ErrorTypeTransaction = ''transaction''"
| "typeText ErrorTypeAPI = ''api''"
| "typeText ErrorTypeUnsupported = ''unsupported''"

definition NewNetworkError :: "string \<Rightarrow> sdkError \<Rightarrow> sdkError" where
  "NewNetworkError message cause = WillowError ErrorTypeNetwork message (Some cause)"

definition NewHTTPError :: "int \<Rightarrow> string \<Rightarrow> sdkError" where
  "NewHTTPError statusCode message = HTTPError statusCode message"

definition NewAuthenticationError :: "string \<Rightarrow> sdkError" where
  "NewAuthenticationError message = WillowError ErrorTypeAuthentication message None"

definition NewValidationError :: "string \<Rightarrow> sdkError" where
  "NewValidationError message = WillowError ErrorTypeValidation message None"

definition NewNotFoundError :: "string \<Rightarrow> sdkError" where
  "NewNotFoundError resource = WillowError ErrorTypeNotFound (resource @ '' not found'') None"

definition NewAPIError :: "string \<Rightarrow> sdkError" where
  "NewAPIError message = WillowError ErrorTypeAPI message None"

definition NewUnsupportedError :: "string \<Rightarrow> sdkError" where
  "NewUnsupportedError message = WillowError ErrorTypeUnsupported message None"

definition NewPermissionDeniedError :: "string \<Rightarrow> sdkError" where
  "NewPermissionDeniedError message = WillowError ErrorTypePermissionDenied message None"

definition NewSerializationError :: "string \<Rightarrow> sdkError option \<Rightarrow> sdkError" where
  "NewSerializationError message cause = WillowError ErrorTypeSerialization message cause"

definition NewCryptoError :: "string \<Rightarrow> sdkError option \<Rightarrow> sdkError" where
  "NewCryptoError message cause = WillowError ErrorTypeCrypto message cause"

definition NewProofError :: "string \<Rightarrow> sdkError" where
  "NewProofError message = WillowError ErrorTypeProof message None"

definition NewLightClientError :: "string \<Rightarrow> sdkError option \<Rightarrow> sdkError" where
  "NewLightClientError message cause = WillowError ErrorTypeLightClient message cause"

definition NewConfigError :: "string \<Rightarrow> sdkError" where
  "NewConfigError message = WillowError ErrorTypeConfig message None"

definition NewConsensusError :: "string \<Rightarrow> sdkError option \<Rightarrow> sdkError" where
  "NewConsensusError message cause = WillowError ErrorTypeConsensus message cause"

definition NewTransactionError :: "string \<Rightarrow> string \<Rightarrow> int \<Rightarrow> sdkError" where
  "NewTransactionError message txHash errorCode = SdkTransactionError message txHash errorCode"

definition NewInsufficientFundsError :: "u64 \<Rightarrow> u64 \<Rightarrow> sdkError" where
  "NewInsufficientFundsError required available = InsufficientFundsError required available"

definition formatInt :: "int \<Rightarrow> string" where
  "formatInt n = (if n < 0 then CHR ''-'' # formatUint (nat (- n)) else formatUint (nat n))"

text \<open>
  \<^verbatim>\<open>Error()\<close>.  The text of an error that joins others is its own; that of an error the SDK
  wraps with \<^verbatim>\<open>%w\<close> ends in the text of what it wraps.
\<close>

primrec errorText :: "sdkError \<Rightarrow> string" where
  "errorText (WillowError t m cause) =
     typeText t @ '': '' @ m
     @ (case map_option errorText cause of None \<Rightarrow> [] | Some c \<Rightarrow> '': '' @ c)"
| "errorText (HTTPError status m) = ''HTTP '' @ formatInt status @ '': '' @ m"
| "errorText (SdkTransactionError m txHash code) =
     (if txHash \<noteq> []
      then ''transaction error (code '' @ formatInt code @ '', tx '' @ txHash @ ''): '' @ m
      else ''transaction error (code '' @ formatInt code @ ''): '' @ m)"
| "errorText (InsufficientFundsError required available) =
     ''transaction error (code 0): insufficient funds: required '' @ formatUint (unat required)
     @ '', available '' @ formatUint (unat available)"
| "errorText ErrNotAuthenticated = ''not authenticated: please call SetIdentity() first''"
| "errorText (AnswerTooLarge m) = m"
| "errorText (Wrapped m e) = m @ '': '' @ errorText e"
| "errorText (Joined m es) = m"
| "errorText (Foreign m) = m"

text \<open>
  \<^verbatim>\<open>errors.As\<close> for a \<^verbatim>\<open>*WillowError\<close>: the first one along the chain.  An \<^verbatim>\<open>*HTTPError\<close> or a
  \<^verbatim>\<open>*TransactionError\<close> embeds one but is not one, and unwraps to its cause, which is never
  set.
\<close>

primrec asWillow :: "sdkError \<Rightarrow> (ErrorType \<times> string) option" where
  "asWillow (WillowError t m cause) = Some (t, m)"
| "asWillow (HTTPError status m) = None"
| "asWillow (SdkTransactionError m txHash code) = None"
| "asWillow (InsufficientFundsError required available) = None"
| "asWillow ErrNotAuthenticated = None"
| "asWillow (AnswerTooLarge m) = None"
| "asWillow (Wrapped m e) = asWillow e"
| "asWillow (Joined m es) =
     (case find (\<lambda>r. r \<noteq> None) (map asWillow es) of None \<Rightarrow> None | Some r \<Rightarrow> r)"
| "asWillow (Foreign m) = None"

primrec asHTTP :: "sdkError \<Rightarrow> int option" where
  "asHTTP (WillowError t m cause) =
     (case map_option asHTTP cause of None \<Rightarrow> None | Some r \<Rightarrow> r)"
| "asHTTP (HTTPError status m) = Some status"
| "asHTTP (SdkTransactionError m txHash code) = None"
| "asHTTP (InsufficientFundsError required available) = None"
| "asHTTP ErrNotAuthenticated = None"
| "asHTTP (AnswerTooLarge m) = None"
| "asHTTP (Wrapped m e) = asHTTP e"
| "asHTTP (Joined m es) =
     (case find (\<lambda>r. r \<noteq> None) (map asHTTP es) of None \<Rightarrow> None | Some r \<Rightarrow> r)"
| "asHTTP (Foreign m) = None"

text \<open>\<^verbatim>\<open>errors.Is\<close>: some error along the chain matches.\<close>

primrec onChain :: "(sdkError \<Rightarrow> bool) \<Rightarrow> sdkError \<Rightarrow> bool" where
  "onChain P (WillowError t m cause) =
     (P (WillowError t m cause)
      \<or> (case map_option (onChain P) cause of None \<Rightarrow> False | Some b \<Rightarrow> b))"
| "onChain P (HTTPError status m) = P (HTTPError status m)"
| "onChain P (SdkTransactionError m txHash code) = P (SdkTransactionError m txHash code)"
| "onChain P (InsufficientFundsError required available) = P (InsufficientFundsError required available)"
| "onChain P ErrNotAuthenticated = P ErrNotAuthenticated"
| "onChain P (AnswerTooLarge m) = P (AnswerTooLarge m)"
| "onChain P (Wrapped m e) = (P (Wrapped m e) \<or> onChain P e)"
| "onChain P (Joined m es) = (P (Joined m es) \<or> list_ex id (map (onChain P) es))"
| "onChain P (Foreign m) = P (Foreign m)"

definition IsNotAuthenticated :: "sdkError \<Rightarrow> bool" where
  "IsNotAuthenticated err = onChain (\<lambda>e. e = ErrNotAuthenticated) err"

definition isTooLarge :: "sdkError \<Rightarrow> bool" where
  "isTooLarge err = onChain (\<lambda>e. case e of AnswerTooLarge m \<Rightarrow> True | _ \<Rightarrow> False) err"

definition hasType :: "ErrorType \<Rightarrow> sdkError \<Rightarrow> bool" where
  "hasType t err = (case asWillow err of None \<Rightarrow> False | Some (t', m) \<Rightarrow> t' = t)"

definition IsNotFound :: "sdkError \<Rightarrow> bool" where
  "IsNotFound err = hasType ErrorTypeNotFound err"

definition IsUnsupported :: "sdkError \<Rightarrow> bool" where
  "IsUnsupported err = hasType ErrorTypeUnsupported err"

definition IsValidationError :: "sdkError \<Rightarrow> bool" where
  "IsValidationError err = hasType ErrorTypeValidation err"

definition IsHTTPError :: "sdkError \<Rightarrow> int \<times> bool" where
  "IsHTTPError err = (case asHTTP err of None \<Rightarrow> (0, False) | Some status \<Rightarrow> (status, True))"

subsection \<open>The errors of an answer\<close>

fun ioErr :: "ioError \<Rightarrow> sdkError" where
  "ioErr EOF = Foreign ''EOF''"
| "ioErr (ReadFailed m) = Foreign m"
| "ioErr (TooLargeError n) =
     AnswerTooLarge (''the answer is over the SDK's '' @ formatUint (n div 2 ^ 20)
       @ '' MiB limit for its route'')"

fun jsonErr :: "jsonError \<Rightarrow> sdkError" where
  "jsonErr (TooMuchJSONError deep) =
     AnswerTooLarge
       (if deep
        then ''the answer nests JSON deeper than the SDK decodes ('' @ formatInt MaxDepth @ '' levels)''
        else ''the answer holds more JSON values than the SDK decodes ('' @ formatInt MaxValues
             @ '', an array or object counting '' @ formatInt ContainerCost @ '')'')"

fun decodeErr :: "sdkError decodeError \<Rightarrow> sdkError" where
  "decodeErr (ReadRefused e) = ioErr e"
| "decodeErr (TooMuchJSON e) = jsonErr e"
| "decodeErr (DecodeFailed e) = e"

subsection \<open>Decoding into a struct\<close>

text \<open>
  A key names a field by its exact name, else by its name up to case: \<^verbatim>\<open>encoding/json\<close> folds
  each character to the least of its case variants, and besides the letters of the other
  case only U+017F and U+212A fold to an ASCII character.
\<close>

fun foldName :: "string \<Rightarrow> string" where
  "foldName [] = []"
| "foldName (c # s) =
     (let n = of_char c :: nat in
      if 97 \<le> n \<and> n \<le> 122 then char_of (n - 32) # foldName s
      else if hasPrefix [CHR 0xC5, CHR 0xBF] (c # s) then CHR ''S'' # foldName (drop 1 s)
      else if hasPrefix [CHR 0xE2, CHR 0x84, CHR 0xAA] (c # s) then CHR ''K'' # foldName (drop 2 s)
      else c # foldName s)"

type_synonym 's fieldReader = "'s \<Rightarrow> json \<Rightarrow> 's option"

definition fieldFor :: "(string \<times> 'f) list \<Rightarrow> string \<Rightarrow> 'f option" where
  "fieldFor fs k =
     (case map_of fs k of
        Some f \<Rightarrow> Some f
      | None \<Rightarrow> map_option snd (find (\<lambda>(n, f). foldName n = foldName k) fs))"

text \<open>
  \<open>None\<close> is an error: decoding goes on past a field of the wrong type, but the callers drop
  what it gave.
\<close>

primrec decodeFields :: "(string \<times> 's fieldReader) list \<Rightarrow> (string \<times> json) list \<Rightarrow> 's \<Rightarrow> 's option" where
  "decodeFields fs [] s = Some s"
| "decodeFields fs (kv # ms) s =
     (case fieldFor fs (fst kv) of
        None \<Rightarrow> decodeFields fs ms s
      | Some f \<Rightarrow> (case f s (snd kv) of None \<Rightarrow> None | Some s' \<Rightarrow> decodeFields fs ms s'))"

definition decodeStruct :: "(string \<times> 's fieldReader) list \<Rightarrow> 's fieldReader" where
  "decodeStruct fs s v =
     (case v of
        JNull \<Rightarrow> Some s
      | JObj ms \<Rightarrow> decodeFields fs ms s
      | _ \<Rightarrow> None)"

definition strField :: "(string \<Rightarrow> 's \<Rightarrow> 's) \<Rightarrow> 's fieldReader" where
  "strField upd s v = (case v of JStr t \<Rightarrow> Some (upd t s) | JNull \<Rightarrow> Some s | _ \<Rightarrow> None)"

definition boolField :: "(bool \<Rightarrow> 's \<Rightarrow> 's) \<Rightarrow> 's fieldReader" where
  "boolField upd s v = (case v of JBool b \<Rightarrow> Some (upd b s) | JNull \<Rightarrow> Some s | _ \<Rightarrow> None)"

definition strPtrField :: "(string option \<Rightarrow> 's \<Rightarrow> 's) \<Rightarrow> 's fieldReader" where
  "strPtrField upd s v =
     (case v of JStr t \<Rightarrow> Some (upd (Some t) s) | JNull \<Rightarrow> Some (upd None s) | _ \<Rightarrow> None)"

definition boolPtrField :: "(bool option \<Rightarrow> 's \<Rightarrow> 's) \<Rightarrow> 's fieldReader" where
  "boolPtrField upd s v =
     (case v of JBool b \<Rightarrow> Some (upd (Some b) s) | JNull \<Rightarrow> Some (upd None s) | _ \<Rightarrow> None)"

definition rawField :: "(json \<Rightarrow> 's \<Rightarrow> 's) \<Rightarrow> 's fieldReader" where
  "rawField upd s v = Some (upd v s)"

definition uintField :: "nat \<Rightarrow> (nat \<Rightarrow> 's \<Rightarrow> 's) \<Rightarrow> 's fieldReader" where
  "uintField w upd s v =
     (case v of
        JNum t \<Rightarrow> map_option (\<lambda>n. upd n s) (parseUint w t)
      | JNull \<Rightarrow> Some s
      | _ \<Rightarrow> None)"

text \<open>
  A slice: null makes it nil, and a null element is left at its zero value.  (Where a member
  is given twice, the elements of the first slice are not kept for nulls of the second.)
\<close>

definition sliceField :: "'e \<Rightarrow> 'e fieldReader \<Rightarrow> ('e list \<Rightarrow> 's \<Rightarrow> 's) \<Rightarrow> 's fieldReader" where
  "sliceField zero reader upd s v =
     (case v of
        JNull \<Rightarrow> Some (upd [] s)
      | JArr vs \<Rightarrow>
          let es = map (reader zero) vs in
          if list_all (\<lambda>e. e \<noteq> None) es then Some (upd (map the es) s) else None
      | _ \<Rightarrow> None)"

definition intField :: "nat \<Rightarrow> (int \<Rightarrow> 's \<Rightarrow> 's) \<Rightarrow> 's fieldReader" where
  "intField w upd s v =
     (case v of
        JNum t \<Rightarrow>
          (case cutPrefix ''-'' t of
             Some m \<Rightarrow> (case parseUint (Suc w) m of
                          Some n \<Rightarrow> if n \<le> 2 ^ (w - 1) then Some (upd (- int n) s) else None
                        | None \<Rightarrow> None)
           | None \<Rightarrow> map_option (\<lambda>n. upd (int n) s) (parseUint (w - 1) t))
      | JNull \<Rightarrow> Some s
      | _ \<Rightarrow> None)"

definition decodeWith :: "(string \<times> 's fieldReader) list \<Rightarrow> 's \<Rightarrow> string \<Rightarrow> sdkError + 's" where
  "decodeWith fs zero body =
     (case unmarshalJson body of
        None \<Rightarrow> Inl (Foreign ''invalid JSON'')
      | Some v \<Rightarrow> (case decodeStruct fs zero v of None \<Rightarrow> Inl (Foreign ''cannot unmarshal'') | Some r \<Rightarrow> Inr r))"

definition textOfBytes :: "bytes \<Rightarrow> string" where
  "textOfBytes bs = map (\<lambda>b. char_of (unat b)) bs"

text \<open>
  \<^verbatim>\<open>Decoder.DisallowUnknownFields\<close>: a member that names no field is an error.  \<^verbatim>\<open>Decoder.Decode\<close>
  reads one value and leaves the rest of the input.
\<close>

definition strictStruct :: "(string \<times> 's fieldReader) list \<Rightarrow> 's fieldReader" where
  "strictStruct fs s v =
     (case v of
        JNull \<Rightarrow> Some s
      | JObj ms \<Rightarrow> if list_all (\<lambda>kv. fieldFor fs (fst kv) \<noteq> None) ms then decodeFields fs ms s else None
      | _ \<Rightarrow> None)"

definition decodeFirst :: "string \<Rightarrow> json option" where
  "decodeFirst text = map_option fst (readJson maxNestingDepth ExpectValue [] text)"

lemma textOfBytes_stringBytes [simp]: "textOfBytes (stringBytes s) = s"
  by (simp add: textOfBytes_def stringBytes_def o_def unat_of_nat take_bit_eq_mod)

end
