(* ===== verification/Client.thy ===== *)
theory Client
  imports Errors LightClient
begin

text \<open>
  The API client (\<^verbatim>\<open>client.go\<close>): its configuration and which requests carry the API key, the
  retries around a request, what is made of an answer, and which requests are signed in
  which form.  The theory shows that the API key goes to the configured origins alone,
  whatever the order of the options, and what the retry loop sends and returns for any
  sequence of answers.

  \<^verbatim>\<open>net/url\<close> parses the URLs: a URL is here its parts.  What the network answers is an
  argument.
\<close>

subsection \<open>URLs\<close>

record url =
  uScheme :: string
  uHostname :: string
  uPort :: string
  uText :: string

text \<open>
  The origin \<^verbatim>\<open>origin\<close> computes; \<open>lower\<close> is \<^verbatim>\<open>strings.ToLower\<close>, which maps the letters of every
  script, and \<open>uText\<close> is what \<^verbatim>\<open>String()\<close> prints.
\<close>

definition origin :: "(string \<Rightarrow> string) \<Rightarrow> url \<Rightarrow> string" where
  "origin lower u =
     (let s = lower (uScheme u);
          scheme = (if s = ''ws'' then ''http'' else if s = ''wss'' then ''https'' else s);
          port = (if uPort u = [] then (if scheme = ''https'' then ''443'' else ''80'') else uPort u)
      in scheme @ ''://'' @ lower (uHostname u) @ '':'' @ port)"

subsection \<open>The client and its options\<close>

record RetryConfig =
  MaxRetries :: int
  InitialBackoff :: int
  MaxBackoff :: int

text \<open>
  The fields the options set.  \<open>httpBase\<close> names the HTTP client in use, the SDK's own or the
  caller's; \<open>keyOrigins\<close> is the transport \<^verbatim>\<open>apiKeyTransport\<close> wrapped around it, when a key is
  set.
\<close>

datatype httpClient = OwnClient | CallersClient nat

record ClientState =
  clHttp :: httpClient
  clTimeout :: int
  clBaseURL :: url
  clIndexerURL :: "url option"
  clRpcURL :: "url option"
  clApiKey :: string
  clRetry :: RetryConfig
  clLightClient :: "LightClient option"
  clKeyOrigins :: "string set option"

datatype ClientOption =
    WithTimeout int
  | WithHTTPClient nat int
  | WithRetryConfig RetryConfig
  | WithIndexerURL string
  | WithRPCURL string
  | WithLightClient LightClient
  | WithAPIKey string

definition trimSuffix :: "string \<Rightarrow> string \<Rightarrow> string" where
  "trimSuffix p s = rev (trimPrefix (rev p) (rev s))"

definition parseURL :: "(string \<Rightarrow> string + url) \<Rightarrow> string \<Rightarrow> string \<Rightarrow> sdkError + url" where
  "parseURL parse what s =
     (case parse (trimSuffix ''/'' s) of
        Inl e \<Rightarrow> Inl (NewConfigError (''invalid '' @ what @ '' URL: '' @ e))
      | Inr u \<Rightarrow> Inr u)"

primrec applyOption :: "(string \<Rightarrow> string + url) \<Rightarrow> ClientOption \<Rightarrow> ClientState \<Rightarrow> sdkError + ClientState" where
  "applyOption parse (WithTimeout t) c = Inr (c\<lparr>clTimeout := t\<rparr>)"
| "applyOption parse (WithHTTPClient h t) c = Inr (c\<lparr>clHttp := CallersClient h, clTimeout := t\<rparr>)"
| "applyOption parse (WithRetryConfig r) c = Inr (c\<lparr>clRetry := r\<rparr>)"
| "applyOption parse (WithIndexerURL s) c =
     bindR (parseURL parse ''indexer'' s) (\<lambda>u. Inr (c\<lparr>clIndexerURL := Some u\<rparr>))"
| "applyOption parse (WithRPCURL s) c =
     bindR (parseURL parse ''RPC'' s) (\<lambda>u. Inr (c\<lparr>clRpcURL := Some u\<rparr>))"
| "applyOption parse (WithLightClient lc) c = Inr (c\<lparr>clLightClient := Some lc\<rparr>)"
| "applyOption parse (WithAPIKey k) c = Inr (c\<lparr>clApiKey := k\<rparr>)"

primrec applyOptions :: "(string \<Rightarrow> string + url) \<Rightarrow> ClientOption list \<Rightarrow> ClientState \<Rightarrow> sdkError + ClientState" where
  "applyOptions parse [] c = Inr c"
| "applyOptions parse (opt # opts) c = bindR (applyOption parse opt c) (applyOptions parse opts)"

definition defaultTimeout :: int where
  "defaultTimeout = 30 * 10 ^ 9"

definition DefaultRetryConfig :: RetryConfig where
  "DefaultRetryConfig = \<lparr>MaxRetries = 3, InitialBackoff = 100 * 10 ^ 6, MaxBackoff = 5 * 10 ^ 9\<rparr>"

definition keyedOrigins :: "(string \<Rightarrow> string) \<Rightarrow> ClientState \<Rightarrow> string set option" where
  "keyedOrigins lower c =
     (if clApiKey c = [] then None
      else Some (insert (origin lower (clBaseURL c))
                   (case clIndexerURL c of None \<Rightarrow> {} | Some u \<Rightarrow> {origin lower u})))"

definition NewClient ::
  "(string \<Rightarrow> string) \<Rightarrow> (string \<Rightarrow> string + url) \<Rightarrow> string \<Rightarrow> ClientOption list \<Rightarrow> sdkError + ClientState" where
  "NewClient lower parse apiURL opts =
     bindR (parseURL parse ''API'' apiURL) (\<lambda>u.
     bindR (applyOptions parse opts
              \<lparr>clHttp = OwnClient, clTimeout = defaultTimeout, clBaseURL = u, clIndexerURL = None,
               clRpcURL = None, clApiKey = [], clRetry = DefaultRetryConfig,
               clLightClient = None, clKeyOrigins = None\<rparr>) (\<lambda>c.
     Inr (c\<lparr>clKeyOrigins := keyedOrigins lower c\<rparr>)))"

text \<open>The builder collects options in the order of its calls and hands them to \<^verbatim>\<open>NewClient\<close>.\<close>

record ClientBuilder =
  cbURL :: string
  cbOptions :: "ClientOption list"

definition Builder :: "string \<Rightarrow> ClientBuilder" where
  "Builder apiURL = \<lparr>cbURL = apiURL, cbOptions = []\<rparr>"

definition addOption :: "ClientOption \<Rightarrow> ClientBuilder \<Rightarrow> ClientBuilder" where
  "addOption opt b = b\<lparr>cbOptions := cbOptions b @ [opt]\<rparr>"

definition Build :: "(string \<Rightarrow> string) \<Rightarrow> (string \<Rightarrow> string + url) \<Rightarrow> ClientBuilder \<Rightarrow> sdkError + ClientState" where
  "Build lower parse b = NewClient lower parse (cbURL b) (cbOptions b)"

subsection \<open>The API key\<close>

text \<open>A request as the transport sees it: its URL and its headers, by their canonical names.\<close>

record request =
  rqMethod :: string
  rqURL :: url
  rqHeader :: "string \<Rightarrow> string list"

definition keyHeader :: string where
  "keyHeader = ''X-Api-Key''"

definition RoundTrip :: "(string \<Rightarrow> string) \<Rightarrow> string \<Rightarrow> string set \<Rightarrow> request \<Rightarrow> request" where
  "RoundTrip lower key origins req =
     (if origin lower (rqURL req) \<notin> origins
      then (if (case rqHeader req keyHeader of [] \<Rightarrow> True | v # _ \<Rightarrow> v = []) then req
            else req\<lparr>rqHeader := (rqHeader req)(keyHeader := [])\<rparr>)
      else req\<lparr>rqHeader := (rqHeader req)(keyHeader := [key])\<rparr>)"

text \<open>What goes over the network for a request the client sends.\<close>

definition sendRequest :: "(string \<Rightarrow> string) \<Rightarrow> ClientState \<Rightarrow> request \<Rightarrow> request" where
  "sendRequest lower c req =
     (case clKeyOrigins c of None \<Rightarrow> req | Some origins \<Rightarrow> RoundTrip lower (clApiKey c) origins req)"

definition IndexerBaseURL :: "ClientState \<Rightarrow> string" where
  "IndexerBaseURL c = (case clIndexerURL c of Some u \<Rightarrow> uText u | None \<Rightarrow> uText (clBaseURL c))"

fun replaceFirst :: "string \<Rightarrow> string \<Rightarrow> string \<Rightarrow> string" where
  "replaceFirst old new [] = (if old = [] then new else [])"
| "replaceFirst old new (c # s) =
     (case cutPrefix old (c # s) of Some r \<Rightarrow> new @ r | None \<Rightarrow> c # replaceFirst old new s)"

definition RPCEndpoint :: "ClientState \<Rightarrow> string" where
  "RPCEndpoint c =
     (case clRpcURL c of
        Some u \<Rightarrow> uText u
      | None \<Rightarrow> replaceFirst '':3031'' '':26657'' (uText (clBaseURL c)))"

definition buildURL :: "ClientState \<Rightarrow> string \<Rightarrow> string" where
  "buildURL c path = uText (clBaseURL c) @ path"

subsection \<open>The light client of a client\<close>

definition clientLightConfig :: "ClientState \<Rightarrow> LightConfig" where
  "clientLightConfig c =
     \<lparr>cfgChainID = ''willow-chain'', cfgValidatorEndpoints = [RPCEndpoint c],
      cfgTrustThreshold = \<lparr>thrNumerator = 2, thrDenominator = 3\<rparr>,
      cfgTrustingPeriod = 24 * 3600 * 10 ^ 9, cfgMaxClockDrift = 30 * 10 ^ 9,
      cfgMinValidatorsForConsensus = 0, cfgAutoSync = False, cfgSyncInterval = 60 * 10 ^ 9,
      cfgRPCTimeout = 30 * 10 ^ 9, cfgMaxRetries = 3\<rparr>"

text \<open>The lock makes the whole of it one step; the light client is made once and then kept.\<close>

definition GetOrCreateLightClient ::
  "ClientState \<Rightarrow> (nat \<Rightarrow> string \<Rightarrow> attempt) \<Rightarrow> ClientState \<times> (lightError + LightClient)" where
  "GetOrCreateLightClient c world =
     (case clLightClient c of
        Some lc \<Rightarrow> (c, Inr lc)
      | None \<Rightarrow>
          (case bindR (NewLightClient (clientLightConfig c)) (\<lambda>lc. InitializeWithTrustOnFirstUse lc world) of
             Inl e \<Rightarrow> (c, Inl e)
           | Inr lc \<Rightarrow> (c\<lparr>clLightClient := Some lc\<rparr>, Inr lc)))"

subsection \<open>Which requests are signed in which form\<close>

fun splitOn :: "char \<Rightarrow> string \<Rightarrow> string list" where
  "splitOn sep [] = [[]]"
| "splitOn sep (c # s) =
     (if c = sep then [] # splitOn sep s
      else case splitOn sep s of [] \<Rightarrow> [[c]] | p # ps \<Rightarrow> (c # p) # ps)"

definition dropQuery :: "string \<Rightarrow> string" where
  "dropQuery target = takeWhile (\<lambda>c. c \<noteq> CHR 0x3F) target"

definition carriesReadRights :: "string \<Rightarrow> string \<Rightarrow> bool" where
  "carriesReadRights method target =
     (let segments = splitOn (CHR ''/'') (trimPrefix ''/'' (dropQuery target));
          n = length segments; s0 = hd segments in
      if method = ''GET'' then
        (if s0 = ''data'' then n = 3
         else if s0 = ''proof'' then n = 3 \<or> n = 4 \<and> segments ! 1 = ''key-grant''
         else if s0 = ''key-grants'' then n = 2 \<or> n = 3
         else False)
      else if method = ''POST'' then
        (if s0 = ''query'' \<or> s0 = ''sql'' \<or> s0 = ''graphql'' then n = 2
         else if s0 = ''a2a'' then n = 1
         else False)
      else False)"

text \<open>\<open>basePath\<close> is the escaped path of the API's base URL, \<open>requestURI\<close> the request line's target.\<close>

definition apiTarget :: "string \<Rightarrow> string \<Rightarrow> string" where
  "apiTarget basePath requestURI =
     (let base = trimSuffix ''/'' basePath in
      if base \<noteq> [] \<and> hasPrefix (base @ ''/'') requestURI then drop (length base) requestURI
      else requestURI)"

subsection \<open>Answers\<close>

record errorBody =
  ebError :: string
  ebMessage :: string

definition errorBodyFields :: "(string \<times> errorBody fieldReader) list" where
  "errorBodyFields =
     [(''error'', strField (\<lambda>t s. s\<lparr>ebError := t\<rparr>)), (''message'', strField (\<lambda>t s. s\<lparr>ebMessage := t\<rparr>))]"

definition readErrorBody :: "string \<Rightarrow> errorBody option" where
  "readErrorBody body =
     (case unmarshalJson body of
        None \<Rightarrow> None
      | Some v \<Rightarrow> decodeStruct errorBodyFields \<lparr>ebError = [], ebMessage = []\<rparr> v)"

definition handleErrorResponse :: "int \<Rightarrow> string \<Rightarrow> sdkError" where
  "handleErrorResponse statusCode body =
     (case readErrorBody body of
        None \<Rightarrow> NewHTTPError statusCode body
      | Some r \<Rightarrow>
          let message = (if ebError r = [] then ebMessage r else ebError r) in
          if statusCode = 401 then NewAuthenticationError message
          else if statusCode = 403 then NewPermissionDeniedError message
          else if statusCode = 404 then WillowError ErrorTypeNotFound message None
          else if statusCode = 400 then NewValidationError message
          else NewHTTPError statusCode message)"

record apiEnvelope =
  envSuccess :: bool
  envData :: "json option"
  envError :: "string option"

definition envelopeFields :: "(string \<times> apiEnvelope fieldReader) list" where
  "envelopeFields =
     [(''success'', boolField (\<lambda>b e. e\<lparr>envSuccess := b\<rparr>)),
      (''data'', rawField (\<lambda>v e. e\<lparr>envData := Some v\<rparr>)),
      (''error'', strPtrField (\<lambda>t e. e\<lparr>envError := t\<rparr>))]"

definition emptyEnvelope :: apiEnvelope where
  "emptyEnvelope = \<lparr>envSuccess = False, envData = None, envError = None\<rparr>"

definition containsText :: "string \<Rightarrow> string \<Rightarrow> bool" where
  "containsText p s \<longleftrightarrow> list_ex (\<lambda>i. hasPrefix p (drop i s)) [0..<Suc (length s)]"

text \<open>
  \<open>reader\<close> decodes the data into the caller's result, \<open>None\<close> for a caller that wants none; the
  result \<open>None\<close> is a result left as it is.
\<close>

definition decodeEnvelope ::
  "(string \<Rightarrow> string) \<Rightarrow> (json \<Rightarrow> sdkError + 'a) option \<Rightarrow> apiEnvelope \<Rightarrow> sdkError + 'a option" where
  "decodeEnvelope lower reader env =
     (if \<not> envSuccess env \<or> envError env \<noteq> None then
        (let message = (case envError env of
                          Some e \<Rightarrow> if e = [] then ''the API reported a failure without a message'' else e
                        | None \<Rightarrow> ''the API reported a failure without a message'') in
         Inl (if containsText ''not found'' (lower message) then WillowError ErrorTypeNotFound message None
              else NewAPIError message))
      else case (reader, envData env) of
        (None, _) \<Rightarrow> Inr None
      | (_, None) \<Rightarrow> Inr None
      | (_, Some JNull) \<Rightarrow> Inr None
      | (Some f, Some v) \<Rightarrow>
          (case f v of
             Inl e \<Rightarrow> Inl (NewSerializationError ''failed to unmarshal response data'' (Some e))
           | Inr a \<Rightarrow> Inr (Some a)))"

subsection \<open>Retries\<close>

text \<open>
  What one attempt of a request meets: it is not built, it gets no answer, or an answer of a
  status.  The context may end while the loop waits before an attempt.
\<close>

datatype 'r attemptOutcome = NotBuilt sdkError | NoAnswer sdkError | Answer int 'r

record 'r retryWorld =
  rwCancelled :: "nat \<Rightarrow> sdkError option"
  rwOutcome :: "nat \<Rightarrow> 'r attemptOutcome"

text \<open>What the loop returns: \<open>NilNil\<close> is a nil response with a nil error.\<close>

datatype 'r retryResult = Got int 'r | Failed sdkError | NilNil

datatype 'r verdict = Stop "'r retryResult" | Again sdkError

fun judge :: "'r attemptOutcome \<Rightarrow> 'r verdict" where
  "judge (NotBuilt e) = Stop (Failed e)"
| "judge (NoAnswer e) = Again (NewNetworkError ''request failed'' e)"
| "judge (Answer status r) =
     (if 400 \<le> status \<and> status < 500 then Stop (Got status r)
      else if 500 \<le> status then Again (NewHTTPError status ''server error'')
      else Stop (Got status r))"

definition reachesNetwork :: "'r attemptOutcome \<Rightarrow> bool" where
  "reachesNetwork out = (case out of NotBuilt e \<Rightarrow> False | _ \<Rightarrow> True)"

text \<open>
  The loop: the waits it asks for, the attempts it sends and its result.  \<open>scale\<close> is
  \<^verbatim>\<open>time.Duration(float64(b) * BackoffFactor)\<close>.
\<close>

record 'r retryTrace =
  rtWaits :: "int list"
  rtSent :: "nat list"
  rtResult :: "'r retryResult"

primrec retryFrom ::
  "(int \<Rightarrow> int) \<Rightarrow> RetryConfig \<Rightarrow> 'r retryWorld \<Rightarrow> nat \<Rightarrow> nat \<Rightarrow> int \<Rightarrow> sdkError option \<Rightarrow> 'r retryTrace" where
  "retryFrom scale cfg w 0 attempt backoff lastErr =
     \<lparr>rtWaits = [], rtSent = [],
      rtResult = (case lastErr of None \<Rightarrow> NilNil | Some e \<Rightarrow> Failed e)\<rparr>"
| "retryFrom scale cfg w (Suc left) attempt backoff lastErr =
     (let waits = (if 0 < attempt then [backoff] else []);
          next = (if 0 < attempt then min (scale backoff) (MaxBackoff cfg) else backoff);
          out = rwOutcome w attempt;
          sent = (if reachesNetwork out then [attempt] else []) in
      case (if 0 < attempt then rwCancelled w attempt else None) of
        Some e \<Rightarrow> \<lparr>rtWaits = waits, rtSent = [], rtResult = Failed e\<rparr>
      | None \<Rightarrow>
          (case judge out of
             Stop r \<Rightarrow> \<lparr>rtWaits = waits, rtSent = sent, rtResult = r\<rparr>
           | Again e \<Rightarrow>
               let t = retryFrom scale cfg w left (Suc attempt) next (Some e) in
               t\<lparr>rtWaits := waits @ rtWaits t, rtSent := sent @ rtSent t\<rparr>))"

definition doWithRetry :: "(int \<Rightarrow> int) \<Rightarrow> RetryConfig \<Rightarrow> 'r retryWorld \<Rightarrow> 'r retryTrace" where
  "doWithRetry scale cfg w = retryFrom scale cfg w (nat (MaxRetries cfg + 1)) 0 (InitialBackoff cfg) None"

text \<open>
  \<^verbatim>\<open>doRequest\<close> after the body is marshalled: the answer read under its cap, its status, and
  the decoding of what it holds; \<open>Inl None\<close> is the panic on a response the loop returned
  nil.
\<close>

definition readAnswer ::
  "(nat \<Rightarrow> nat) \<Rightarrow> nat \<Rightarrow> (string \<Rightarrow> sdkError + 'a) option \<Rightarrow> int \<Rightarrow> source \<Rightarrow> sdkError + 'a option" where
  "readAnswer spare limit decode status body =
     (case ReadAll spare body limit of
        Inl e \<Rightarrow> Inl (NewNetworkError ''failed to read response body'' (ioErr e))
      | Inr respBody \<Rightarrow>
          if 400 \<le> status then Inl (handleErrorResponse status respBody)
          else (case decode of
                  None \<Rightarrow> Inr None
                | Some f \<Rightarrow>
                    if respBody = [] then Inr None
                    else (case Unmarshal f respBody of
                            Inl e \<Rightarrow> Inl (NewSerializationError ''failed to unmarshal response'' (Some (decodeErr e)))
                          | Inr a \<Rightarrow> Inr (Some a))))"

definition doRequest ::
  "(int \<Rightarrow> int) \<Rightarrow> RetryConfig \<Rightarrow> (nat \<Rightarrow> nat) \<Rightarrow> source retryWorld \<Rightarrow> sdkError + string option
    \<Rightarrow> nat \<Rightarrow> (string \<Rightarrow> sdkError + 'a) option \<Rightarrow> (sdkError option) + 'a option" where
  "doRequest scale cfg spare w body limit decode =
     (case body of
        Inl e \<Rightarrow> Inl (Some (NewSerializationError ''failed to marshal request body'' (Some e)))
      | Inr payload \<Rightarrow>
          (case rtResult (doWithRetry scale cfg w) of
             Failed e \<Rightarrow> Inl (Some e)
           | NilNil \<Rightarrow> Inl None
           | Got status r \<Rightarrow>
               (case readAnswer spare limit decode status r of Inl e \<Rightarrow> Inl (Some e) | Inr x \<Rightarrow> Inr x)))"

definition readEnvelope :: "string \<Rightarrow> sdkError + apiEnvelope" where
  "readEnvelope body =
     (case unmarshalJson body of
        None \<Rightarrow> Inl (Foreign ''invalid JSON'')
      | Some v \<Rightarrow>
          (case decodeStruct envelopeFields emptyEnvelope v of
             None \<Rightarrow> Inl (Foreign ''cannot unmarshal'')
           | Some env \<Rightarrow> Inr env))"

definition requestData ::
  "(string \<Rightarrow> string) \<Rightarrow> (int \<Rightarrow> int) \<Rightarrow> RetryConfig \<Rightarrow> (nat \<Rightarrow> nat) \<Rightarrow> source retryWorld \<Rightarrow> sdkError + string option
    \<Rightarrow> nat \<Rightarrow> (json \<Rightarrow> sdkError + 'a) option \<Rightarrow> (sdkError option) + 'a option" where
  "requestData lower scale cfg spare w body limit reader =
     (case doRequest scale cfg spare w body limit (Some readEnvelope) of
        Inl e \<Rightarrow> Inl e
      | Inr env \<Rightarrow>
          (case decodeEnvelope lower reader (case env of None \<Rightarrow> emptyEnvelope | Some x \<Rightarrow> x) of
             Inl e \<Rightarrow> Inl (Some e)
           | Inr r \<Rightarrow> Inr r))"

subsection \<open>Lemmas: retries\<close>

text \<open>
  A reference for the loop: what happens at an attempt, the first attempt that ends the
  loop, and the attempts it sends before.
\<close>

definition eventAt :: "'r retryWorld \<Rightarrow> nat \<Rightarrow> 'r verdict" where
  "eventAt w i =
     (case (if 0 < i then rwCancelled w i else None) of
        Some e \<Rightarrow> Stop (Failed e)
      | None \<Rightarrow> judge (rwOutcome w i))"

definition stops :: "'r verdict \<Rightarrow> bool" where
  "stops v = (case v of Stop r \<Rightarrow> True | Again e \<Rightarrow> False)"

definition resultOf :: "'r verdict \<Rightarrow> 'r retryResult" where
  "resultOf v = (case v of Stop r \<Rightarrow> r | Again e \<Rightarrow> Failed e)"

definition firstStop :: "'r retryWorld \<Rightarrow> nat \<Rightarrow> nat \<Rightarrow> nat option" where
  "firstStop w from n = find (\<lambda>i. stops (eventAt w i)) [from..<from + n]"

definition sendsAt :: "'r retryWorld \<Rightarrow> nat \<Rightarrow> bool" where
  "sendsAt w i \<longleftrightarrow> \<not> (0 < i \<and> rwCancelled w i \<noteq> None) \<and> reachesNetwork (rwOutcome w i)"

lemma firstStop_Suc:
  "firstStop w a (Suc n) = (if stops (eventAt w a) then Some a else firstStop w (Suc a) n)"
proof -
  have "[a..<a + Suc n] = a # [Suc a..<Suc a + n]" by (simp add: upt_conv_Cons)
  then show ?thesis by (simp add: firstStop_def)
qed

lemma firstStop_0 [simp]: "firstStop w a 0 = None"
  by (simp add: firstStop_def)

lemma firstStop_ge: "firstStop w a n = Some i \<Longrightarrow> a \<le> i \<and> i < a + n"
  by (auto simp: firstStop_def find_Some_iff nth_upt)

lemma judge_again_sent: "judge out = Again e \<Longrightarrow> reachesNetwork out"
  by (cases out) (auto simp: reachesNetwork_def)

lemma retryFrom_result:
  "rtResult (retryFrom scale cfg w n a b lastErr) =
     (case firstStop w a n of
        Some i \<Rightarrow> resultOf (eventAt w i)
      | None \<Rightarrow> (if n = 0 then (case lastErr of None \<Rightarrow> NilNil | Some e \<Rightarrow> Failed e)
                 else resultOf (eventAt w (a + n - 1))))"
proof (induction n arbitrary: a b lastErr)
  case (Suc n)
  show ?case
  proof (cases "eventAt w a")
    case (Stop r)
    then show ?thesis
      by (auto simp: firstStop_Suc stops_def resultOf_def eventAt_def Let_def split: option.splits verdict.splits)
  next
    case (Again e)
    then have "rtResult (retryFrom scale cfg w (Suc n) a b lastErr) =
        rtResult (retryFrom scale cfg w n (Suc a) (if 0 < a then min (scale b) (MaxBackoff cfg) else b) (Some e))"
      by (auto simp: eventAt_def Let_def split: option.splits if_splits)
    then show ?thesis
      using Suc.IH Again by (simp add: firstStop_Suc stops_def resultOf_def split: option.splits)
  qed
qed simp

lemma retryFrom_sent:
  "rtSent (retryFrom scale cfg w n a b lastErr) =
     filter (sendsAt w) [a..<(case firstStop w a n of Some i \<Rightarrow> Suc i | None \<Rightarrow> a + n)]"
proof (induction n arbitrary: a b lastErr)
  case (Suc n)
  show ?case
  proof (cases "eventAt w a")
    case (Stop r)
    then show ?thesis
      by (auto simp: firstStop_Suc stops_def eventAt_def sendsAt_def Let_def split: option.splits verdict.splits)
  next
    case (Again e)
    then have head: "sendsAt w a" and step: "rtSent (retryFrom scale cfg w (Suc n) a b lastErr) =
        a # rtSent (retryFrom scale cfg w n (Suc a) (if 0 < a then min (scale b) (MaxBackoff cfg) else b) (Some e))"
      by (auto simp: eventAt_def sendsAt_def Let_def judge_again_sent split: option.splits if_splits)
    let ?k = "case firstStop w (Suc a) n of Some i \<Rightarrow> Suc i | None \<Rightarrow> Suc a + n"
    have "a < ?k" using firstStop_ge [of w "Suc a" n] by (auto split: option.splits)
    then have "filter (sendsAt w) [a..<?k] = a # filter (sendsAt w) [Suc a..<?k]"
      using head by (simp only: upt_conv_Cons filter.simps if_True)
    moreover have "(case firstStop w a (Suc n) of Some i \<Rightarrow> Suc i | None \<Rightarrow> a + Suc n) = ?k"
      using Again by (simp add: firstStop_Suc stops_def split: option.splits)
    ultimately show ?thesis using step Suc.IH by metis
  qed
qed simp

lemma retryFrom_waits:
  "b \<le> m \<Longrightarrow> MaxBackoff cfg \<le> m \<Longrightarrow> list_all (\<lambda>x. x \<le> m) (rtWaits (retryFrom scale cfg w n a b lastErr))"
proof (induction n arbitrary: a b lastErr)
  case (Suc n)
  have "(if 0 < a then min (scale b) (MaxBackoff cfg) else b) \<le> m" using Suc.prems by auto
  then show ?case
    using Suc.IH Suc.prems by (auto simp: Let_def split: option.splits verdict.splits)
qed simp

text \<open>
  C33: the retry loop returns what the first attempt that is not built, that the context
  ends before, or that is answered below 500 gives, the failure of the last attempt when
  there is none, and a nil response with a nil error when the configuration allows no
  attempt at all (a negative \<^verbatim>\<open>MaxRetries\<close>); it sends the attempts up to there, in order and
  once each.
\<close>

theorem retry_first_final:
  "let n = nat (MaxRetries cfg + 1); t = doWithRetry scale cfg w in
   rtResult t = (case firstStop w 0 n of
                   Some i \<Rightarrow> resultOf (eventAt w i)
                 | None \<Rightarrow> if n = 0 then NilNil else resultOf (eventAt w (n - 1)))
   \<and> rtSent t = filter (sendsAt w) [0..<(case firstStop w 0 n of Some i \<Rightarrow> Suc i | None \<Rightarrow> n)]
   \<and> list_all (\<lambda>x. x \<le> max (InitialBackoff cfg) (MaxBackoff cfg)) (rtWaits t)"
proof -
  have "list_all (\<lambda>x. x \<le> max (InitialBackoff cfg) (MaxBackoff cfg)) (rtWaits (doWithRetry scale cfg w))"
    unfolding doWithRetry_def by (rule retryFrom_waits) simp_all
  then show ?thesis
    by (simp add: Let_def doWithRetry_def retryFrom_result retryFrom_sent add_0_left [where 'a = nat]
          split: option.splits)
qed

subsection \<open>Lemmas: the API key\<close>

text \<open>The key and the indexer URL a list of options ends with, each set by its last option.\<close>

fun keyOf :: "ClientOption list \<Rightarrow> string \<Rightarrow> string" where
  "keyOf [] k = k"
| "keyOf (WithAPIKey k' # opts) k = keyOf opts k'"
| "keyOf (opt # opts) k = keyOf opts k"

fun indexerURLOf :: "(string \<Rightarrow> string + url) \<Rightarrow> ClientOption list \<Rightarrow> url option \<Rightarrow> url option" where
  "indexerURLOf parse [] u = u"
| "indexerURLOf parse (WithIndexerURL s # opts) u =
     indexerURLOf parse opts (case parse (trimSuffix ''/'' s) of Inr v \<Rightarrow> Some v | Inl e \<Rightarrow> u)"
| "indexerURLOf parse (opt # opts) u = indexerURLOf parse opts u"

lemma applyOption_fields:
  assumes "applyOption parse opt c = Inr c'"
  shows "clBaseURL c' = clBaseURL c \<and> keyOf opts (clApiKey c') = keyOf (opt # opts) (clApiKey c)
    \<and> indexerURLOf parse opts (clIndexerURL c') = indexerURLOf parse (opt # opts) (clIndexerURL c)"
  using assms
  by (cases opt) (auto simp: bindR_eq_Inr parseURL_def split: sum.splits)

lemma applyOptions_fields:
  "applyOptions parse opts c = Inr c' \<Longrightarrow>
     clBaseURL c' = clBaseURL c \<and> clApiKey c' = keyOf opts (clApiKey c)
     \<and> clIndexerURL c' = indexerURLOf parse opts (clIndexerURL c)"
proof (induction opts arbitrary: c)
  case (Cons opt opts)
  then obtain d where d: "applyOption parse opt c = Inr d" "applyOptions parse opts d = Inr c'"
    by (auto simp: bindR_eq_Inr)
  then show ?case using Cons.IH [OF d(2)] applyOption_fields [OF d(1), of opts] by simp
qed simp

lemma NewClient_fields:
  assumes "NewClient lower parse apiURL opts = Inr c"
  obtains base where "parse (trimSuffix ''/'' apiURL) = Inr base" and "clApiKey c = keyOf opts []"
    and "clKeyOrigins c =
      (if keyOf opts [] = [] then None
       else Some (insert (origin lower base)
         (case indexerURLOf parse opts None of None \<Rightarrow> {} | Some u \<Rightarrow> {origin lower u})))"
proof -
  obtain base d where base: "parse (trimSuffix ''/'' apiURL) = Inr base"
    and d: "applyOptions parse opts
      \<lparr>clHttp = OwnClient, clTimeout = defaultTimeout, clBaseURL = base, clIndexerURL = None,
       clRpcURL = None, clApiKey = [], clRetry = DefaultRetryConfig, clLightClient = None,
       clKeyOrigins = None\<rparr> = Inr d"
    and c: "c = d\<lparr>clKeyOrigins := keyedOrigins lower d\<rparr>"
    using assms by (auto simp: NewClient_def bindR_eq_Inr parseURL_def split: sum.splits)
  show ?thesis
    using that [OF base] applyOptions_fields [OF d] c by (simp add: keyedOrigins_def)
qed

text \<open>
  C34: a request that does not set the key header itself goes out with the configured API
  key exactly when a key is configured and the request's origin is the API URL's or the
  indexer URL's, whatever the order of the options; every other header is as it was.
\<close>

theorem apikey_only_configured:
  assumes "NewClient lower parse apiURL opts = Inr c" and "rqHeader req keyHeader = []"
  shows "\<exists>base. parse (trimSuffix ''/'' apiURL) = Inr base
    \<and> rqHeader (sendRequest lower c req) =
        (rqHeader req)(keyHeader :=
          if keyOf opts [] \<noteq> []
             \<and> (origin lower (rqURL req) = origin lower base
                \<or> (\<exists>u. indexerURLOf parse opts None = Some u \<and> origin lower (rqURL req) = origin lower u))
          then [keyOf opts []] else [])"
  using assms(1)
proof (rule NewClient_fields)
  fix base
  assume "parse (trimSuffix ''/'' apiURL) = Inr base" and "clApiKey c = keyOf opts []"
    and "clKeyOrigins c =
      (if keyOf opts [] = [] then None
       else Some (insert (origin lower base)
         (case indexerURLOf parse opts None of None \<Rightarrow> {} | Some u \<Rightarrow> {origin lower u})))"
  then show ?thesis
    using assms(2)
    by (auto simp: sendRequest_def RoundTrip_def fun_eq_iff split: option.splits)
qed

definition sampleParse :: "string \<Rightarrow> string + url" where
  "sampleParse s = Inr \<lparr>uScheme = ''https'', uHostname = s, uPort = [], uText = s\<rparr>"

theorem apikey_only_configured_witness:
  "\<exists>c. NewClient id sampleParse ''api'' [WithAPIKey ''k'', WithIndexerURL ''idx''] = Inr c
    \<and> rqHeader (sendRequest id c \<lparr>rqMethod = ''GET'', rqURL = \<lparr>uScheme = ''wss'', uHostname = ''idx'',
        uPort = ''443'', uText = []\<rparr>, rqHeader = (\<lambda>h. [])\<rparr>) keyHeader = [''k'']"
proof -
  let ?o = "[WithAPIKey ''k'', WithIndexerURL ''idx'']"
  let ?r = "\<lparr>rqMethod = ''GET'', rqURL = \<lparr>uScheme = ''wss'', uHostname = ''idx'', uPort = ''443'',
      uText = []\<rparr>, rqHeader = (\<lambda>h. [])\<rparr>"
  have trim: "trimSuffix ''/'' ''api'' = ''api''" "trimSuffix ''/'' ''idx'' = ''idx''" by code_simp+
  then obtain c where c: "NewClient id sampleParse ''api'' ?o = Inr c"
    by (simp add: NewClient_def parseURL_def sampleParse_def)
  have "indexerURLOf sampleParse ?o None = Some \<lparr>uScheme = ''https'', uHostname = ''idx'', uPort = [], uText = ''idx''\<rparr>"
    "keyOf ?o [] = ''k''"
    using trim by (simp_all add: sampleParse_def)
  then have "rqHeader (sendRequest id c ?r) keyHeader = [''k'']"
    using apikey_only_configured [OF c, of ?r] by (auto simp: origin_def Let_def)
  then show ?thesis using c by blast
qed

end
