(* ===== verification/Auth.thy ===== *)
theory Auth
  imports Client SignedMessages
begin

text \<open>
  Identities and signed requests (\<^verbatim>\<open>auth.go\<close>, the signing half of \<^verbatim>\<open>client.go\<close>, \<^verbatim>\<open>devnet.go\<close>): keys,
  the identifier derived from a key, and the two forms a request is signed in.  The theory
  shows that the base58 text of a digest determines it, that a nonce-signed message binds
  the whole request and is the text of no transaction, and which requests are signed so.

  The signature schemes and hashes are libraries' and arguments (\<open>cryptoLib\<close>); SHA-256 is the
  one of \<^verbatim>\<open>Sha256\<close>.
\<close>

subsection \<open>Keys\<close>

datatype SignatureAlgorithm = Ed25519 | Secp256k1 | OtherAlgorithm string

fun algorithmText :: "SignatureAlgorithm \<Rightarrow> string" where
  "algorithmText Ed25519 = ''Ed25519''"
| "algorithmText Secp256k1 = ''secp256k1''"
| "algorithmText (OtherAlgorithm a) = a"

fun KeyType :: "SignatureAlgorithm \<Rightarrow> string" where
  "KeyType Ed25519 = ''Ed25519VerificationKey2018''"
| "KeyType Secp256k1 = ''EcdsaSecp256k1VerificationKey2019''"
| "KeyType (OtherAlgorithm a) = []"

record KeyPair =
  kpAlgorithm :: SignatureAlgorithm
  kpPublicKey :: bytes
  kpPrivateKey :: bytes

text \<open>
  What the SDK uses of the libraries: SHA3-256 and Keccak-256, signing and verifying, and of
  secp256k1 the private key read from bytes, its public key compressed, parsing a public
  key, the order of the group, and reading and writing a DER signature.
\<close>

record cryptoLib =
  sha3Sum256 :: "bytes \<Rightarrow> bytes"
  libKeccak256 :: "bytes \<Rightarrow> bytes"
  ed25519Sign :: "bytes \<Rightarrow> bytes \<Rightarrow> bytes"
  ed25519Verify :: "bytes \<Rightarrow> bytes \<Rightarrow> bytes \<Rightarrow> bool"
  secpPrivate :: "bytes \<Rightarrow> bytes option"
  secpPublic :: "bytes \<Rightarrow> bytes"
  secpParse :: "bytes \<Rightarrow> bytes option"
  secpSign :: "bytes \<Rightarrow> bytes \<Rightarrow> nat \<times> nat"
  secpVerify :: "bytes \<Rightarrow> bytes \<Rightarrow> nat \<times> nat \<Rightarrow> bool"
  secpOrder :: nat
  derRead :: "bytes \<Rightarrow> (nat \<times> nat) option"
  derWrite :: "nat \<times> nat \<Rightarrow> bytes"

definition PublicKeyHexOf :: "KeyPair \<Rightarrow> string" where
  "PublicKeyHexOf kp = hexEncode (kpPublicKey kp)"

definition PrivateKeyHexOf :: "KeyPair \<Rightarrow> string" where
  "PrivateKeyHexOf kp = hexEncode (kpPrivateKey kp)"

definition unsupportedAlgorithm :: "SignatureAlgorithm \<Rightarrow> sdkError" where
  "unsupportedAlgorithm a = NewCryptoError (''unsupported algorithm: '' @ algorithmText a) None"

text \<open>\<^verbatim>\<open>ed25519.PrivateKey.Public\<close>: the second half of the 64-byte private key.\<close>

definition keyPairFromEd25519PrivateKey :: "bytes \<Rightarrow> sdkError + KeyPair" where
  "keyPairFromEd25519PrivateKey privateKey =
     (if length privateKey \<noteq> 64
      then Inl (NewCryptoError (''invalid Ed25519 private key size: expected 64, got ''
                  @ formatUint (length privateKey)) None)
      else Inr \<lparr>kpAlgorithm = Ed25519, kpPublicKey = drop 32 privateKey, kpPrivateKey = privateKey\<rparr>)"

definition keyPairFromSecp256k1PrivateKey :: "cryptoLib \<Rightarrow> bytes \<Rightarrow> sdkError + KeyPair" where
  "keyPairFromSecp256k1PrivateKey lib privateKey =
     (case secpPrivate lib privateKey of
        None \<Rightarrow> Inl (NewCryptoError ''invalid secp256k1 private key'' None)
      | Some priv \<Rightarrow>
          Inr \<lparr>kpAlgorithm = Secp256k1, kpPublicKey = secpPublic lib priv, kpPrivateKey = priv\<rparr>)"

definition KeyPairFromPrivateKey :: "cryptoLib \<Rightarrow> SignatureAlgorithm \<Rightarrow> string \<Rightarrow> sdkError + KeyPair" where
  "KeyPairFromPrivateKey lib algorithm privateKeyHex =
     (case hexDecode privateKeyHex of
        Inl e \<Rightarrow> Inl (NewCryptoError ''invalid private key hex'' (Some (Foreign ''hex'')))
      | Inr privateKey \<Rightarrow>
          (case algorithm of
             Ed25519 \<Rightarrow> keyPairFromEd25519PrivateKey privateKey
           | Secp256k1 \<Rightarrow> keyPairFromSecp256k1PrivateKey lib privateKey
           | OtherAlgorithm a \<Rightarrow> Inl (unsupportedAlgorithm algorithm)))"

text \<open>\<^verbatim>\<open>GenerateKeyPair\<close>, from what the library's generators give.\<close>

definition GenerateKeyPair ::
  "cryptoLib \<Rightarrow> (bytes \<times> bytes) option \<Rightarrow> bytes option \<Rightarrow> SignatureAlgorithm \<Rightarrow> sdkError + KeyPair" where
  "GenerateKeyPair lib edKey secpKey algorithm =
     (case algorithm of
        Ed25519 \<Rightarrow>
          (case edKey of
             None \<Rightarrow> Inl (NewCryptoError ''failed to generate Ed25519 key pair'' (Some (Foreign ''rand'')))
           | Some (pub, priv) \<Rightarrow> Inr \<lparr>kpAlgorithm = Ed25519, kpPublicKey = pub, kpPrivateKey = priv\<rparr>)
      | Secp256k1 \<Rightarrow>
          (case secpKey of
             None \<Rightarrow> Inl (NewCryptoError ''failed to generate secp256k1 key pair'' (Some (Foreign ''rand'')))
           | Some priv \<Rightarrow>
               Inr \<lparr>kpAlgorithm = Secp256k1, kpPublicKey = secpPublic lib priv, kpPrivateKey = priv\<rparr>)
      | OtherAlgorithm a \<Rightarrow> Inl (unsupportedAlgorithm algorithm))"

subsection \<open>Signing and verifying\<close>

definition signEd25519 :: "cryptoLib \<Rightarrow> bytes \<Rightarrow> bytes \<Rightarrow> sdkError + bytes" where
  "signEd25519 lib privateKey message =
     (if length privateKey \<noteq> 64 then Inl (NewCryptoError ''invalid Ed25519 private key size'' None)
      else Inr (ed25519Sign lib privateKey message))"

definition signSecp256k1 :: "cryptoLib \<Rightarrow> bytes \<Rightarrow> bytes \<Rightarrow> sdkError + bytes" where
  "signSecp256k1 lib privateKey message =
     (case secpPrivate lib privateKey of
        None \<Rightarrow> Inl (NewCryptoError ''invalid secp256k1 private key'' None)
      | Some priv \<Rightarrow> Inr (derWrite lib (secpSign lib priv (libKeccak256 lib message))))"

definition SignKey :: "cryptoLib \<Rightarrow> KeyPair \<Rightarrow> bytes \<Rightarrow> sdkError + bytes" where
  "SignKey lib kp message =
     (case kpAlgorithm kp of
        Ed25519 \<Rightarrow> signEd25519 lib (kpPrivateKey kp) message
      | Secp256k1 \<Rightarrow> signSecp256k1 lib (kpPrivateKey kp) message
      | OtherAlgorithm a \<Rightarrow> Inl (unsupportedAlgorithm (kpAlgorithm kp)))"

definition verifyEd25519 :: "cryptoLib \<Rightarrow> bytes \<Rightarrow> bytes \<Rightarrow> bytes \<Rightarrow> sdkError + bool" where
  "verifyEd25519 lib publicKey message signature =
     (if length publicKey \<noteq> 32 then Inl (NewCryptoError ''invalid Ed25519 public key size'' None)
      else Inr (ed25519Verify lib publicKey message signature))"

text \<open>A compact signature's scalars: below the order, not zero, and s at most half the order.\<close>

definition compactScalars :: "cryptoLib \<Rightarrow> bytes \<Rightarrow> (nat \<times> nat) option" where
  "compactScalars lib signature =
     (let r = beVal (take 32 signature); s = beVal (drop 32 signature) in
      if secpOrder lib \<le> r \<or> secpOrder lib \<le> s \<or> r = 0 \<or> s = 0 \<or> secpOrder lib div 2 < s then None
      else Some (r, s))"

definition verifySecp256k1 :: "cryptoLib \<Rightarrow> bytes \<Rightarrow> bytes \<Rightarrow> bytes \<Rightarrow> sdkError + bool" where
  "verifySecp256k1 lib publicKey message signature =
     (case secpParse lib publicKey of
        None \<Rightarrow> Inl (NewCryptoError ''invalid secp256k1 public key'' (Some (Foreign ''secp256k1'')))
      | Some pub \<Rightarrow>
          if length signature = 64 then
            (case compactScalars lib signature of
               None \<Rightarrow> Inr False
             | Some sig \<Rightarrow> Inr (secpVerify lib pub (libKeccak256 lib message) sig))
          else
            (case derRead lib signature of
               None \<Rightarrow> Inl (NewCryptoError ''invalid secp256k1 signature'' (Some (Foreign ''secp256k1'')))
             | Some sig \<Rightarrow>
                 if derWrite lib sig \<noteq> signature then Inr False
                 else Inr (secpVerify lib pub (libKeccak256 lib message) sig)))"

definition VerifyMessage :: "cryptoLib \<Rightarrow> SignatureAlgorithm \<Rightarrow> bytes \<Rightarrow> bytes \<Rightarrow> bytes \<Rightarrow> sdkError + bool" where
  "VerifyMessage lib algorithm publicKey message signature =
     (case algorithm of
        Ed25519 \<Rightarrow> verifyEd25519 lib publicKey message signature
      | Secp256k1 \<Rightarrow> verifySecp256k1 lib publicKey message signature
      | OtherAlgorithm a \<Rightarrow> Inl (unsupportedAlgorithm algorithm))"

subsection \<open>Identifiers\<close>

definition base58Alphabet :: string where
  "base58Alphabet = ''123456789ABCDEFGHJKLMNPQRSTUVWXYZabcdefghijkmnopqrstuvwxyz''"

text \<open>The digits of a number, least first, as the division loop finds them.\<close>

fun base58Digits :: "nat \<Rightarrow> string" where
  "base58Digits n = (if n = 0 then [] else base58Alphabet ! (n mod 58) # base58Digits (n div 58))"

declare base58Digits.simps [simp del]

definition base58btcEncode :: "bytes \<Rightarrow> string" where
  "base58btcEncode input =
     (let zeros = length (takeWhile (\<lambda>b. b = 0) input)
      in rev (base58Digits (beVal input) @ replicate zeros (base58Alphabet ! 0)))"

definition didKeyMaterial :: "cryptoLib \<Rightarrow> KeyPair \<Rightarrow> bytes \<times> bytes" where
  "didKeyMaterial lib kp =
     (if kpAlgorithm kp = Secp256k1
      then ([0xE7, 0x01],
            if length (kpPublicKey kp) \<noteq> 33
            then (case secpParse lib (kpPublicKey kp) of Some p \<Rightarrow> p | None \<Rightarrow> kpPublicKey kp)
            else kpPublicKey kp)
      else ([0xED, 0x01], kpPublicKey kp))"

definition GenerateDID :: "cryptoLib \<Rightarrow> KeyPair \<Rightarrow> string" where
  "GenerateDID lib kp =
     (case didKeyMaterial lib kp of (prefix, pub) \<Rightarrow>
        ''did:willow:z'' @ base58btcEncode (sha3Sum256 lib (prefix @ pub)))"

record PublicKey =
  pkID :: string
  pkType :: string
  pkPublicKeyHex :: string

record DidDocument =
  ddID :: string
  ddPublicKeys :: "PublicKey list"
  ddCreated :: int
  ddUpdated :: int

record Identity =
  idKeyPair :: KeyPair
  idDidDocument :: DidDocument

definition CreateDidDocument :: "cryptoLib \<Rightarrow> int \<Rightarrow> KeyPair \<Rightarrow> DidDocument" where
  "CreateDidDocument lib now kp =
     (let did = GenerateDID lib kp in
      \<lparr>ddID = did,
       ddPublicKeys = [\<lparr>pkID = did @ ''#key-1'', pkType = KeyType (kpAlgorithm kp),
                        pkPublicKeyHex = PublicKeyHexOf kp\<rparr>],
       ddCreated = now, ddUpdated = now\<rparr>)"

definition NewIdentity ::
  "cryptoLib \<Rightarrow> (bytes \<times> bytes) option \<Rightarrow> bytes option \<Rightarrow> int \<Rightarrow> SignatureAlgorithm \<Rightarrow> sdkError + Identity" where
  "NewIdentity lib edKey secpKey now algorithm =
     bindR (GenerateKeyPair lib edKey secpKey algorithm) (\<lambda>kp.
       Inr \<lparr>idKeyPair = kp, idDidDocument = CreateDidDocument lib now kp\<rparr>)"

definition IdentityFromPrivateKey ::
  "cryptoLib \<Rightarrow> int \<Rightarrow> SignatureAlgorithm \<Rightarrow> string \<Rightarrow> sdkError + Identity" where
  "IdentityFromPrivateKey lib now algorithm privateKeyHex =
     bindR (KeyPairFromPrivateKey lib algorithm privateKeyHex) (\<lambda>kp.
       Inr \<lparr>idKeyPair = kp, idDidDocument = CreateDidDocument lib now kp\<rparr>)"

definition DID :: "Identity \<Rightarrow> string" where
  "DID i = ddID (idDidDocument i)"

definition PublicKeyID :: "Identity \<Rightarrow> string" where
  "PublicKeyID i = (case ddPublicKeys (idDidDocument i) of [] \<Rightarrow> [] | k # ks \<Rightarrow> pkID k)"

definition SignHex :: "cryptoLib \<Rightarrow> Identity \<Rightarrow> bytes \<Rightarrow> sdkError + string" where
  "SignHex lib i message = bindR (SignKey lib (idKeyPair i) message) (\<lambda>sig. Inr (hexEncode sig))"

subsection \<open>Signed requests\<close>

definition LegacyRequestMessage :: "string \<Rightarrow> string \<Rightarrow> string \<Rightarrow> string" where
  "LegacyRequestMessage method path timestamp = method @ '':'' @ dropQuery path @ '':'' @ timestamp"

definition requestLines ::
  "string \<Rightarrow> string \<Rightarrow> string \<Rightarrow> string \<Rightarrow> string \<Rightarrow> string \<Rightarrow> bytes \<Rightarrow> string list" where
  "requestLines did publicKeyID method pathAndQuery timestamp nonce body =
     [''willow-request-v2'', did, publicKeyID, method, pathAndQuery, timestamp, nonce,
      hexEncode (sha256 body)]"

definition SignedRequestMessage ::
  "string \<Rightarrow> string \<Rightarrow> string \<Rightarrow> string \<Rightarrow> string \<Rightarrow> string \<Rightarrow> bytes \<Rightarrow> string" where
  "SignedRequestMessage did publicKeyID method pathAndQuery timestamp nonce body =
     joinLines (requestLines did publicKeyID method pathAndQuery timestamp nonce body)"

definition signRequestMessage :: "cryptoLib \<Rightarrow> Identity \<Rightarrow> string \<Rightarrow> sdkError + string" where
  "signRequestMessage lib i message =
     bindR (SignKey lib (idKeyPair i) (stringBytes message)) (\<lambda>sig.
       Inr (if kpAlgorithm (idKeyPair i) = Secp256k1 then ''0x'' @ hexEncode sig else hexEncode sig))"

definition SignRequest ::
  "cryptoLib \<Rightarrow> Identity \<Rightarrow> int \<Rightarrow> string \<Rightarrow> string \<Rightarrow> sdkError + (string \<times> string) list" where
  "SignRequest lib i now method path =
     (let timestamp = formatInt now in
      bindR (signRequestMessage lib i (LegacyRequestMessage method path timestamp)) (\<lambda>signature.
        Inr [(''X-DID'', DID i), (''X-Public-Key-ID'', PublicKeyID i), (''X-Signature'', signature),
             (''X-Timestamp'', timestamp)]))"

definition NewRequestNonce :: "bytes option \<Rightarrow> sdkError + string" where
  "NewRequestNonce random =
     (case random of
        None \<Rightarrow> Inl (NewCryptoError ''failed to generate request nonce'' (Some (Foreign ''rand'')))
      | Some b \<Rightarrow> Inr (hexEncode b))"

definition signRequestWithNonceAt ::
  "cryptoLib \<Rightarrow> Identity \<Rightarrow> string \<Rightarrow> string \<Rightarrow> bytes \<Rightarrow> string \<Rightarrow> string \<Rightarrow> sdkError + (string \<times> string) list" where
  "signRequestWithNonceAt lib i method pathAndQuery body timestamp nonce =
     bindR (signRequestMessage lib i
              (SignedRequestMessage (DID i) (PublicKeyID i) method pathAndQuery timestamp nonce body)) (\<lambda>signature.
       Inr [(''X-DID'', DID i), (''X-Public-Key-ID'', PublicKeyID i), (''X-Signature'', signature),
            (''X-Timestamp'', timestamp), (''X-Nonce'', nonce)])"

definition SignRequestWithNonce ::
  "cryptoLib \<Rightarrow> bytes option \<Rightarrow> int \<Rightarrow> Identity \<Rightarrow> string \<Rightarrow> string \<Rightarrow> bytes
    \<Rightarrow> sdkError + (string \<times> string) list" where
  "SignRequestWithNonce lib random now i method pathAndQuery body =
     bindR (NewRequestNonce random) (\<lambda>nonce.
       signRequestWithNonceAt lib i method pathAndQuery body (formatInt now) nonce)"

text \<open>
  \<^verbatim>\<open>signAPIRequest\<close>: the headers it sets.  \<open>random\<close> and \<open>now\<close> are what the generator and the clock
  give this attempt.
\<close>

definition signAPIRequest ::
  "cryptoLib \<Rightarrow> bytes option \<Rightarrow> int \<Rightarrow> Identity option \<Rightarrow> string \<Rightarrow> string \<Rightarrow> string \<Rightarrow> bytes
    \<Rightarrow> sdkError + (string \<times> string) list" where
  "signAPIRequest lib random now ident basePath method requestURI payload =
     (case ident of
        None \<Rightarrow> Inr []
      | Some i \<Rightarrow>
          let target = apiTarget basePath requestURI in
          if carriesReadRights method target
          then SignRequestWithNonce lib random now i method target payload
          else SignRequest lib i now method target)"

definition FormatTransferMessage :: "string \<Rightarrow> string \<Rightarrow> u64 \<Rightarrow> string \<Rightarrow> u64 \<Rightarrow> string" where
  "FormatTransferMessage fromDid toDid amount memo nonce =
     joinLines [''Transfer'', ''From: '' @ fromDid, ''To: '' @ toDid, ''Amount: '' @ formatUint (unat amount),
                ''Memo: '' @ memo, ''Nonce: '' @ formatUint (unat nonce)]"

subsection \<open>The account of the development network\<close>

record DevnetTestAccount =
  dtDID :: string
  dtPrivateKey :: string
  dtPublicKey :: string
  dtPublicKeyID :: string

definition DEVNET_TEST_ACCOUNT :: DevnetTestAccount where
  "DEVNET_TEST_ACCOUNT =
     \<lparr>dtDID = ''did:willow:devnet-test'',
      dtPrivateKey = ''b5ecc03536f5e039e3c5bc46ad178d7faf80cee5f063016a4f4084e163409b3c'',
      dtPublicKey = ''c153874d3d284a11e3cb12b524e1a9cc32fef966d56b903c79688a95d5193c8f'',
      dtPublicKeyID = ''did:willow:devnet-test#key-1''\<rparr>"

definition ToIdentity :: "cryptoLib \<Rightarrow> int \<Rightarrow> DevnetTestAccount \<Rightarrow> sdkError + Identity" where
  "ToIdentity lib now d =
     bindR (KeyPairFromPrivateKey lib Ed25519 (dtPrivateKey d)) (\<lambda>kp.
       Inr \<lparr>idKeyPair = kp,
            idDidDocument =
              \<lparr>ddID = dtDID d,
               ddPublicKeys = [\<lparr>pkID = dtPublicKeyID d, pkType = KeyType Ed25519,
                                pkPublicKeyHex = dtPublicKey d\<rparr>],
               ddCreated = now, ddUpdated = now\<rparr>\<rparr>)"

subsection \<open>Lemmas: base58\<close>

fun digit58 :: "char \<Rightarrow> string \<Rightarrow> nat" where
  "digit58 c [] = 0"
| "digit58 c (a # as) = (if c = a then 0 else Suc (digit58 c as))"

definition value58 :: "string \<Rightarrow> nat" where
  "value58 s = foldr (\<lambda>c n. digit58 c base58Alphabet + 58 * n) s 0"

lemma digit58_nth: "distinct as \<Longrightarrow> i < length as \<Longrightarrow> digit58 (as ! i) as = i"
proof (induction as arbitrary: i)
  case (Cons a as)
  then show ?case by (cases i) (auto simp: nth_eq_iff_index_eq)
qed simp

lemma alphabet_facts: "distinct base58Alphabet" "length base58Alphabet = 58"
  by code_simp+

lemma alphabet_digit [simp]: "i < 58 \<Longrightarrow> digit58 (base58Alphabet ! i) base58Alphabet = i"
  using digit58_nth alphabet_facts by simp

lemma value58_digits: "value58 (base58Digits n) = n"
proof (induction n rule: base58Digits.induct)
  case (1 n)
  show ?case
  proof (cases "n = 0")
    case True
    then show ?thesis by (simp add: base58Digits.simps value58_def)
  next
    case False
    then have "value58 (base58Digits n) = n mod 58 + 58 * value58 (base58Digits (n div 58))"
      by (subst base58Digits.simps) (simp add: value58_def)
    then show ?thesis using 1 False by simp
  qed
qed

lemma last_digit_nonzero: "0 < n \<Longrightarrow> base58Digits n \<noteq> [] \<and> last (base58Digits n) \<noteq> base58Alphabet ! 0"
proof (induction n rule: base58Digits.induct)
  case (1 n)
  show ?case
  proof (cases "n div 58 = 0")
    case True
    then have "n mod 58 = n" "n < 58" by auto
    moreover have "base58Alphabet ! n \<noteq> base58Alphabet ! 0"
      using alphabet_facts \<open>n < 58\<close> "1.prems" by (simp add: nth_eq_iff_index_eq)
    ultimately show ?thesis
      using True "1.prems" by (subst (1 2) base58Digits.simps) (simp add: base58Digits.simps [of 0])
  next
    case False
    then have IH: "base58Digits (n div 58) \<noteq> []" "last (base58Digits (n div 58)) \<noteq> base58Alphabet ! 0"
      using "1.IH" "1.prems" by simp_all
    have "base58Digits n = base58Alphabet ! (n mod 58) # base58Digits (n div 58)"
      using "1.prems" by (subst base58Digits.simps) simp
    then show ?thesis using IH by simp
  qed
qed

lemma leading_ones:
  "takeWhile (\<lambda>c. c = base58Alphabet ! 0) (replicate z (base58Alphabet ! 0) @ rev (base58Digits n))
     = replicate z (base58Alphabet ! 0)"
proof (cases "n = 0")
  case True
  then show ?thesis by (simp add: base58Digits.simps takeWhile_eq_all_conv)
next
  case False
  then obtain c s where "rev (base58Digits n) = c # s" "c \<noteq> base58Alphabet ! 0"
    using last_digit_nonzero [of n] by (cases "base58Digits n" rule: rev_cases) auto
  then show ?thesis by (simp add: takeWhile_append)
qed

lemma encode58_parts:
  "base58btcEncode x = base58btcEncode y \<Longrightarrow>
     length (takeWhile (\<lambda>b. b = 0) x) = length (takeWhile (\<lambda>b. b = 0) y) \<and> beVal x = beVal y"
proof -
  let ?z = "\<lambda>x. length (takeWhile (\<lambda>b. b = (0 :: byte)) x)"
  assume "base58btcEncode x = base58btcEncode y"
  then have eq: "replicate (?z x) (base58Alphabet ! 0) @ rev (base58Digits (beVal x))
      = replicate (?z y) (base58Alphabet ! 0) @ rev (base58Digits (beVal y))"
    by (simp add: base58btcEncode_def Let_def)
  then have z: "?z x = ?z y"
    using leading_ones [of "?z x" "beVal x"] leading_ones [of "?z y" "beVal y"] by (metis length_replicate)
  then have "base58Digits (beVal x) = base58Digits (beVal y)" using eq by simp
  then have "beVal x = beVal y" by (metis value58_digits)
  then show ?thesis using z by simp
qed

lemma beVal_zeros: "beVal (replicate z 0 @ r) = beVal r"
  by (induction z) (simp_all add: beVal_Cons)

lemma stripped_length:
  assumes "b \<noteq> (0 :: byte)" and "beVal (b # bs) = beVal cs"
  shows "length (b # bs) \<le> length cs"
proof -
  have "0 < unat b" using assms(1) by (simp add: unat_gt_0)
  then have "1 * 256 ^ length bs \<le> unat b * 256 ^ length bs" by (intro mult_le_mono1) simp
  then have "256 ^ length bs \<le> beVal (b # bs)" by (simp only: beVal_Cons mult_1 trans_le_add1)
  also have "\<dots> < 256 ^ length cs" using beVal_bound [of cs] assms(2) by simp
  finally have "(256 :: nat) ^ length bs < 256 ^ length cs" .
  then have "length bs < length cs" by (rule power_less_imp_less_exp [rotated]) simp
  then show ?thesis by simp
qed

lemma stripped_inj:
  assumes "beVal xs = beVal ys" and "xs = [] \<or> hd xs \<noteq> 0" and "ys = [] \<or> hd ys \<noteq> (0 :: byte)"
  shows "xs = ys"
proof -
  have "length xs \<le> length ys" using assms(1,2) stripped_length [of "hd xs" "tl xs" ys] by (cases xs) auto
  moreover have "length ys \<le> length xs" using assms(1,3) stripped_length [of "hd ys" "tl ys" xs] by (cases ys) auto
  ultimately show ?thesis using assms(1) beBytes_beVal by (metis le_antisym)
qed

lemma zeros_split:
  "x = replicate (length (takeWhile (\<lambda>b. b = 0) x)) 0 @ dropWhile (\<lambda>b. b = 0) x" for x :: bytes
  by (induction x) auto

lemma encode58_inj: "base58btcEncode x = base58btcEncode y \<longleftrightarrow> x = y"
proof
  assume eq: "base58btcEncode x = base58btcEncode y"
  let ?r = "\<lambda>x. dropWhile (\<lambda>b. b = (0 :: byte)) x"
  have head: "?r x = [] \<or> hd (?r x) \<noteq> 0" for x
    by (induction x) auto
  have "beVal (?r x) = beVal (?r y)"
    using encode58_parts [OF eq] zeros_split [of x] zeros_split [of y] beVal_zeros by metis
  then have "?r x = ?r y" using head stripped_inj by blast
  then show "x = y" using encode58_parts [OF eq] zeros_split [of x] zeros_split [of y] by metis
qed simp

subsection \<open>Lemmas: request messages\<close>

definition plainRequest :: "string list \<Rightarrow> bool" where
  "plainRequest fs \<longleftrightarrow> list_all plain fs"

lemma requestLines_plain:
  "plainRequest [did, key, method, target, ts, nonce] \<Longrightarrow>
     list_all plain (requestLines did key method target ts nonce body)"
  by (simp add: plainRequest_def requestLines_def) (simp add: plain_def newline_def)

lemma request_not_transaction:
  assumes "signedText t = Inr m" and "plainRequest [did, key, method, target, ts, nonce]"
  shows "m \<noteq> SignedRequestMessage did key method target ts nonce body"
proof (cases "isRevoke t")
  case True
  then obtain s r d n where "revokeSubgroveKeyMessage s r d n = Inr m"
    using assms(1) by (cases t) auto
  then have "take 3 m = ''Rev''" by (auto simp: revokeSubgroveKeyMessage_def bindR_eq_Inr)
  then show ?thesis by (auto simp: SignedRequestMessage_def requestLines_def)
next
  case False
  have "hd (txLines t) \<noteq> ''willow-request-v2''"
    using txLines_kind [OF False] by (cases t) simp_all
  then have "txLines t \<noteq> requestLines did key method target ts nonce body"
    by (auto simp: requestLines_def)
  then show ?thesis
    using same_lines txLines_nonempty [OF False] signedText_lines [OF assms(1) False]
      requestLines_plain [OF assms(2)]
    by (metis SignedRequestMessage_def list.distinct(1) requestLines_def)
qed

text \<open>
  The base58 text of an identifier determines the bytes it encodes, leading zeros
  included.
\<close>

lemma base58_injective: "base58btcEncode x = base58btcEncode y \<longleftrightarrow> x = y"
  by (rule encode58_inj)

text \<open>
  C35: the message a nonce-signed request signs binds the whole request, its body by its
  hash: two requests whose fields hold no line break have the same message exactly when
  they agree in identity, key, method, target, time, nonce and the hash of the body, and
  the message is that of no signed transaction.
\<close>

theorem request_message_binds:
  assumes "plainRequest [did, key, method, target, ts, nonce]"
    and "plainRequest [did', key', method', target', ts', nonce']"
  shows "(SignedRequestMessage did key method target ts nonce body
        = SignedRequestMessage did' key' method' target' ts' nonce' body'
      \<longleftrightarrow> (did, key, method, target, ts, nonce, sha256 body)
        = (did', key', method', target', ts', nonce', sha256 body'))
    \<and> signedText t \<noteq> Inr (SignedRequestMessage did key method target ts nonce body)"
proof -
  have "requestLines did key method target ts nonce body = requestLines did' key' method' target' ts' nonce' body'"
    if "SignedRequestMessage did key method target ts nonce body
      = SignedRequestMessage did' key' method' target' ts' nonce' body'"
    using that requestLines_plain [OF assms(1), of body] requestLines_plain [OF assms(2), of body']
    by (intro same_lines) (auto simp: SignedRequestMessage_def, auto simp: requestLines_def)
  then show ?thesis
    using request_not_transaction [OF _ assms(1), of t] by (auto simp: requestLines_def SignedRequestMessage_def hexEncode_inj)
qed

theorem request_message_binds_witness:
  "SignedRequestMessage ''d'' ''k'' ''GET'' ''/data/s/a'' ''1'' ''n'' []
    \<noteq> SignedRequestMessage ''d'' ''k'' ''GET'' ''/data/s/b'' ''1'' ''n'' []"
proof -
  have "plainRequest [''d'', ''k'', ''GET'', ''/data/s/a'', ''1'', ''n'']"
    "plainRequest [''d'', ''k'', ''GET'', ''/data/s/b'', ''1'', ''n'']"
    by code_simp+
  from request_message_binds [OF this, of "[]" "[]" undefined] show ?thesis by simp
qed

text \<open>
  The development network's account is 32 bytes of private key, which the SDK refuses: no
  identity is made of it.
\<close>

lemma devnet_identity_refused: "ToIdentity lib now DEVNET_TEST_ACCOUNT
    = Inl (NewCryptoError ''invalid Ed25519 private key size: expected 64, got 32'' None)"
proof -
  have "(case hexDecode (dtPrivateKey DEVNET_TEST_ACCOUNT) of Inl e \<Rightarrow> False | Inr b \<Rightarrow> length b = 32)"
    by code_simp
  moreover have "formatUint 32 = ''32''" by code_simp
  ultimately show ?thesis
    by (auto simp: ToIdentity_def KeyPairFromPrivateKey_def keyPairFromEd25519PrivateKey_def split: sum.splits)
qed

end
