(* ===== verification/Routing.thy ===== *)
theory Routing
  imports Client
begin

text \<open>
  Discovery of indexers and source-routed queries (\<^verbatim>\<open>indexers.go\<close>, \<^verbatim>\<open>routeQuery\<close> of
  \<^verbatim>\<open>indexing.go\<close>).  The discovery client keeps a cache, a state machine under the calls of
  any number of goroutines; the theory shows that an indexer evicted from it is not picked
  again before the list is fetched anew, that the candidates of a subgrove are the active
  indexers serving it, best first, and which backend a query is served by, for any answers.
\<close>

subsection \<open>Indexers\<close>

text \<open>
  The score is a finite \<^verbatim>\<open>float64\<close>, since JSON has no other number; it is counted here in
  units of \<open>2 ^ -1074\<close>, of which every finite \<^verbatim>\<open>float64\<close> is a whole number.
\<close>

record IndexerInfo =
  IndexerDID :: string
  Subgroves :: "string list"
  StakeAmount :: Uint128
  Endpoint :: string
  QueryEndpoint :: string
  Status :: string
  PerformanceScore :: int
  LastUpdate :: u64

definition EffectiveQueryEndpoint :: "IndexerInfo \<Rightarrow> string" where
  "EffectiveQueryEndpoint i = (if QueryEndpoint i \<noteq> [] then QueryEndpoint i else Endpoint i)"

definition DefaultCacheTTL :: int where
  "DefaultCacheTTL = 30 * 10 ^ 9"

record Indexers =
  ixIndexerURL :: string
  ixTTL :: int
  ixCache :: "IndexerInfo list"
  ixTaken :: bool
  ixFilled :: int

definition NewIndexers :: "string \<Rightarrow> Indexers" where
  "NewIndexers indexerURL =
     \<lparr>ixIndexerURL = indexerURL, ixTTL = DefaultCacheTTL, ixCache = [], ixTaken = False, ixFilled = 0\<rparr>"

definition HasExplicitOverride :: "Indexers \<Rightarrow> bool" where
  "HasExplicitOverride d \<longleftrightarrow> ixIndexerURL d \<noteq> []"

definition Invalidate :: "Indexers \<Rightarrow> Indexers" where
  "Invalidate d = d\<lparr>ixTaken := False, ixCache := []\<rparr>"

definition Evict :: "string \<Rightarrow> Indexers \<Rightarrow> Indexers" where
  "Evict did d = d\<lparr>ixCache := filter (\<lambda>i. IndexerDID i \<noteq> did) (ixCache d)\<rparr>"

definition syntheticEntry :: "string \<Rightarrow> IndexerInfo" where
  "syntheticEntry u =
     \<lparr>IndexerDID = ''explicit-override'', Subgroves = [], StakeAmount = \<lparr>Hi = 0, Lo = 0\<rparr>, Endpoint = u,
      QueryEndpoint = u, Status = ''active'', PerformanceScore = 100 * 2 ^ 1074, LastUpdate = 0\<rparr>"

text \<open>
  What fetching \<^verbatim>\<open>/indexers\<close> meets, and the two halves of \<^verbatim>\<open>List\<close>, which holds the lock in each
  but not in between.
\<close>

datatype fetchAnswer =
    RequestUnbuilt sdkError
  | Unfetched sdkError
  | Fetched int "sdkError + IndexerInfo list"

definition cacheHit :: "Indexers \<Rightarrow> int \<Rightarrow> bool" where
  "cacheHit d now \<longleftrightarrow> ixTaken d \<and> now - ixFilled d < ixTTL d"

fun fetchList :: "fetchAnswer \<Rightarrow> sdkError + IndexerInfo list" where
  "fetchList (RequestUnbuilt e) = Inl (Wrapped ''build /indexers request'' e)"
| "fetchList (Unfetched e) = Inl (Wrapped ''fetch /indexers'' e)"
| "fetchList (Fetched status r) =
     (if status \<noteq> 200 then Inl (Foreign (''/indexers returned status '' @ formatInt status))
      else case r of
        Inl e \<Rightarrow> Inl (Wrapped ''decode /indexers response'' e)
      | Inr infos \<Rightarrow> Inr infos)"

definition storeList :: "IndexerInfo list \<Rightarrow> int \<Rightarrow> Indexers \<Rightarrow> Indexers" where
  "storeList infos now d = d\<lparr>ixCache := infos, ixTaken := True, ixFilled := now\<rparr>"

text \<open>\<open>others\<close> is what other goroutines do to the cache while the list is fetched.\<close>

record listWorld =
  lwStart :: int
  lwFetch :: fetchAnswer
  lwOthers :: "Indexers \<Rightarrow> Indexers"
  lwEnd :: int

definition ListIndexers :: "listWorld \<Rightarrow> Indexers \<Rightarrow> Indexers \<times> (sdkError + IndexerInfo list)" where
  "ListIndexers w d =
     (if ixIndexerURL d \<noteq> [] then (d, Inr [syntheticEntry (ixIndexerURL d)])
      else if cacheHit d (lwStart w) then (d, Inr (ixCache d))
      else case fetchList (lwFetch w) of
        Inl e \<Rightarrow> (lwOthers w d, Inl e)
      | Inr infos \<Rightarrow> (storeList infos (lwEnd w) (lwOthers w d), Inr infos))"

definition serves :: "string \<Rightarrow> IndexerInfo \<Rightarrow> bool" where
  "serves subgroveID i \<longleftrightarrow> Status i = ''active'' \<and> subgroveID \<in> set (Subgroves i)"

text \<open>\<^verbatim>\<open>sort.SliceStable\<close> by score, best first.\<close>

primrec insertByScore :: "IndexerInfo \<Rightarrow> IndexerInfo list \<Rightarrow> IndexerInfo list" where
  "insertByScore i [] = [i]"
| "insertByScore i (j # js) =
     (if PerformanceScore j > PerformanceScore i then j # insertByScore i js else i # j # js)"

definition sortByScore :: "IndexerInfo list \<Rightarrow> IndexerInfo list" where
  "sortByScore is = foldr insertByScore is []"

definition ForSubgrove ::
  "listWorld \<Rightarrow> string \<Rightarrow> Indexers \<Rightarrow> Indexers \<times> (sdkError + IndexerInfo list)" where
  "ForSubgrove w subgroveID d =
     (if ixIndexerURL d \<noteq> [] then (d, Inr [syntheticEntry (ixIndexerURL d)])
      else case ListIndexers w d of
        (d', Inl e) \<Rightarrow> (d', Inl e)
      | (d', Inr infos) \<Rightarrow> (d', Inr (sortByScore (filter (serves subgroveID) infos))))"

subsection \<open>Routing a query\<close>

datatype QuerySource = QuerySourceAuto | QuerySourceValidator | QuerySourceIndexer

datatype ServedBy = ServedByValidator | ServedByIndexer

fun ServedByText :: "ServedBy \<Rightarrow> string" where
  "ServedByText ServedByIndexer = ''indexer''"
| "ServedByText ServedByValidator = ''validator''"

record 't RoutedQueryResult =
  rrResult :: 't
  rrSource :: ServedBy
  rrIndexerDID :: string
  rrFallback :: bool

definition maxIndexerCandidates :: nat where
  "maxIndexerCandidates = 3"

text \<open>What a backend answers a query with: no request, no answer, or a status and a body.\<close>

datatype queryAnswer =
    QueryUnbuilt sdkError
  | QueryUnanswered sdkError
  | QueryAnswered int source

record probe =
  prSuccess :: "bool option"

definition readProbe :: "json \<Rightarrow> probe option" where
  "readProbe v =
     decodeStruct [(''success'', boolPtrField (\<lambda>b p. p\<lparr>prSuccess := b\<rparr>))] \<lparr>prSuccess = None\<rparr> v"

text \<open>
  \<^verbatim>\<open>unwrapResponse\<close>.  \<open>reader\<close> decodes the answer's type.  The envelope's error field is read
  into the \<^verbatim>\<open>apiEnvelope\<close>; a body that is not JSON at all fails in the first decoding.
\<close>

definition unwrapResponse ::
  "(string \<Rightarrow> string) \<Rightarrow> (json \<Rightarrow> sdkError + 't) \<Rightarrow> string \<Rightarrow> sdkError + 't" where
  "unwrapResponse lower reader raw =
     (case CheckJSONWithProof raw of
        Inl e \<Rightarrow> Inl (jsonErr e)
      | Inr _ \<Rightarrow>
          (case unmarshalJson raw of
             None \<Rightarrow> Inl (Wrapped ''failed to decode response'' (Foreign ''invalid JSON''))
           | Some v \<Rightarrow>
               if (case readProbe v of None \<Rightarrow> True | Some p \<Rightarrow> prSuccess p = None)
               then (case reader v of
                       Inl e \<Rightarrow> Inl (Wrapped ''failed to decode response'' e)
                     | Inr t \<Rightarrow> Inr t)
               else
                 (case decodeStruct envelopeFields emptyEnvelope v of
                    None \<Rightarrow> Inl (Wrapped ''failed to decode response'' (Foreign ''cannot unmarshal''))
                  | Some env \<Rightarrow>
                      (case decodeEnvelope lower
                              (if envData env = None \<or> envData env = Some JNull then None else Some reader) env of
                         Inl e \<Rightarrow> Inl e
                       | Inr None \<Rightarrow> Inl (NewAPIError ''the answer's envelope carries no data'')
                       | Inr (Some t) \<Rightarrow> Inr t))))"

record 't queryWorld =
  qwSpare :: "nat \<Rightarrow> nat"
  qwLower :: "string \<Rightarrow> string"
  qwReader :: "json \<Rightarrow> sdkError + 't"
  qwValidator :: queryAnswer
  qwIndexer :: "IndexerInfo \<Rightarrow> queryAnswer"

datatype routeError =
    ValidatorHasNoData string int
  | NoIndexersReachable string "(string \<times> sdkError) list"
  | RouteError sdkError

definition callValidator :: "'t queryWorld \<Rightarrow> string \<Rightarrow> routeError + 't" where
  "callValidator q subgroveID =
     (case qwValidator q of
        QueryUnbuilt e \<Rightarrow> Inl (RouteError e)
      | QueryUnanswered e \<Rightarrow> Inl (RouteError (Wrapped ''validator request'' e))
      | QueryAnswered status body \<Rightarrow>
          if status = 404 \<or> status = 403 then Inl (ValidatorHasNoData subgroveID status)
          else if status \<noteq> 200 then Inl (RouteError (Foreign (''validator returned '' @ formatInt status)))
          else (case ReadAll (qwSpare q) body Large of
                  Inl e \<Rightarrow> Inl (RouteError (Wrapped ''read validator response'' (ioErr e)))
                | Inr raw \<Rightarrow>
                    (case unwrapResponse (qwLower q) (qwReader q) raw of
                       Inl e \<Rightarrow> Inl (RouteError e)
                     | Inr t \<Rightarrow> Inr t)))"

definition callIndexer :: "'t queryWorld \<Rightarrow> IndexerInfo \<Rightarrow> Indexers \<Rightarrow> Indexers \<times> (sdkError + 't)" where
  "callIndexer q info d =
     (case qwIndexer q info of
        QueryUnbuilt e \<Rightarrow> (d, Inl (Wrapped ''build indexer request'' e))
      | QueryUnanswered e \<Rightarrow> (d, Inl (Wrapped ''indexer request'' e))
      | QueryAnswered status body \<Rightarrow>
          if 500 \<le> status
          then (Evict (IndexerDID info) d, Inl (Foreign (''indexer returned '' @ formatInt status)))
          else if status \<noteq> 200 then (d, Inl (Foreign (''indexer returned '' @ formatInt status)))
          else (case ReadAll (qwSpare q) body Large of
                  Inl e \<Rightarrow> (d, Inl (Wrapped ''read indexer response'' (ioErr e)))
                | Inr raw \<Rightarrow> (d, unwrapResponse (qwLower q) (qwReader q) raw)))"

text \<open>The candidates tried in turn: the result of the first that answers, else what each failed with.\<close>

primrec tryIndexers ::
  "'t queryWorld \<Rightarrow> IndexerInfo list \<Rightarrow> Indexers
    \<Rightarrow> Indexers \<times> ((string \<times> sdkError) list + IndexerInfo \<times> 't)" where
  "tryIndexers q [] d = (d, Inl [])"
| "tryIndexers q (info # infos) d =
     (case callIndexer q info d of
        (d', Inr t) \<Rightarrow> (d', Inr (info, t))
      | (d', Inl e) \<Rightarrow>
          (case tryIndexers q infos d' of
             (d'', Inl es) \<Rightarrow> (d'', Inl ((IndexerDID info, e) # es))
           | (d'', Inr r) \<Rightarrow> (d'', Inr r)))"

definition servedByIndexer :: "IndexerInfo \<times> 't \<Rightarrow> 't RoutedQueryResult" where
  "servedByIndexer r =
     \<lparr>rrResult = snd r, rrSource = ServedByIndexer, rrIndexerDID = IndexerDID (fst r), rrFallback = False\<rparr>"

definition servedByValidator :: "bool \<Rightarrow> 't \<Rightarrow> 't RoutedQueryResult" where
  "servedByValidator fallback t =
     \<lparr>rrResult = t, rrSource = ServedByValidator, rrIndexerDID = [], rrFallback = fallback\<rparr>"

fun routeQuery ::
  "listWorld \<Rightarrow> 't queryWorld \<Rightarrow> string \<Rightarrow> QuerySource \<Rightarrow> Indexers
    \<Rightarrow> Indexers \<times> (routeError + 't RoutedQueryResult)" where
  "routeQuery w q subgroveID QuerySourceValidator d =
     (d, bindR (callValidator q subgroveID) (\<lambda>t. Inr (servedByValidator False t)))"
| "routeQuery w q subgroveID QuerySourceIndexer d =
     (case ForSubgrove w subgroveID d of
        (d', Inl e) \<Rightarrow> (d', Inl (RouteError e))
      | (d', Inr found) \<Rightarrow>
          let candidates = take maxIndexerCandidates found in
          if candidates = [] then (d', Inl (NoIndexersReachable subgroveID []))
          else (case tryIndexers q candidates d' of
                  (d'', Inr r) \<Rightarrow> (d'', Inr (servedByIndexer r))
                | (d'', Inl es) \<Rightarrow> (d'', Inl (NoIndexersReachable subgroveID es))))"
| "routeQuery w q subgroveID QuerySourceAuto d =
     (case ForSubgrove w subgroveID d of
        (d', r) \<Rightarrow>
          let candidates = take maxIndexerCandidates (case r of Inl e \<Rightarrow> [] | Inr found \<Rightarrow> found) in
          (case tryIndexers q candidates d' of
             (d'', Inr r) \<Rightarrow> (d'', Inr (servedByIndexer r))
           | (d'', Inl es) \<Rightarrow>
               (d'', case find isTooLarge (map snd es) of
                       Some e \<Rightarrow> Inl (RouteError e)
                     | None \<Rightarrow>
                         bindR (callValidator q subgroveID) (\<lambda>t.
                           Inr (servedByValidator (candidates \<noteq> []) t)))))"

subsection \<open>Lemmas: the candidates of a subgrove\<close>

lemma insertByScore_set [simp]: "set (insertByScore i js) = insert i (set js)"
  by (induction js) auto

lemma insertByScore_sorted:
  "sorted_wrt (\<lambda>a b. PerformanceScore b \<le> PerformanceScore a) js \<Longrightarrow>
   sorted_wrt (\<lambda>a b. PerformanceScore b \<le> PerformanceScore a) (insertByScore i js)"
  by (induction js) (auto intro: order_trans)

lemma insertByScore_filter:
  "sorted_wrt (\<lambda>a b. PerformanceScore b \<le> PerformanceScore a) js \<Longrightarrow>
   filter (\<lambda>j. PerformanceScore j = s) (insertByScore i js) = filter (\<lambda>j. PerformanceScore j = s) (i # js)"
  by (induction js) (auto simp: filter_empty_conv)

lemma sortByScore_sorted: "sorted_wrt (\<lambda>a b. PerformanceScore b \<le> PerformanceScore a) (sortByScore is)"
  unfolding sortByScore_def by (induction "is") (auto intro: insertByScore_sorted)

lemma sortByScore_stable:
  "filter (\<lambda>j. PerformanceScore j = s) (sortByScore is) = filter (\<lambda>j. PerformanceScore j = s) is"
proof (induction "is")
  case (Cons i "is")
  have "sortByScore (i # is) = insertByScore i (sortByScore is)" by (simp add: sortByScore_def)
  then show ?case using insertByScore_filter [OF sortByScore_sorted] Cons.IH by simp
qed (simp add: sortByScore_def)

lemma sortByScore_set [simp]: "set (sortByScore is) = set is"
  unfolding sortByScore_def by (induction "is") auto

subsection \<open>Lemmas: eviction\<close>

text \<open>What the cache goes through until the list is fetched again: evictions and invalidations.\<close>

inductive quietStep :: "Indexers \<Rightarrow> Indexers \<Rightarrow> bool" where
  quiet_evict: "quietStep d (Evict did d)"
| quiet_invalidate: "quietStep d (Invalidate d)"

inductive_cases quietStepE: "quietStep d d'"

definition notCached :: "string \<Rightarrow> Indexers \<Rightarrow> bool" where
  "notCached did d \<longleftrightarrow> did \<notin> IndexerDID ` set (ixCache d)"

lemma quietStep_notCached: "quietStep d d' \<Longrightarrow> notCached did d \<Longrightarrow> notCached did d'"
  by (erule quietStepE) (auto simp: notCached_def Evict_def Invalidate_def)

lemma Evict_notCached: "notCached did (Evict did d)"
  by (auto simp: notCached_def Evict_def)

subsection \<open>Lemmas: routing\<close>

text \<open>An indexer's answer, which does not depend on the cache.\<close>

definition replyOf :: "'t queryWorld \<Rightarrow> IndexerInfo \<Rightarrow> sdkError + 't" where
  "replyOf q info = snd (callIndexer q info (NewIndexers []))"

lemma callIndexer_reply: "snd (callIndexer q info d) = replyOf q info"
  by (simp add: replyOf_def callIndexer_def split: queryAnswer.split sum.split)

definition answers :: "'t queryWorld \<Rightarrow> IndexerInfo \<Rightarrow> bool" where
  "answers q info \<longleftrightarrow> \<not> isl (replyOf q info)"

lemma tryIndexers_result:
  "snd (tryIndexers q infos d) =
     (case find (answers q) infos of
        Some info \<Rightarrow> Inr (info, projr (replyOf q info))
      | None \<Rightarrow> Inl (map (\<lambda>info. (IndexerDID info, projl (replyOf q info))) infos))"
proof (induction infos arbitrary: d)
  case (Cons info infos)
  obtain d' r where call: "callIndexer q info d = (d', r)" by fastforce
  then have r: "r = replyOf q info" using callIndexer_reply [of q info d] by simp
  show ?case
  proof (cases r)
    case (Inl e)
    then show ?thesis
      using Cons.IH [of d'] call r
      by (auto simp: answers_def split: prod.splits sum.splits option.splits)
  next
    case (Inr t)
    then show ?thesis using call r by (auto simp: answers_def)
  qed
qed simp

interpretation evictSys: invariant_system "Evict did d" quietStep "notCached did" for did d
  by unfold_locales (auto intro: Evict_notCached quietStep_notCached)

subsection \<open>Properties\<close>

text \<open>
  The candidates of a subgrove are the active indexers of the list that serve it, best
  score first, those of one score in the order of the list.
\<close>

lemma candidates_best_first:
  assumes "snd (ForSubgrove w subgroveID d) = Inr found" and "\<not> HasExplicitOverride d"
  shows "\<exists>infos. snd (ListIndexers w d) = Inr infos
    \<and> sorted_wrt (\<lambda>a b. PerformanceScore b \<le> PerformanceScore a) found
    \<and> (\<forall>s. filter (\<lambda>i. PerformanceScore i = s) found
           = filter (\<lambda>i. PerformanceScore i = s \<and> serves subgroveID i) infos)"
proof -
  obtain infos where "snd (ListIndexers w d) = Inr infos"
    and "found = sortByScore (filter (serves subgroveID) infos)"
    using assms by (auto simp: ForSubgrove_def HasExplicitOverride_def split: prod.splits sum.splits)
  then show ?thesis
    by (auto simp: sortByScore_sorted sortByScore_stable intro: filter_cong)
qed

text \<open>
  C36: an indexer evicted from the cache is not a candidate again until the list is fetched
  anew, whatever else is evicted or invalidated in between.
\<close>

theorem evicted_not_picked:
  assumes "reach (Evict did d) quietStep d'" and "\<not> HasExplicitOverride d'"
    and "cacheHit d' (lwStart w)" and "snd (ForSubgrove w subgroveID d') = Inr found"
  shows "did \<notin> IndexerDID ` set found"
proof -
  have "notCached did d'" using evictSys.reach_inv assms(1) by blast
  then show ?thesis
    using assms(2-4) by (auto simp: notCached_def ForSubgrove_def ListIndexers_def HasExplicitOverride_def)
qed

text \<open>
  C37: an automatically routed query is served by the first of the three best candidates
  that answers; when none does, an answer refused for its size is the error, and otherwise
  the API's answer is returned, marked as a fallback exactly when an indexer was tried.
\<close>

theorem route_auto_exact:
  "snd (routeQuery w q subgroveID QuerySourceAuto d) =
     (let candidates = take 3 (case snd (ForSubgrove w subgroveID d) of Inl e \<Rightarrow> [] | Inr found \<Rightarrow> found) in
      case find (answers q) candidates of
        Some info \<Rightarrow> Inr (servedByIndexer (info, projr (replyOf q info)))
      | None \<Rightarrow>
          (case find isTooLarge (map (\<lambda>info. projl (replyOf q info)) candidates) of
             Some e \<Rightarrow> Inl (RouteError e)
           | None \<Rightarrow>
               bindR (callValidator q subgroveID) (\<lambda>t. Inr (servedByValidator (candidates \<noteq> []) t))))"
proof -
  obtain d' r where f: "ForSubgrove w subgroveID d = (d', r)" by fastforce
  let ?c = "take maxIndexerCandidates (case r of Inl e \<Rightarrow> [] | Inr found \<Rightarrow> found)"
  obtain d'' t where t: "tryIndexers q ?c d' = (d'', t)" by fastforce
  have "t = (case find (answers q) ?c of
        Some info \<Rightarrow> Inr (info, projr (replyOf q info))
      | None \<Rightarrow> Inl (map (\<lambda>info. (IndexerDID info, projl (replyOf q info))) ?c))"
    using tryIndexers_result [of q ?c d'] t by simp
  then show ?thesis
    using f t by (simp add: Let_def maxIndexerCandidates_def comp_def split: option.splits)
qed

subsection \<open>Witnesses\<close>

definition sampleInfo :: "string \<Rightarrow> int \<Rightarrow> IndexerInfo" where
  "sampleInfo did score =
     \<lparr>IndexerDID = did, Subgroves = [''sg''], StakeAmount = \<lparr>Hi = 0, Lo = 0\<rparr>, Endpoint = ''e'',
      QueryEndpoint = [], Status = ''active'', PerformanceScore = score, LastUpdate = 0\<rparr>"

definition sampleIndexers :: Indexers where
  "sampleIndexers =
     \<lparr>ixIndexerURL = [], ixTTL = DefaultCacheTTL,
      ixCache = [sampleInfo ''a'' 1, sampleInfo ''b'' 2, sampleInfo ''c'' 2], ixTaken = True, ixFilled = 0\<rparr>"

definition sampleList :: listWorld where
  "sampleList = \<lparr>lwStart = 5, lwFetch = Unfetched (Foreign []), lwOthers = id, lwEnd = 5\<rparr>"

lemma sample_candidates:
  "snd (ForSubgrove sampleList ''sg'' sampleIndexers) = Inr [sampleInfo ''b'' 2, sampleInfo ''c'' 2, sampleInfo ''a'' 1]"
  "snd (ForSubgrove sampleList ''sg'' (Evict ''b'' sampleIndexers)) = Inr [sampleInfo ''c'' 2, sampleInfo ''a'' 1]"
  by (simp_all add: ForSubgrove_def ListIndexers_def cacheHit_def sampleIndexers_def sampleList_def DefaultCacheTTL_def
        Evict_def sampleInfo_def serves_def sortByScore_def)

lemma candidates_best_first_sample:
  "sorted_wrt (\<lambda>a b. PerformanceScore b \<le> PerformanceScore a) [sampleInfo ''b'' 2, sampleInfo ''c'' 2, sampleInfo ''a'' 1]"
proof -
  have "\<not> HasExplicitOverride sampleIndexers" by (simp add: HasExplicitOverride_def sampleIndexers_def)
  from candidates_best_first [OF sample_candidates(1) this] show ?thesis by blast
qed

theorem evicted_not_picked_witness:
  "''b'' \<notin> IndexerDID ` set [sampleInfo ''c'' 2, sampleInfo ''a'' 1]"
  by (rule evicted_not_picked [OF reach_start _ _ sample_candidates(2)])
    (simp_all add: HasExplicitOverride_def cacheHit_def Evict_def sampleIndexers_def sampleList_def DefaultCacheTTL_def)

end
