(* ===== verification/Subscriptions.thy ===== *)
theory Subscriptions
  imports Routing
begin

text \<open>
  GraphQL subscriptions (\<^verbatim>\<open>subscriptions.go\<close>): the handshake on a socket, the pump that forwards
  frames, and the loop that reconnects with backoff.  The network is an argument: the frames
  a socket gives, how each connection attempt ends and when the caller cancels.  The theory
  shows which payloads reach the caller, how often the loop reconnects, and what the backoff
  is once the doubled delay no longer fits a duration.
\<close>

subsection \<open>Options\<close>

datatype SubscribeSource = SubscribeSourceValidator | SubscribeSourceIndexer

record SubscribeOptions =
  soVariables :: "(string \<times> json) list option"
  soOperationName :: string
  soConnectionPayload :: "(string \<times> json) list option"
  soSource :: SubscribeSource
  soReconnect :: "bool option"
  soMaxReconnectAttempts :: int
  soReconnectBackoff :: int
  soMaxReconnectBackoff :: int

record resolvedOptions =
  roVariables :: "(string \<times> json) list option"
  roOperationName :: string
  roConnectionPayload :: "(string \<times> json) list option"
  roSource :: SubscribeSource
  roReconnect :: bool
  roMaxReconnectAttempts :: int
  roReconnectBackoff :: int
  roMaxReconnectBackoff :: int

definition resolveOptions :: "SubscribeOptions option \<Rightarrow> resolvedOptions" where
  "resolveOptions opts =
     (case opts of
        None \<Rightarrow>
          \<lparr>roVariables = None, roOperationName = [], roConnectionPayload = None,
           roSource = SubscribeSourceValidator, roReconnect = True, roMaxReconnectAttempts = 0,
           roReconnectBackoff = 500 * 10 ^ 6, roMaxReconnectBackoff = 30 * 10 ^ 9\<rparr>
      | Some o' \<Rightarrow>
          \<lparr>roVariables = soVariables o', roOperationName = soOperationName o',
           roConnectionPayload = soConnectionPayload o', roSource = soSource o',
           roReconnect = (case soReconnect o' of None \<Rightarrow> True | Some b \<Rightarrow> b),
           roMaxReconnectAttempts = soMaxReconnectAttempts o',
           roReconnectBackoff = (if 0 < soReconnectBackoff o' then soReconnectBackoff o' else 500 * 10 ^ 6),
           roMaxReconnectBackoff =
             (if 0 < soMaxReconnectBackoff o' then soMaxReconnectBackoff o' else 30 * 10 ^ 9)\<rparr>)"

subsection \<open>Frames\<close>

text \<open>A frame decodes into a map: an object, or null for a map of nothing; anything else is skipped.\<close>

definition readFrame :: "string \<Rightarrow> (string \<times> json) list option" where
  "readFrame raw =
     (case unmarshalJson raw of
        Some (JObj ms) \<Rightarrow> Some ms
      | Some JNull \<Rightarrow> Some []
      | _ \<Rightarrow> None)"

definition textMember :: "string \<Rightarrow> (string \<times> json) list \<Rightarrow> string" where
  "textMember k ms = (case member k ms of Some (JStr s) \<Rightarrow> s | _ \<Rightarrow> [])"

definition anyMember :: "string \<Rightarrow> (string \<times> json) list \<Rightarrow> json" where
  "anyMember k ms = (case member k ms of Some v \<Rightarrow> v | None \<Rightarrow> JNull)"

text \<open>A payload: \<open>spErrors = JNull\<close> is a nil \<^verbatim>\<open>Errors\<close>.\<close>

record SubscriptionPayload =
  spData :: "(string \<times> json) list option"
  spErrors :: json

definition nextPayload :: "(string \<times> json) list \<Rightarrow> SubscriptionPayload" where
  "nextPayload ms =
     (case member ''payload'' ms of
        Some (JObj p) \<Rightarrow>
          \<lparr>spData = (case member ''data'' p of Some (JObj d) \<Rightarrow> Some d | _ \<Rightarrow> None),
           spErrors = anyMember ''errors'' p\<rparr>
      | _ \<Rightarrow> \<lparr>spData = None, spErrors = JNull\<rparr>)"

definition httpToWS :: "string \<Rightarrow> string" where
  "httpToWS u =
     (case cutPrefix ''https://'' u of
        Some r \<Rightarrow> ''wss://'' @ r
      | None \<Rightarrow> (case cutPrefix ''http://'' u of Some r \<Rightarrow> ''ws://'' @ r | None \<Rightarrow> u))"

subsection \<open>The handshake\<close>

text \<open>
  What the socket gives while \<^verbatim>\<open>connection_ack\<close> is awaited: frames, and then at most an error.
  The result is how it ended with the frames written; \<open>Waiting\<close> is a handshake still reading.
\<close>

datatype wsRead = WsFrame string | WsFailed string

datatype handshake = Waiting | Acked | AckUnread string | Rejected json

definition pongFrame :: string where
  "pongFrame = printJson (JObj [(''type'', JStr ''pong'')])"

primrec awaitAck :: "wsRead list \<Rightarrow> string list \<times> handshake" where
  "awaitAck [] = ([], Waiting)"
| "awaitAck (r # rs) =
     (case r of
        WsFailed e \<Rightarrow> ([], AckUnread e)
      | WsFrame raw \<Rightarrow>
          (case readFrame raw of
             None \<Rightarrow> awaitAck rs
           | Some ms \<Rightarrow>
               let t = textMember ''type'' ms in
               if t = ''connection_ack'' then ([], Acked)
               else if t = ''connection_error'' then ([], Rejected (anyMember ''payload'' ms))
               else (case awaitAck rs of (ws, h) \<Rightarrow> (if t = ''ping'' then pongFrame # ws else ws, h))))"

definition initFrame :: "resolvedOptions \<Rightarrow> string" where
  "initFrame opts =
     printJson (JObj [(''payload'', JObj (case roConnectionPayload opts of None \<Rightarrow> [] | Some p \<Rightarrow> p)),
                      (''type'', JStr ''connection_init'')])"

definition subscribeFrame :: "string \<Rightarrow> string \<Rightarrow> resolvedOptions \<Rightarrow> string" where
  "subscribeFrame subID query opts =
     printJson (JObj
       [(''id'', JStr subID),
        (''payload'', JObj
           ((if roOperationName opts = [] then [] else [(''operationName'', JStr (roOperationName opts))])
            @ [(''query'', JStr query)]
            @ (case roVariables opts of None \<Rightarrow> [] | Some vs \<Rightarrow> [(''variables'', JObj vs)]))),
        (''type'', JStr ''subscribe'')])"

definition completeFrame :: "string \<Rightarrow> string" where
  "completeFrame subID = printJson (JObj [(''id'', JStr subID), (''type'', JStr ''complete'')])"

text \<open>One connection attempt: the dial, the two writes (\<open>Some\<close> an error) and the frames read.\<close>

record dialWorld =
  dwDial :: "string option"
  dwInit :: "string option"
  dwReads :: "wsRead list"
  dwSubscribe :: "string option"

definition connectAndHandshake ::
  "dialWorld \<Rightarrow> string \<Rightarrow> string \<Rightarrow> string \<Rightarrow> resolvedOptions \<Rightarrow> string list \<times> (sdkError + unit) option" where
  "connectAndHandshake w wsURL subID query opts =
     (case dwDial w of
        Some e \<Rightarrow> ([], Some (Inl (Wrapped (''websocket dial '' @ wsURL) (Foreign e))))
      | None \<Rightarrow>
          (case dwInit w of
             Some e \<Rightarrow> ([], Some (Inl (Wrapped ''send connection_init'' (Foreign e))))
           | None \<Rightarrow>
               (case awaitAck (dwReads w) of
                  (ws, Waiting) \<Rightarrow> (initFrame opts # ws, None)
                | (ws, AckUnread e) \<Rightarrow> (initFrame opts # ws, Some (Inl (Wrapped ''read connection_ack'' (Foreign e))))
                | (ws, Rejected p) \<Rightarrow>
                    (initFrame opts # ws, Some (Inl (Foreign ''server refused connection'')))
                | (ws, Acked) \<Rightarrow>
                    (case dwSubscribe w of
                       Some e \<Rightarrow> (initFrame opts # ws, Some (Inl (Wrapped ''send subscribe'' (Foreign e))))
                     | None \<Rightarrow> (initFrame opts # ws @ [subscribeFrame subID query opts], Some (Inr ()))))))"

text \<open>The endpoint of an attempt, evicting the indexer the last one failed at.\<close>

definition trimRightSlash :: "string \<Rightarrow> string" where
  "trimRightSlash s = rev (dropWhile (\<lambda>c. c = CHR ''/'') (rev s))"

definition resolveEndpoint ::
  "string \<Rightarrow> listWorld \<Rightarrow> string \<Rightarrow> resolvedOptions \<Rightarrow> string \<Rightarrow> Indexers option
    \<Rightarrow> Indexers option \<times> (sdkError + string \<times> string)" where
  "resolveEndpoint apiURL w subgroveID opts skipDID ixs =
     (case roSource opts of
        SubscribeSourceValidator \<Rightarrow> (ixs, Inr (httpToWS apiURL @ ''/graphql/ws'', []))
      | SubscribeSourceIndexer \<Rightarrow>
          (case ixs of
             None \<Rightarrow> (None, Inl (Foreign ''source=indexer requires an Indexers client''))
           | Some d \<Rightarrow>
               let d1 = (if skipDID \<noteq> [] then Evict skipDID d else d) in
               (case ForSubgrove w subgroveID d1 of
                  (d2, Inl e) \<Rightarrow> (Some d2, Inl (Wrapped ''indexer discovery'' e))
                | (d2, Inr []) \<Rightarrow> (Some d2, Inl (Foreign ''no indexer serves subgrove''))
                | (d2, Inr (chosen # rest)) \<Rightarrow>
                    (Some d2, Inr (httpToWS (trimRightSlash (EffectiveQueryEndpoint chosen)) @ ''/graphql/ws'',
                                   IndexerDID chosen)))))"

subsection \<open>The pump\<close>

datatype pumpExitKind = pumpServerComplete | pumpDisconnected | pumpCancelled

record pumpExit =
  peKind :: pumpExitKind
  peDelivered :: bool
  peErr :: "string option"

text \<open>
  What one turn of the pump meets: the context ended before the read; a read that fails,
  with whether the context had ended and whether the close was a normal one; or a frame,
  with whether the context ends before the caller takes the event it makes.
\<close>

datatype pumpInput =
    CancelledFirst
  | ReadFails bool bool string
  | Received string bool

datatype turn = Exit pumpExitKind "string option" | Deliver SubscriptionPayload bool | Pong | Skip

definition frameTurn :: "string \<Rightarrow> (string \<times> json) list \<Rightarrow> bool \<Rightarrow> turn" where
  "frameTurn subID ms cancelled =
     (let t = textMember ''type'' ms; own = (textMember ''id'' ms = subID) in
      if t = ''next'' then
        (if \<not> own then Skip else if cancelled then Exit pumpCancelled None else Deliver (nextPayload ms) True)
      else if t = ''complete'' then (if own then Exit pumpServerComplete None else Skip)
      else if t = ''error'' then
        (if \<not> own then Skip
         else if cancelled then Exit pumpCancelled None
         else Deliver \<lparr>spData = None, spErrors = anyMember ''payload'' ms\<rparr> False)
      else if t = ''ping'' then Pong
      else Skip)"

fun pumpTurn :: "string \<Rightarrow> pumpInput \<Rightarrow> turn" where
  "pumpTurn subID CancelledFirst = Exit pumpCancelled None"
| "pumpTurn subID (ReadFails ended normal e) =
     (if ended then Exit pumpCancelled None
      else Exit pumpDisconnected (if normal then None else Some e))"
| "pumpTurn subID (Received raw cancelled) =
     (case readFrame raw of None \<Rightarrow> Skip | Some ms \<Rightarrow> frameTurn subID ms cancelled)"

text \<open>The events sent, the frames written and the exit, \<open>None\<close> while the pump still reads.\<close>

primrec pump ::
  "string \<Rightarrow> bool \<Rightarrow> pumpInput list \<Rightarrow> SubscriptionPayload list \<times> string list \<times> pumpExit option" where
  "pump subID delivered [] = ([], [], None)"
| "pump subID delivered (i # is) =
     (case pumpTurn subID i of
        Exit kind e \<Rightarrow> ([], [], Some \<lparr>peKind = kind, peDelivered = delivered, peErr = e\<rparr>)
      | Deliver p counts \<Rightarrow>
          (case pump subID (delivered \<or> counts) is of (evs, ws, x) \<Rightarrow> (p # evs, ws, x))
      | Pong \<Rightarrow> (case pump subID delivered is of (evs, ws, x) \<Rightarrow> (evs, pongFrame # ws, x))
      | Skip \<Rightarrow> pump subID delivered is)"

subsection \<open>Backoff\<close>

text \<open>
  \<^verbatim>\<open>float64(d)\<close> of a duration: 53 significant bits, to the nearest and from the middle to even.
  Doubling a \<^verbatim>\<open>float64\<close> is exact.  A \<^verbatim>\<open>float64\<close> beyond the range of \<^verbatim>\<open>int64\<close> converts to a value
  the machine chooses (\<open>outOfRange\<close>; on amd64 the least \<^verbatim>\<open>int64\<close>).
\<close>

fun excessBits :: "nat \<Rightarrow> nat" where
  "excessBits n = (if n < 2 ^ 53 then 0 else Suc (excessBits (n div 2)))"

declare excessBits.simps [simp del]

definition float64Of :: "nat \<Rightarrow> nat" where
  "float64Of n =
     (let k = excessBits n; q = n div 2 ^ k; r = n mod 2 ^ k in
      if k = 0 then n
      else if 2 ^ (k - 1) < r \<or> r = 2 ^ (k - 1) \<and> odd q then (q + 1) * 2 ^ k else q * 2 ^ k)"

definition amd64OutOfRange :: int where
  "amd64OutOfRange = - (2 ^ 63)"

definition reconnectDelay :: "int \<Rightarrow> resolvedOptions \<Rightarrow> nat \<Rightarrow> int" where
  "reconnectDelay outOfRange opts attempts =
     (let x = int (float64Of (nat (roReconnectBackoff opts))) * 2 ^ (attempts - 1);
          delay = (if x < 2 ^ 63 then x else outOfRange) in
      if roMaxReconnectBackoff opts < delay then roMaxReconnectBackoff opts else delay)"

subsection \<open>The loop\<close>

text \<open>
  The life of one connection after its handshake: what its pump meets, and the attempts
  made once it is lost, each with whether the context ends during the wait and how the
  attempt ends: an error, with whether the context had ended, or an indexer.
\<close>

record retryInput =
  riCancelled :: bool
  riResult :: "(sdkError \<times> bool) + string"

record connection =
  cnPump :: "pumpInput list"
  cnRetries :: "retryInput list"

text \<open>
  How the loop stands: still running, or over with the error \<^verbatim>\<open>Err()\<close> gives.  A trace has the
  events sent, the attempts to reconnect, each with its delay and, unless the context ended
  during it, the indexer named as failed, the \<^verbatim>\<open>complete\<close> frames sent, and the last state.
\<close>

datatype loopEnd = Running | Over "sdkError option"

record loopTrace =
  ltEvents :: "SubscriptionPayload list"
  ltAttempts :: "(int \<times> string option) list"
  ltCompletes :: nat
  ltEnd :: loopEnd

datatype retryEnd = RetryRunning | RetryOver "sdkError option" | Reconnected nat string

primrec retryConnect ::
  "int \<Rightarrow> resolvedOptions \<Rightarrow> string \<Rightarrow> nat \<Rightarrow> sdkError option \<Rightarrow> retryInput list
    \<Rightarrow> (int \<times> string option) list \<times> retryEnd" where
  "retryConnect oor opts did attempts lastErr [] =
     ([], if 0 < roMaxReconnectAttempts opts \<and> roMaxReconnectAttempts opts \<le> int attempts
          then RetryOver lastErr else RetryRunning)"
| "retryConnect oor opts did attempts lastErr (i # is) =
     (if 0 < roMaxReconnectAttempts opts \<and> roMaxReconnectAttempts opts \<le> int attempts
      then ([], RetryOver lastErr)
      else let delay = reconnectDelay oor opts (Suc attempts) in
        if riCancelled i then ([(delay, None)], RetryOver None)
        else (case riResult i of
                Inr did' \<Rightarrow> ([(delay, Some did)], Reconnected (Suc attempts) did')
              | Inl (e, ended) \<Rightarrow>
                  if ended then ([(delay, Some did)], RetryOver None)
                  else (case retryConnect oor opts did (Suc attempts) (Some e) is of
                          (ds, x) \<Rightarrow> ((delay, Some did) # ds, x))))"

primrec subscriptionLoop ::
  "int \<Rightarrow> string \<Rightarrow> resolvedOptions \<Rightarrow> nat \<Rightarrow> string \<Rightarrow> connection list \<Rightarrow> loopTrace" where
  "subscriptionLoop oor subID opts attempts did [] =
     \<lparr>ltEvents = [], ltAttempts = [], ltCompletes = 0, ltEnd = Running\<rparr>"
| "subscriptionLoop oor subID opts attempts did (c # cs) =
     (case pump subID False (cnPump c) of
        (evs, ws, None) \<Rightarrow>
          \<lparr>ltEvents = evs, ltAttempts = [], ltCompletes = 0, ltEnd = Running\<rparr>
      | (evs, ws, Some x) \<Rightarrow>
          let over = (\<lambda>n e. \<lparr>ltEvents = evs, ltAttempts = [], ltCompletes = n, ltEnd = Over e\<rparr>) in
          if peKind x = pumpServerComplete then over 0 None
          else if peKind x = pumpCancelled then over 1 None
          else if \<not> roReconnect opts then over 0 (map_option Foreign (peErr x))
          else
            let attempts' = (if peDelivered x then 0 else attempts) in
            (case retryConnect oor opts did attempts' (map_option Foreign (peErr x)) (cnRetries c) of
               (ds, RetryRunning) \<Rightarrow>
                 \<lparr>ltEvents = evs, ltAttempts = ds, ltCompletes = 0,
                  ltEnd = Running\<rparr>
             | (ds, RetryOver e) \<Rightarrow>
                 \<lparr>ltEvents = evs, ltAttempts = ds, ltCompletes = 0,
                  ltEnd = Over e\<rparr>
             | (ds, Reconnected n did') \<Rightarrow>
                 let t = subscriptionLoop oor subID opts n did' cs in
                 \<lparr>ltEvents = evs @ ltEvents t, ltAttempts = ds @ ltAttempts t,
                  ltCompletes = ltCompletes t,
                  ltEnd = ltEnd t\<rparr>))"

subsection \<open>Lemmas: the pump\<close>

definition exits :: "turn \<Rightarrow> bool" where
  "exits t = (case t of Exit k e \<Rightarrow> True | _ \<Rightarrow> False)"

definition eventsOf :: "turn \<Rightarrow> SubscriptionPayload list" where
  "eventsOf t = (case t of Deliver p c \<Rightarrow> [p] | _ \<Rightarrow> [])"

definition counted :: "turn \<Rightarrow> bool" where
  "counted t = (case t of Deliver p c \<Rightarrow> c | _ \<Rightarrow> False)"

definition pumpedTurns :: "string \<Rightarrow> pumpInput list \<Rightarrow> turn list" where
  "pumpedTurns subID is = takeWhile (\<lambda>t. \<not> exits t) (map (pumpTurn subID) is)"

lemma pumpedTurns_Cons:
  "pumpedTurns subID (i # is) =
     (if exits (pumpTurn subID i) then [] else pumpTurn subID i # pumpedTurns subID is)"
  by (simp add: pumpedTurns_def)

lemma eventsOf_simps [simp]:
  "eventsOf (Exit k e) = []" "eventsOf (Deliver p c) = [p]" "eventsOf Pong = []" "eventsOf Skip = []"
  by (simp_all add: eventsOf_def)

lemma exits_simps [simp]: "exits (Exit k e)" "\<not> exits (Deliver p c)" "\<not> exits Pong" "\<not> exits Skip"
  by (simp_all add: exits_def)


lemma pump_exit_delivered:
  "snd (snd (pump subID delivered is)) = Some x \<Longrightarrow>
     peDelivered x \<longleftrightarrow> delivered \<or> list_ex counted (pumpedTurns subID is)"
proof (induction "is" arbitrary: delivered)
  case (Cons i "is")
  show ?case
  proof (cases "pumpTurn subID i")
    case (Exit k e)
    then show ?thesis using Cons.prems by (auto simp: pumpedTurns_Cons exits_def)
  next
    case (Deliver p c)
    then have "snd (snd (pump subID (delivered \<or> c) is)) = Some x"
      using Cons.prems by (auto split: prod.splits)
    from Cons.IH [OF this] show ?thesis using Deliver by (simp add: pumpedTurns_Cons exits_def counted_def disj_assoc)
  next
    case Pong
    then have "snd (snd (pump subID delivered is)) = Some x" using Cons.prems by (auto split: prod.splits)
    from Cons.IH [OF this] show ?thesis using Pong by (simp add: pumpedTurns_Cons exits_def counted_def)
  next
    case Skip
    then have "snd (snd (pump subID delivered is)) = Some x" using Cons.prems by simp
    from Cons.IH [OF this] show ?thesis using Skip by (simp add: pumpedTurns_Cons exits_def counted_def)
  qed
qed simp

subsection \<open>Lemmas: reconnecting\<close>

lemma retryConnect_bound:
  assumes "0 < roMaxReconnectAttempts opts" and "int attempts \<le> roMaxReconnectAttempts opts"
    and "retryConnect oor opts did attempts lastErr is = (as, x)"
  shows "int (attempts + length as) \<le> roMaxReconnectAttempts opts
    \<and> (\<forall>n did'. x = Reconnected n did' \<longrightarrow> n = attempts + length as)"
  using assms(2,3)
proof (induction "is" arbitrary: attempts lastErr as x)
  case (Cons i "is")
  show ?case
  proof (cases "roMaxReconnectAttempts opts \<le> int attempts")
    case True
    then show ?thesis using Cons.prems assms(1) by auto
  next
    case False
    then have room: "int (Suc attempts) \<le> roMaxReconnectAttempts opts" by simp
    show ?thesis
    proof (cases "riCancelled i \<or> (\<exists>e. riResult i = Inl (e, True)) \<or> (\<exists>d. riResult i = Inr d)")
      case True
      then show ?thesis using Cons.prems(2) False room by (auto simp: Let_def split: if_splits)
    next
      case go: False
      then obtain e where e: "\<not> riCancelled i" "riResult i = Inl (e, False)"
        by (cases "riResult i") auto
      obtain bs y where rec: "retryConnect oor opts did (Suc attempts) (Some e) is = (bs, y)" by fastforce
      then have "as = (reconnectDelay oor opts (Suc attempts), Some did) # bs" "x = y"
        using Cons.prems(2) False e by (auto simp: Let_def)
      then show ?thesis using Cons.IH [OF room rec] by simp
    qed
  qed
qed (auto split: if_splits)

text \<open>A connection that is lost without a payload of a \<^verbatim>\<open>next\<close> frame.\<close>

definition idle :: "string \<Rightarrow> connection \<Rightarrow> bool" where
  "idle subID c \<longleftrightarrow> \<not> list_ex counted (pumpedTurns subID (cnPump c))"

lemma loop_bound:
  assumes "0 < roMaxReconnectAttempts opts" and "int attempts \<le> roMaxReconnectAttempts opts"
    and "list_all (idle subID) cs"
  shows "int (attempts + length (ltAttempts (subscriptionLoop oor subID opts attempts did cs)))
    \<le> roMaxReconnectAttempts opts"
  using assms(2,3)
proof (induction cs arbitrary: attempts did)
  case (Cons c cs)
  obtain evs ws x where p: "pump subID False (cnPump c) = (evs, ws, x)" by (metis prod_cases3)
  show ?case
  proof (cases "\<exists>y. x = Some y \<and> peKind y = pumpDisconnected \<and> roReconnect opts")
    case False
    then show ?thesis using p Cons.prems by (auto simp: Let_def split: option.splits) (metis pumpExitKind.exhaust)+
  next
    case True
    then obtain y where y: "x = Some y" "peKind y = pumpDisconnected" "roReconnect opts" by blast
    have "\<not> peDelivered y"
      using pump_exit_delivered [of subID False "cnPump c" y] p y(1) Cons.prems(2) by (simp add: idle_def)
    obtain as e where r: "retryConnect oor opts did attempts (map_option Foreign (peErr y)) (cnRetries c) = (as, e)"
      by fastforce
    note b = retryConnect_bound [OF assms(1) Cons.prems(1) r]
    show ?thesis
    proof (cases e)
      case (Reconnected n did')
      then have n: "n = attempts + length as" using b by blast
      have "ltAttempts (subscriptionLoop oor subID opts attempts did (c # cs))
          = as @ ltAttempts (subscriptionLoop oor subID opts n did' cs)"
        using p y r Reconnected \<open>\<not> peDelivered y\<close> by (simp add: Let_def)
      moreover have "int n \<le> roMaxReconnectAttempts opts" using b n by simp
      ultimately show ?thesis using Cons.IH [of n did'] Cons.prems(2) n by simp
    qed (use p y r \<open>\<not> peDelivered y\<close> b in \<open>auto simp: Let_def\<close>)
  qed
qed simp

subsection \<open>Lemmas: backoff\<close>

lemma float64Of_small: "n < 2 ^ 53 \<Longrightarrow> float64Of n = n"
  by (simp add: float64Of_def Let_def excessBits.simps)

lemma default_delay:
  "reconnectDelay oor (resolveOptions None) (Suc n) =
     (if n \<le> 34 then min (30 * 10 ^ 9) (5 * 10 ^ 8 * 2 ^ n) else min (30 * 10 ^ 9) oor)"
proof -
  show ?thesis
  proof (cases "n \<le> 34")
    case True
    then have "(2 :: int) ^ n \<le> 2 ^ 34" by (intro power_increasing) simp_all
    then show ?thesis
      using True by (auto simp: reconnectDelay_def resolveOptions_def float64Of_small Let_def min_def)
  next
    case False
    then have "(2 :: int) ^ 35 \<le> 2 ^ n" by (intro power_increasing) simp_all
    then have "\<not> (5 * 10 ^ 8 * 2 ^ n < (2 :: int) ^ 63)" by simp
    then show ?thesis
      using False by (simp add: reconnectDelay_def resolveOptions_def float64Of_small Let_def min_def)
  qed
qed

subsection \<open>Properties\<close>


text \<open>
  With a limit set, the loop makes at most that many attempts to reconnect over any run
  of connections that deliver no payload, so a server that accepts a subscription and drops
  the socket at once does not keep it going.
\<close>

lemma reconnects_bounded:
  assumes "0 < roMaxReconnectAttempts opts" and "list_all (idle subID) cs"
  shows "int (length (ltAttempts (subscriptionLoop oor subID opts 0 did cs))) \<le> roMaxReconnectAttempts opts"
  using loop_bound [of opts 0 subID cs oor did] assms by simp

text \<open>
  With the default options the delay before the attempt \<open>n + 1\<close> doubles from half a
  second and is capped at thirty, up to the thirty-fifth attempt; from the thirty-sixth on
  the doubled delay no longer fits a duration and the delay is what the machine converts it
  to, which where that is negative (amd64) means no wait at all.
\<close>

lemma default_backoff_exact:
  "reconnectDelay oor (resolveOptions None) (Suc n) =
     (if n \<le> 34 then min (30 * 10 ^ 9) (5 * 10 ^ 8 * 2 ^ n) else min (30 * 10 ^ 9) oor)"
  by (rule default_delay)

lemma amd64_backoff_lost: "reconnectDelay amd64OutOfRange (resolveOptions None) 36 < 0"
  using default_delay [of amd64OutOfRange 35] by (simp add: amd64OutOfRange_def)

subsection \<open>Witnesses\<close>

definition droppedConnection :: connection where
  "droppedConnection =
     \<lparr>cnPump = [ReadFails False False ''reset''], cnRetries = [\<lparr>riCancelled = False, riResult = Inr []\<rparr>]\<rparr>"

lemma reconnects_bounded_sample:
  "int (length (ltAttempts (subscriptionLoop 0 ''s''
     ((resolveOptions None)\<lparr>roMaxReconnectAttempts := 2\<rparr>) 0 [] (replicate 5 droppedConnection)))) \<le> 2"
proof -
  have "idle ''s'' droppedConnection"
    by (simp add: idle_def droppedConnection_def pumpedTurns_def)
  then show ?thesis
    using reconnects_bounded [of "(resolveOptions None)\<lparr>roMaxReconnectAttempts := 2\<rparr>" "''s''"
        "replicate 5 droppedConnection" 0 "[]"]
    by (simp add: resolveOptions_def list_all_iff)
qed

end
