(* ===== verification/JsonText.thy ===== *)
theory JsonText
  imports Json
begin

text \<open>
  What \<^verbatim>\<open>json.Marshal\<close> writes, \<^verbatim>\<open>json.Unmarshal\<close> reads back: the texts of \<open>printJson\<close> are read by
  \<open>readJson\<close> as the value written, with each malformed byte of a string replaced by U+FFFD.
  The theories of the manifests and schemas rest their round trips on it.
\<close>

subsection \<open>Strings\<close>

text \<open>The text a Go string becomes when it is written as JSON and read back.\<close>

function cleanText :: "string \<Rightarrow> string" where
  "cleanText s =
     (case s of
        [] \<Rightarrow> []
      | c # t \<Rightarrow>
          let n = runeLen (map charNat s) in
          if n = 0 then replacementText @ cleanText t else take n s @ cleanText (drop n s))"
  by auto
termination
  by (relation "measure length") auto

declare cleanText.simps [simp del]

lemma cleanText_Nil [simp]: "cleanText [] = []"
  by (simp add: cleanText.simps)

lemma runeLen_ascii [simp]: "b < 0x80 \<Longrightarrow> runeLen (b # bs) = 1"
  by (simp add: runeLen.simps(2))

lemma runeLen_take:
  assumes "runeLen bs = n" and "n \<noteq> 0"
  shows "runeLen (take n bs @ xs) = n" and "n \<le> length bs"
  using assms by (cases bs; auto simp: runeLen.simps(2) split: if_splits list.splits)+

lemma hex4_unicodeText:
  assumes "n < 65536"
  shows "hex4 (drop 2 (unicodeText n) @ r) = Some (n, r)"
proof -
  have "n div 256 = n div 16 div 16" "n div 4096 = n div 256 div 16" by (simp_all add: div_mult2_eq [symmetric])
  then have "((n div 4096 * 16 + n div 256 mod 16) * 16 + n div 16 mod 16) * 16 + n mod 16 = n"
    using div_mult_mod_eq [of "n div 256" 16] div_mult_mod_eq [of "n div 16" 16] div_mult_mod_eq [of n 16] by metis
  moreover have "n div 4096 < 16" using assms by simp
  ultimately show ?thesis by (simp add: unicodeText_def)
qed

lemma unicodeText_split: "unicodeText n = CHR 0x5C # CHR ''u'' # drop 2 (unicodeText n)"
  by (simp add: unicodeText_def)

lemma stringPiece_unicodeText:
  assumes "n < 65536" and "\<not> isSurrogate n"
  shows "stringPiece (unicodeText n @ r) = Some (encodeRune n, r)"
  using assms by (subst unicodeText_split) (simp add: stringPiece_def charNat_def unicodeEscape_def hex4_unicodeText)

lemma encodeRune_charNat: "charNat c < 0x80 \<Longrightarrow> encodeRune (charNat c) = [c]"
  by (simp add: encodeRune_def charNat_def)

lemma stringPiece_plain:
  assumes "c \<noteq> CHR 0x5C" and "0x20 \<le> charNat c" and "charNat c < 0x80"
  shows "stringPiece (c # r) = Some ([c], r)"
  using assms by (simp add: stringPiece_def)

lemma stringPiece_simple:
  assumes "simpleEscape e = Some x"
  shows "stringPiece (CHR 0x5C # e # r) = Some ([x], r)"
  using assms by (auto simp: stringPiece_def charNat_def simpleEscape_def)

lemma escapeByte_cases:
  assumes "charNat c < 0x80"
  obtains (simple) e where "escapeByte c = [CHR 0x5C, e]" "simpleEscape e = Some c"
  | (code) "escapeByte c = unicodeText (charNat c)"
  | (plain) "escapeByte c = [c]" "c \<noteq> CHR 0x5C" "c \<noteq> CHR 0x22" "0x20 \<le> charNat c"
proof (cases "c \<in> {CHR 0x22, CHR 0x5C, CHR 0x08, CHR 0x0C, CHR 0x0A, CHR 0x0D, CHR 0x09}")
  case True
  then show ?thesis using simple by (auto simp: escapeByte_def simpleEscape_def)
next
  case False
  then show ?thesis using code plain by (cases "charNat c < 0x20 \<or> c \<in> {CHR ''<'', CHR ''>'', CHR ''&''}")
    (auto simp: escapeByte_def)
qed

lemma stringPiece_ascii:
  assumes "charNat c < 0x80"
  shows "stringPiece (escapeByte c @ r) = Some ([c], r)" and "hd (escapeByte c @ r) \<noteq> CHR 0x22"
proof -
  show "stringPiece (escapeByte c @ r) = Some ([c], r)"
    using assms
  proof (cases rule: escapeByte_cases)
    case code
    then show ?thesis
      using assms stringPiece_unicodeText [of "charNat c" r]
      by (simp add: isSurrogate_def encodeRune_charNat)
  qed (simp_all add: stringPiece_simple stringPiece_plain assms)
  show "hd (escapeByte c @ r) \<noteq> CHR 0x22"
    by (cases rule: escapeByte_cases [OF assms]) (simp_all add: unicodeText_def)
qed

lemma stringPiece_rune:
  assumes "runeLen (map charNat s) = n" and "n \<noteq> 0" and "s = c # t" and "0x80 \<le> charNat c"
  shows "stringPiece (escapeRune (take n s) @ r) = Some (take n s, r)"
    and "hd (escapeRune (take n s) @ r) \<noteq> CHR 0x22" and "escapeRune (take n s) \<noteq> []"
proof -
  obtain m where m: "n = Suc m" using assms(2) by (cases n) auto
  have len: "n \<le> length s" using runeLen_take(2) [OF assms(1,2)] by simp
  have big: "c \<noteq> CHR 0x5C" "c \<noteq> CHR 0x22" "\<not> charNat c < 0x20" using assms(4) by (auto simp: charNat_def)
  have "runeLen (map charNat (take n s @ r)) = n"
    using runeLen_take(1) [OF assms(1,2), of "map charNat r"] by (simp add: take_map)
  then have plain: "stringPiece (take n s @ r) = Some (take n s, r)"
    using big len assms(2,3) m by (simp add: stringPiece_def)
  show "stringPiece (escapeRune (take n s) @ r) = Some (take n s, r)"
    using plain by (auto simp: escapeRune_def isSurrogate_def stringPiece_unicodeText)
  show "hd (escapeRune (take n s) @ r) \<noteq> CHR 0x22" "escapeRune (take n s) \<noteq> []"
    using big assms(3) m by (auto simp: escapeRune_def unicodeText_def)
qed

lemma lexString_step:
  assumes "stringPiece s = Some (x, t)" and "s \<noteq> []" and "hd s \<noteq> CHR 0x22"
  shows "lexString s = map_option (\<lambda>(y, r). (x @ y, r)) (lexString t)"
  using assms by (subst lexString.simps) (auto split: list.splits)

theorem lexString_escapeText: "lexString (escapeText s @ CHR 0x22 # r) = Some (cleanText s, r)"
proof (induction s rule: escapeText.induct)
  case (1 s)
  show ?case
  proof (cases s)
    case Nil
    then show ?thesis by (simp add: escapeText.simps lexString.simps)
  next
    case (Cons c t)
    let ?n = "runeLen (map charNat s)"
    consider (ascii) "charNat c < 0x80" | (bad) "\<not> charNat c < 0x80" "?n = 0" | (rune) "\<not> charNat c < 0x80" "?n \<noteq> 0"
      by blast
    then show ?thesis
    proof cases
      case ascii
      have "escapeByte c \<noteq> []" by (cases rule: escapeByte_cases [OF ascii]) (simp_all add: unicodeText_def)
      then have "lexString (escapeByte c @ escapeText t @ CHR 0x22 # r) = Some (c # cleanText t, r)"
        using lexString_step [OF stringPiece_ascii(1) [OF ascii] _ stringPiece_ascii(2) [OF ascii]] "1.IH"(1) [OF Cons ascii]
        by simp
      then show ?thesis using Cons ascii by (simp add: escapeText.simps [of "c # t"] cleanText.simps [of "c # t"])
    next
      case bad
      have "lexString (unicodeText 0xFFFD @ escapeText t @ CHR 0x22 # r) = Some (replacementText @ cleanText t, r)"
        using lexString_step [OF stringPiece_unicodeText [of "0xFFFD"]] "1.IH"(2) [OF Cons bad(1) refl bad(2)]
        by (simp add: isSurrogate_def replacementText_def unicodeText_def)
      then show ?thesis using Cons bad by (simp add: escapeText.simps [of "c # t"] cleanText.simps [of "c # t"])
    next
      case rune
      have "0x80 \<le> charNat c" using rune(1) by simp
      note p = stringPiece_rune [OF refl rune(2) Cons this]
      have "lexString (escapeRune (take ?n s) @ escapeText (drop ?n s) @ CHR 0x22 # r)
          = Some (take ?n s @ cleanText (drop ?n s), r)"
        using lexString_step [OF p(1) _ p(2)] p(3) "1.IH"(3) [OF Cons rune(1) refl rune(2)] by simp
      then show ?thesis using Cons rune by (simp add: escapeText.simps [of "c # t"] cleanText.simps [of "c # t"] Let_def)
    qed
  qed
qed

lemma validUtf8_rune:
  assumes "validUtf8 (b # bs)"
  shows "runeLen (b # bs) \<noteq> 0 \<and> validUtf8 (drop (runeLen (b # bs)) (b # bs))"
proof -
  consider (one) "b < 0x80" | (two) "0xC2 \<le> b \<and> b \<le> 0xDF" | (three) "0xE0 \<le> b \<and> b \<le> 0xEF"
    | (four) "0xF0 \<le> b" | (none) "0x80 \<le> b \<and> b < 0xC2"
    by linarith
  then show ?thesis
  proof cases
    case two
    then show ?thesis using assms by (cases bs) (simp_all add: runeLen.simps(2) numeral_2_eq_2)
  next
    case three
    then obtain c d ds where "bs = c # d # ds" using assms by (auto split: list.splits)
    then show ?thesis using assms three by (simp add: runeLen.simps(2) numeral_3_eq_3 cong: if_cong)
  next
    case four
    then obtain c d e es where "bs = c # d # e # es" using assms by (auto split: list.splits)
    then show ?thesis using assms four by (simp add: runeLen.simps(2) cong: if_cong)
  qed (use assms in \<open>auto split: list.splits if_splits\<close>)
qed

lemma charNat_of_char: "charNat = of_char"
  by (simp add: fun_eq_iff charNat_def)

lemma cleanText_valid: "validString s \<Longrightarrow> cleanText s = s"
proof (induction s rule: cleanText.induct)
  case (1 s)
  show ?case
  proof (cases s)
    case (Cons c t)
    have "validUtf8 (map charNat s)" using "1.prems" by (simp add: validString_def charNat_of_char)
    then have n: "runeLen (map charNat s) \<noteq> 0" "validUtf8 (drop (runeLen (map charNat s)) (map charNat s))"
      using validUtf8_rune [of "charNat c" "map charNat t"] Cons by simp_all
    then have "validString (drop (runeLen (map charNat s)) s)"
      by (simp add: validString_def charNat_of_char drop_map)
    from "1.IH"(2) [OF Cons refl n(1) this] show ?thesis
      using n(1) Cons by (subst cleanText.simps) (simp add: Let_def)
  qed simp
qed

lemma cleanText_ascii [simp]: "charNat c < 0x80 \<Longrightarrow> cleanText (c # t) = c # cleanText t"
  by (subst cleanText.simps) simp

subsection \<open>Values\<close>

text \<open>The value read back, how deep it nests, and the numbers the reader takes as they stand.\<close>

fun cleanJson :: "json \<Rightarrow> json" where
  "cleanJson (JStr s) = JStr (cleanText s)"
| "cleanJson (JArr vs) = JArr (map cleanJson vs)"
| "cleanJson (JObj ms) = JObj (map (\<lambda>(k, v). (cleanText k, cleanJson v)) ms)"
| "cleanJson v = v"

fun nesting :: "json \<Rightarrow> nat" where
  "nesting (JArr vs) = Suc (fold max (map nesting vs) 0)"
| "nesting (JObj ms) = Suc (fold max (map (\<lambda>(k, v). nesting v) ms) 0)"
| "nesting v = 0"

definition numberEnd :: "string \<Rightarrow> bool" where
  "numberEnd r \<longleftrightarrow> r = [] \<or> hd r \<in> {CHR '','', CHR '']'', CHR ''}''}"

definition plainNumber :: "string \<Rightarrow> bool" where
  "plainNumber n \<longleftrightarrow> n \<noteq> [] \<and> list_all isDigit n \<and> (hd n = CHR ''0'' \<longrightarrow> length n = 1)"

fun plainNumbers :: "json \<Rightarrow> bool" where
  "plainNumbers (JNum n) = plainNumber n"
| "plainNumbers (JArr vs) = list_all plainNumbers vs"
| "plainNumbers (JObj ms) = list_all (\<lambda>(k, v). plainNumbers v) ms"
| "plainNumbers v = True"

lemma takeWhile_digits: "list_all isDigit n \<Longrightarrow> numberEnd r \<Longrightarrow> takeWhile isDigit (n @ r) = n"
  by (cases r) (auto simp: numberEnd_def isDigit_def list_all_iff takeWhile_append)

lemma lexNumber_plain:
  assumes "plainNumber n" and "numberEnd r"
  shows "lexNumber (n @ r) = Some (n, r)"
proof -
  obtain c m where n: "n = c # m" using assms(1) by (cases n) (auto simp: plainNumber_def)
  have c: "c \<noteq> CHR ''-''" using assms(1) n by (auto simp: plainNumber_def isDigit_def)
  have tail: "numFrac r = Some ([], r)" "numExp r = Some ([], r)"
    using assms(2) by (cases r; auto simp: numFrac_def numExp_def numberEnd_def)+
  have "numInt (n @ r) = Some (n, r)"
    using assms takeWhile_digits [of n r] n by (auto simp: numInt_def someDigits_def plainNumber_def)
  then show ?thesis using c n tail by (simp add: lexNumber_def)
qed

lemma formatUint_hd: "hd (formatUint n) = CHR ''0'' \<Longrightarrow> n = 0"
proof (induction n rule: formatUint.induct)
  case (1 n)
  show ?case
  proof (cases "n < 10")
    case True
    then have "digitChar n = CHR ''0''" using "1.prems" by (subst (asm) formatUint.simps) simp
    then have "(of_char (digitChar n) :: nat) = 48" by simp
    then show ?thesis using True by simp
  next
    case False
    then have "hd (formatUint (n div 10)) = CHR ''0''"
      using "1.prems" by (subst (asm) formatUint.simps) (simp add: hd_append)
    then show ?thesis using "1.IH" False by simp
  qed
qed

lemma plainNumber_formatUint: "plainNumber (formatUint n)"
  using formatUint_digits [of n] formatUint_hd [of n] by (auto simp: plainNumber_def formatUint.simps [of 0])

subsection \<open>Tokens of a printed value\<close>

lemma skipWs_Cons: "\<not> isSpaceChar c \<Longrightarrow> skipWs (c # s) = c # s"
  by (simp add: skipWs_def)

lemma nextToken_punct [simp]:
  "nextToken (CHR ''['' # r) = Some (TokOpenArray, r)"
  "nextToken (CHR '']'' # r) = Some (TokCloseArray, r)"
  "nextToken (CHR ''{'' # r) = Some (TokOpenObject, r)"
  "nextToken (CHR ''}'' # r) = Some (TokCloseObject, r)"
  "nextToken (CHR '','' # r) = Some (TokComma, r)"
  "nextToken (CHR '':'' # r) = Some (TokColon, r)"
  by (simp_all add: nextToken_def skipWs_Cons isSpaceChar_def)

lemma nextToken_string [simp]: "nextToken (quoteText s @ r) = Some (TokScalar (JStr (cleanText s)), r)"
  by (simp add: nextToken_def quoteText_def skipWs_Cons isSpaceChar_def lexString_escapeText)

lemma nextToken_number:
  assumes "plainNumber n" and "numberEnd r"
  shows "nextToken (n @ r) = Some (TokScalar (JNum n), r)"
proof -
  obtain c m where n: "n = c # m" using assms(1) by (cases n) (auto simp: plainNumber_def)
  then have d: "isDigit c" using assms(1) by (simp add: plainNumber_def)
  then have "skipWs (c # m @ r) = c # m @ r" by (intro skipWs_Cons) (auto simp: isSpaceChar_def isDigit_def)
  moreover have "c \<notin> set (CHR 0x22 # ''[]{},:tfn'')" using d by (auto simp: isDigit_def)
  ultimately show ?thesis using lexNumber_plain [OF assms] n by (simp add: nextToken_def)
qed

lemma nextToken_scalar:
  assumes "plainNumbers v" and "numberEnd r" and "nesting v = 0"
  shows "nextToken (printJson v @ r) = Some (TokScalar (cleanJson v), r)"
  using assms
  by (cases v) (simp_all add: nextToken_number,
      simp_all add: nextToken_def skipWs_Cons isSpaceChar_def lexWord_def cutPrefix_def)

definition finish :: "nat \<Rightarrow> json \<Rightarrow> frame list \<Rightarrow> string \<Rightarrow> (json \<times> string) option" where
  "finish depth v fs r =
     (case complete v fs of Inl w \<Rightarrow> Some (w, r) | Inr fs' \<Rightarrow> readJson depth ExpectComma fs' r)"

lemma readJson_scalar:
  assumes "plainNumbers v" and "numberEnd r" and "nesting v = 0" and "e = ExpectValue \<or> e = ExpectFirst"
  shows "readJson depth e fs (printJson v @ r) = finish depth (cleanJson v) fs r"
  using assms(4) by (subst readJson.simps) (auto simp: nextToken_scalar [OF assms(1-3)] finish_def)

fun afterComma :: "string list \<Rightarrow> string" where
  "afterComma [] = []"
| "afterComma (x # xs) = CHR '','' # x @ afterComma xs"

lemma joinComma_Cons: "joinComma (x # xs) = x @ afterComma xs"
  by (induction xs arbitrary: x) simp_all

definition readsBack :: "nat \<Rightarrow> json \<Rightarrow> bool" where
  "readsBack depth v \<longleftrightarrow>
     (\<forall>e fs r. plainNumbers v \<and> length fs + nesting v \<le> depth \<and> numberEnd r \<and> (e = ExpectValue \<or> e = ExpectFirst)
        \<longrightarrow> readJson depth e fs (printJson v @ r) = finish depth (cleanJson v) fs r)"

lemma readsBackD:
  assumes "readsBack depth v" and "plainNumbers v" and "length fs + nesting v \<le> depth" and "numberEnd r"
    and "e = ExpectValue \<or> e = ExpectFirst"
  shows "readJson depth e fs (printJson v @ r) = finish depth (cleanJson v) fs r"
  using assms by (simp add: readsBack_def)

lemma numberEnd_simps [simp]:
  "numberEnd (CHR '','' # r)" "numberEnd (CHR '']'' # r)" "numberEnd (CHR ''}'' # r)"
  "numberEnd (afterComma xs @ CHR '']'' # r)"
  "numberEnd (afterComma xs @ CHR ''}'' # r)"
  by (simp_all add: numberEnd_def) (cases xs; simp)+

lemma readJson_items:
  assumes "\<And>v. v \<in> set vs \<Longrightarrow> readsBack depth v \<and> plainNumbers v \<and> Suc (length fs) + nesting v \<le> depth"
  shows "readJson depth ExpectComma (InArray acc # fs) (afterComma (map printJson vs) @ CHR '']'' # r)
    = finish depth (JArr (rev acc @ map cleanJson vs)) fs r"
  using assms
proof (induction vs arbitrary: acc)
  case Nil
  then show ?case by (subst readJson.simps) (simp add: finish_def)
next
  case (Cons v vs)
  have "readJson depth ExpectValue (InArray acc # fs)
      (printJson v @ afterComma (map printJson vs) @ CHR '']'' # r)
      = finish depth (cleanJson v) (InArray acc # fs) (afterComma (map printJson vs) @ CHR '']'' # r)"
    using Cons.prems [of v] by (intro readsBackD) simp_all
  then show ?case using Cons.IH [of "cleanJson v # acc"] Cons.prems
    by (subst readJson.simps) (simp add: finish_def)
qed

definition printMember :: "string \<times> json \<Rightarrow> string" where
  "printMember kv = quoteText (fst kv) @ CHR '':'' # printJson (snd kv)"

definition cleanMember :: "string \<times> json \<Rightarrow> string \<times> json" where
  "cleanMember kv = (cleanText (fst kv), cleanJson (snd kv))"

lemma printJson_JObj: "printJson (JObj ms) = CHR ''{'' # joinComma (map printMember ms) @ ''}''"
proof -
  have "(\<lambda>(k, v). quoteText k @ CHR '':'' # printJson v) = printMember" by (auto simp: printMember_def)
  then show ?thesis by simp
qed

lemma cleanJson_JObj: "cleanJson (JObj ms) = JObj (map cleanMember ms)"
  by (auto simp: cleanMember_def)

lemma readJson_member:
  assumes "readsBack depth (snd kv)" and "plainNumbers (snd kv)" and "Suc (length fs) + nesting (snd kv) \<le> depth"
    and "numberEnd r" and "e = ExpectKey \<or> e = ExpectFirstKey"
  shows "readJson depth e (InObject ms # fs) (printMember kv @ r)
    = readJson depth ExpectComma (InObject (cleanMember kv # ms) # fs) r"
proof -
  have "readJson depth ExpectValue (InField (cleanText (fst kv)) ms # fs) (printJson (snd kv) @ r)
      = finish depth (cleanJson (snd kv)) (InField (cleanText (fst kv)) ms # fs) r"
    using assms by (intro readsBackD) simp_all
  then have "readJson depth (ExpectColon (cleanText (fst kv))) (InObject ms # fs) (CHR '':'' # printJson (snd kv) @ r)
      = readJson depth ExpectComma (InObject (cleanMember kv # ms) # fs) r"
    by (subst readJson.simps) (simp add: finish_def cleanMember_def)
  then show ?thesis using assms(5) by (subst readJson.simps) (auto simp: printMember_def)
qed

lemma readJson_members:
  assumes "\<And>kv. kv \<in> set ms \<Longrightarrow> readsBack depth (snd kv) \<and> plainNumbers (snd kv) \<and> Suc (length fs) + nesting (snd kv) \<le> depth"
  shows "readJson depth ExpectComma (InObject acc # fs) (afterComma (map printMember ms) @ CHR ''}'' # r)
    = finish depth (JObj (rev acc @ map cleanMember ms)) fs r"
  using assms
proof (induction ms arbitrary: acc)
  case Nil
  then show ?case by (subst readJson.simps) (simp add: finish_def)
next
  case (Cons kv ms)
  have "readJson depth ExpectKey (InObject acc # fs) (printMember kv @ afterComma (map printMember ms) @ CHR ''}'' # r)
      = readJson depth ExpectComma (InObject (cleanMember kv # acc) # fs) (afterComma (map printMember ms) @ CHR ''}'' # r)"
    using Cons.prems [of kv] by (intro readJson_member) simp_all
  then show ?case using Cons.IH [of "cleanMember kv # acc"] Cons.prems
    by (subst readJson.simps) simp
qed

lemma fold_max_le: "x \<in> set xs \<Longrightarrow> x \<le> fold max xs a" for x a :: nat
  by (metis List.finite_set Max.set_eq_fold Max_ge finite.insertI insertI2 list.simps(15))

lemma readJson_array:
  assumes "\<And>v. v \<in> set vs \<Longrightarrow> readsBack depth v"
  shows "readsBack depth (JArr vs)"
  unfolding readsBack_def
proof (intro allI impI, elim conjE)
  fix e and fs :: "frame list" and r
  assume p: "plainNumbers (JArr vs)" "length fs + nesting (JArr vs) \<le> depth" "e = ExpectValue \<or> e = ExpectFirst"
  have step: "readJson depth e fs (printJson (JArr vs) @ r)
      = readJson depth ExpectFirst (InArray [] # fs) (joinComma (map printJson vs) @ CHR '']'' # r)"
    using p(2,3) by (subst readJson.simps) auto
  have each: "readsBack depth v \<and> plainNumbers v \<and> Suc (length fs) + nesting v \<le> depth" if "v \<in> set vs" for v
    using that assms p fold_max_le [of "nesting v" "map nesting vs" 0] by (auto simp: list_all_iff)
  show "readJson depth e fs (printJson (JArr vs) @ r) = finish depth (cleanJson (JArr vs)) fs r"
  proof (cases vs)
    case Nil
    then show ?thesis unfolding step by (subst readJson.simps) (simp add: finish_def)
  next
    case (Cons v ws)
    have "readJson depth ExpectFirst (InArray [] # fs) (printJson v @ afterComma (map printJson ws) @ CHR '']'' # r)
        = finish depth (cleanJson v) (InArray [] # fs) (afterComma (map printJson ws) @ CHR '']'' # r)"
      using each [of v] Cons by (intro readsBackD) simp_all
    then show ?thesis unfolding step using Cons each readJson_items [of ws depth fs "[cleanJson v]" r]
      by (simp add: joinComma_Cons finish_def)
  qed
qed

lemma readJson_object:
  assumes "\<And>kv. kv \<in> set ms \<Longrightarrow> readsBack depth (snd kv)"
  shows "readsBack depth (JObj ms)"
  unfolding readsBack_def
proof (intro allI impI, elim conjE)
  fix e and fs :: "frame list" and r
  assume p: "plainNumbers (JObj ms)" "length fs + nesting (JObj ms) \<le> depth" "e = ExpectValue \<or> e = ExpectFirst"
  have step: "readJson depth e fs (printJson (JObj ms) @ r)
      = readJson depth ExpectFirstKey (InObject [] # fs) (joinComma (map printMember ms) @ CHR ''}'' # r)"
    using p(2,3) unfolding printJson_JObj by (subst readJson.simps) auto
  have each: "readsBack depth (snd kv) \<and> plainNumbers (snd kv) \<and> Suc (length fs) + nesting (snd kv) \<le> depth"
    if "kv \<in> set ms" for kv
    using that assms p fold_max_le [of "nesting (snd kv)" "map (\<lambda>(k, v). nesting v) ms" 0]
    by (force simp: list_all_iff image_iff)
  show "readJson depth e fs (printJson (JObj ms) @ r) = finish depth (cleanJson (JObj ms)) fs r"
  proof (cases ms)
    case Nil
    then show ?thesis unfolding step by (subst readJson.simps) (simp add: finish_def)
  next
    case (Cons kv ns)
    have "readJson depth ExpectFirstKey (InObject [] # fs) (printMember kv @ afterComma (map printMember ns) @ CHR ''}'' # r)
        = readJson depth ExpectComma (InObject [cleanMember kv] # fs) (afterComma (map printMember ns) @ CHR ''}'' # r)"
      using each [of kv] Cons by (intro readJson_member) simp_all
    then show ?thesis unfolding step cleanJson_JObj
      using Cons each readJson_members [of ns depth fs "[cleanMember kv]" r]
      by (simp add: joinComma_Cons)
  qed
qed

lemma readsBack_scalar: "nesting v = 0 \<Longrightarrow> readsBack depth v"
  unfolding readsBack_def by (intro allI impI, elim conjE, rule readJson_scalar)

lemma readsBack_all: "readsBack depth v"
proof (induction v)
  case (JArr vs)
  then show ?case by (rule readJson_array)
next
  case (JObj ms)
  then show ?case by (intro readJson_object) (auto simp: snds.simps)
qed (simp_all add: readsBack_scalar)

theorem unmarshal_printJson:
  assumes "plainNumbers v" and "nesting v \<le> maxNestingDepth"
  shows "unmarshalJson (printJson v) = Some (cleanJson v)"
proof -
  have "readJson maxNestingDepth ExpectValue [] (printJson v @ []) = finish maxNestingDepth (cleanJson v) [] []"
    using assms by (intro readsBackD readsBack_all) (simp_all add: numberEnd_def)
  then show ?thesis by (simp add: unmarshalJson_def finish_def skipWs_def)
qed

end
