(* ===== verification/Completeness.thy ===== *)
theory Completeness
  imports Auth EthState JsonText
begin

text \<open>
  Completeness of an indexer's events (\<^verbatim>\<open>completeness.go\<close>, \<^verbatim>\<open>completeness_fetch.go\<close>): the
  commitment to a block's matched logs, reading the served logs and the anchored
  commitment, and comparing them.  The theory shows that what is hashed is an unambiguous
  encoding of the block and its logs, so that a set of logs that passes is the one committed
  to, short of a collision of Keccak-256, and that a commitment is only taken from an anchor
  of the subgrove and block asked for.  Keccak-256 is a library's and an argument.
\<close>

subsection \<open>The commitment\<close>

record Log =
  logAddress :: bytes
  logTopics :: "bytes list"
  logData :: bytes

definition completenessDomainTag :: string where
  "completenessDomainTag = ''WILLOW_CRYPTO_EVENTS_V1''"

text \<open>\<^verbatim>\<open>uint32(len(...))\<close> and \<^verbatim>\<open>uint64(len(...))\<close> keep the low bits.\<close>

definition be32 :: "nat \<Rightarrow> bytes" where
  "be32 n = beBytes 4 (n mod 2 ^ 32)"

definition be64 :: "nat \<Rightarrow> bytes" where
  "be64 n = beBytes 8 (n mod 2 ^ 64)"

definition logBytes :: "Log \<Rightarrow> bytes" where
  "logBytes l =
     logAddress l @ be32 (length (logTopics l)) @ concat (logTopics l) @ be32 (length (logData l)) @ logData l"

definition eventSetBytes :: "u64 \<Rightarrow> Log list \<Rightarrow> bytes" where
  "eventSetBytes blockNumber logs =
     stringBytes completenessDomainTag @ be64 (unat blockNumber) @ be64 (length logs)
     @ concat (map logBytes logs)"

definition CanonicalEventSetHash :: "(bytes \<Rightarrow> bytes) \<Rightarrow> u64 \<Rightarrow> Log list \<Rightarrow> bytes" where
  "CanonicalEventSetHash keccak256 blockNumber matchedLogs = keccak256 (eventSetBytes blockNumber matchedLogs)"

definition VerifyServedEvents :: "(bytes \<Rightarrow> bytes) \<Rightarrow> bytes \<Rightarrow> u64 \<Rightarrow> Log list \<Rightarrow> bool" where
  "VerifyServedEvents keccak256 commitment blockNumber matchedLogs
     \<longleftrightarrow> CanonicalEventSetHash keccak256 blockNumber matchedLogs = commitment"

subsection \<open>The served logs\<close>

record matchedLogJSON =
  mlAddress :: string
  mlTopics :: "string list"
  mlData :: string

record matchedLogsResponse =
  mrSubgroveID :: string
  mrBlockNumber :: nat
  mrCount :: int
  mrMatchedLogs :: "matchedLogJSON list"

definition matchedLogFields :: "(string \<times> matchedLogJSON fieldReader) list" where
  "matchedLogFields =
     [(''address'', strField (\<lambda>t m. m\<lparr>mlAddress := t\<rparr>)),
      (''topics'', sliceField [] (strField (\<lambda>t _. t)) (\<lambda>ts m. m\<lparr>mlTopics := ts\<rparr>)),
      (''data'', strField (\<lambda>t m. m\<lparr>mlData := t\<rparr>))]"

definition zeroMatchedLog :: matchedLogJSON where
  "zeroMatchedLog = \<lparr>mlAddress = [], mlTopics = [], mlData = []\<rparr>"

definition matchedLogsFields :: "(string \<times> matchedLogsResponse fieldReader) list" where
  "matchedLogsFields =
     [(''subgrove_id'', strField (\<lambda>t r. r\<lparr>mrSubgroveID := t\<rparr>)),
      (''block_number'', uintField 64 (\<lambda>n r. r\<lparr>mrBlockNumber := n\<rparr>)),
      (''count'', intField 64 (\<lambda>n r. r\<lparr>mrCount := n\<rparr>)),
      (''matched_logs'', sliceField zeroMatchedLog (decodeStruct matchedLogFields) (\<lambda>ls r. r\<lparr>mrMatchedLogs := ls\<rparr>))]"

definition decodeHexBytes :: "string \<Rightarrow> hexError + bytes" where
  "decodeHexBytes s = hexDecode (trimPrefix ''0x'' s)"

datatype logError =
    BadAddressHex string hexError | AddressLength nat
  | BadTopicHex string hexError | TopicLength nat
  | BadDataHex string hexError

definition parseTopic :: "string \<Rightarrow> logError + bytes" where
  "parseTopic t =
     (case decodeHexBytes t of
        Inl e \<Rightarrow> Inl (BadTopicHex t e)
      | Inr tb \<Rightarrow> if length tb \<noteq> 32 then Inl (TopicLength (length tb)) else Inr tb)"

definition parseMatchedLog :: "matchedLogJSON \<Rightarrow> logError + Log" where
  "parseMatchedLog m =
     (case decodeHexBytes (mlAddress m) of
        Inl e \<Rightarrow> Inl (BadAddressHex (mlAddress m) e)
      | Inr addr \<Rightarrow>
          if length addr \<noteq> 20 then Inl (AddressLength (length addr))
          else bindR (mapR parseTopic (mlTopics m)) (\<lambda>topics.
            case decodeHexBytes (mlData m) of
              Inl e \<Rightarrow> Inl (BadDataHex (mlData m) e)
            | Inr d \<Rightarrow> Inr \<lparr>logAddress = addr, logTopics = topics, logData = d\<rparr>))"

datatype completenessError =
    SdkFault sdkError
  | BadMatchedLog nat logError
  | OtherAnchor string nat

definition parseMatchedLogs :: "string \<Rightarrow> completenessError + Log list" where
  "parseMatchedLogs body =
     (case Unmarshal (decodeWith matchedLogsFields
                        \<lparr>mrSubgroveID = [], mrBlockNumber = 0, mrCount = 0, mrMatchedLogs = []\<rparr>) body of
        Inl e \<Rightarrow> Inl (SdkFault (NewSerializationError ''failed to unmarshal matched-logs response'' (Some (decodeErr e))))
      | Inr resp \<Rightarrow>
          mapR (\<lambda>(i, m). case parseMatchedLog m of Inl e \<Rightarrow> Inl (BadMatchedLog i e) | Inr l \<Rightarrow> Inr l)
            (enumerate 0 (mrMatchedLogs resp)))"

text \<open>
  The answer to a request: no request, no answer, or a status and a body.  The network is what
  the RPC node answers to a query of a path and what an indexer answers to a URL and headers,
  beside the client's identity, the library it signs with and the clock.
\<close>

datatype httpAnswer = Unrequested sdkError | NoReply sdkError | Reply int source

record completenessNet =
  cnSpare :: "nat \<Rightarrow> nat"
  cnRpc :: "string \<Rightarrow> string \<Rightarrow> httpAnswer"
  cnIndexer :: "string \<Rightarrow> (string \<times> string) list \<Rightarrow> httpAnswer"
  cnIdentity :: "Identity option"
  cnLib :: cryptoLib
  cnNow :: int

definition matchedLogsPath :: "string \<Rightarrow> u64 \<Rightarrow> string" where
  "matchedLogsPath subgroveID blockNumber =
     ''/completeness/'' @ subgroveID @ ''/'' @ formatUint (unat blockNumber) @ ''/matched-logs''"

text \<open>The request is signed in the older form when the client has an identity and signing works.\<close>

definition matchedLogsHeaders :: "completenessNet \<Rightarrow> string \<Rightarrow> (string \<times> string) list" where
  "matchedLogsHeaders w path =
     (''Accept'', ''application/json'') #
     (case cnIdentity w of
        None \<Rightarrow> []
      | Some i \<Rightarrow> (case SignRequest (cnLib w) i (cnNow w) ''GET'' path of Inl _ \<Rightarrow> [] | Inr headers \<Rightarrow> headers))"

definition FetchMatchedLogs ::
  "completenessNet \<Rightarrow> ClientState \<Rightarrow> string \<Rightarrow> u64 \<Rightarrow> completenessError + Log list" where
  "FetchMatchedLogs w c subgroveID blockNumber =
     (case clIndexerURL c of
        None \<Rightarrow> Inl (SdkFault (NewConfigError
                  ''matched logs are served by indexers: configure one with WithIndexerURL''))
      | Some _ \<Rightarrow>
          let path = matchedLogsPath subgroveID blockNumber in
          (case cnIndexer w (IndexerBaseURL c @ path) (matchedLogsHeaders w path) of
             Unrequested e \<Rightarrow> Inl (SdkFault (NewNetworkError ''failed to create matched-logs request'' e))
           | NoReply e \<Rightarrow> Inl (SdkFault (NewNetworkError ''matched-logs request failed'' e))
           | Reply status body \<Rightarrow>
               (case ReadAll (cnSpare w) body Large of
                  Inl e \<Rightarrow> Inl (SdkFault (NewNetworkError ''failed to read matched-logs response'' (ioErr e)))
                | Inr raw \<Rightarrow>
                    if status \<noteq> 200 then Inl (SdkFault (handleErrorResponse status raw))
                    else parseMatchedLogs raw)))"

subsection \<open>The anchor\<close>

record abciResponse =
  arCode :: int
  arLog :: string
  arValue :: string
  arError :: "string option"

definition abciFields :: "(string \<times> abciResponse fieldReader) list" where
  "abciFields =
     [(''result'', decodeStruct
         [(''response'', decodeStruct
             [(''code'', intField 64 (\<lambda>n r. r\<lparr>arCode := n\<rparr>)), (''log'', strField (\<lambda>t r. r\<lparr>arLog := t\<rparr>)),
              (''value'', strField (\<lambda>t r. r\<lparr>arValue := t\<rparr>))])]),
      (''error'', (\<lambda>r v. case v of
         JNull \<Rightarrow> Some (r\<lparr>arError := None\<rparr>)
       | _ \<Rightarrow> decodeStruct [(''message'', strField (\<lambda>t r. r\<lparr>arError := Some t\<rparr>))]
                (r\<lparr>arError := Some (case arError r of None \<Rightarrow> [] | Some m \<Rightarrow> m)\<rparr>) v))]"

record anchor =
  anSubgroveID :: string
  anBlockNumber :: nat
  anCommitment :: string

definition anchorFields :: "(string \<times> anchor fieldReader) list" where
  "anchorFields =
     [(''subgrove_id'', strField (\<lambda>t a. a\<lparr>anSubgroveID := t\<rparr>)),
      (''block_number'', uintField 64 (\<lambda>n a. a\<lparr>anBlockNumber := n\<rparr>)),
      (''events_commitment'', strField (\<lambda>t a. a\<lparr>anCommitment := t\<rparr>))]"

definition checkAnchor :: "string \<Rightarrow> u64 \<Rightarrow> anchor \<Rightarrow> completenessError + bytes" where
  "checkAnchor subgroveID blockNumber a =
     (if anSubgroveID a \<noteq> subgroveID \<or> anBlockNumber a \<noteq> unat blockNumber
      then Inl (OtherAnchor (anSubgroveID a) (anBlockNumber a))
      else case hexDecode (trimPrefix ''0x'' (anCommitment a)) of
        Inl e \<Rightarrow> Inl (SdkFault (NewSerializationError ''failed to decode events_commitment hex'' (Some (Foreign ''hex''))))
      | Inr commitment \<Rightarrow>
          if length commitment \<noteq> 32
          then Inl (SdkFault (NewValidationError (''events_commitment must be 32 bytes, got '' @ formatUint (length commitment))))
          else Inr commitment)"

definition readAnchor :: "string \<Rightarrow> u64 \<Rightarrow> abciResponse \<Rightarrow> completenessError + bytes" where
  "readAnchor subgroveID blockNumber r =
     (case arError r of
        Some m \<Rightarrow> Inl (SdkFault (NewConsensusError (''abci_query RPC error: '' @ m) None))
      | None \<Rightarrow>
          if arCode r \<noteq> 0
          then Inl (SdkFault (NewNotFoundError (''no events commitment for block '' @ formatUint (unat blockNumber)
                                @ '': '' @ arLog r)))
          else (case b64Std (b64Strip (arValue r)) of
                  None \<Rightarrow> Inl (SdkFault (NewSerializationError ''failed to base64-decode abci_query value''
                              (Some (Foreign ''base64''))))
                | Some valueBytes \<Rightarrow>
                    (case decodeWith anchorFields \<lparr>anSubgroveID = [], anBlockNumber = 0, anCommitment = []\<rparr>
                            (textOfBytes valueBytes) of
                       Inl e \<Rightarrow> Inl (SdkFault (NewSerializationError
                                  ''failed to unmarshal events_commitment anchor'' (Some e)))
                     | Inr a \<Rightarrow> checkAnchor subgroveID blockNumber a)))"

definition anchorPath :: "string \<Rightarrow> u64 \<Rightarrow> string" where
  "anchorPath subgroveID blockNumber =
     ''/store/events_commitment/'' @ subgroveID @ ''/'' @ formatUint (unat blockNumber)"

definition FetchEventsCommitment ::
  "completenessNet \<Rightarrow> ClientState \<Rightarrow> string \<Rightarrow> u64 \<Rightarrow> completenessError + bytes" where
  "FetchEventsCommitment w c subgroveID blockNumber =
     (case cnRpc w (RPCEndpoint c) (anchorPath subgroveID blockNumber) of
        Unrequested e \<Rightarrow> Inl (SdkFault (NewNetworkError ''failed to create abci_query request'' e))
      | NoReply e \<Rightarrow> Inl (SdkFault (NewNetworkError ''abci_query request failed'' e))
      | Reply status body \<Rightarrow>
          (case Decode (cnSpare w) (decodeWith abciFields \<lparr>arCode = 0, arLog = [], arValue = [], arError = None\<rparr>)
                  body Small of
             Inl e \<Rightarrow> Inl (SdkFault (NewSerializationError ''failed to decode abci_query response'' (Some (decodeErr e))))
           | Inr r \<Rightarrow> readAnchor subgroveID blockNumber r))"

definition VerifyBlockCompleteness ::
  "(bytes \<Rightarrow> bytes) \<Rightarrow> completenessNet \<Rightarrow> ClientState \<Rightarrow> string \<Rightarrow> u64 \<Rightarrow> completenessError + bool" where
  "VerifyBlockCompleteness keccak256 w c subgroveID blockNumber =
     bindR (FetchEventsCommitment w c subgroveID blockNumber) (\<lambda>commitment.
     bindR (FetchMatchedLogs w c subgroveID blockNumber) (\<lambda>logs.
       Inr (VerifyServedEvents keccak256 commitment blockNumber logs)))"

subsection \<open>Lemmas: the encoding\<close>

definition wfLog :: "Log \<Rightarrow> bool" where
  "wfLog l \<longleftrightarrow> length (logAddress l) = 20 \<and> list_all (\<lambda>t. length t = 32) (logTopics l)
     \<and> length (logTopics l) < 2 ^ 32 \<and> length (logData l) < 2 ^ 32"

definition wfLogs :: "Log list \<Rightarrow> bool" where
  "wfLogs logs \<longleftrightarrow> list_all wfLog logs \<and> length logs < 2 ^ 64"

text \<open>The arrays of a \<^verbatim>\<open>Log\<close> have the lengths of their Go types.\<close>

definition typedLog :: "Log \<Rightarrow> bool" where
  "typedLog l \<longleftrightarrow> length (logAddress l) = 20 \<and> list_all (\<lambda>t. length t = 32) (logTopics l)"

lemma be32_cut: "m < 2 ^ 32 \<Longrightarrow> n < 2 ^ 32 \<Longrightarrow> be32 m @ r = be32 n @ s \<longleftrightarrow> m = n \<and> r = s"
  by (auto simp: be32_def append_eq_append_conv beBytes_inj)

lemma be64_cut: "m < 2 ^ 64 \<Longrightarrow> n < 2 ^ 64 \<Longrightarrow> be64 m @ r = be64 n @ s \<longleftrightarrow> m = n \<and> r = s"
  by (auto simp: be64_def append_eq_append_conv beBytes_inj)

interpretation topicCode: prefix_free "\<lambda>t :: bytes. length t = 32" "\<lambda>t. t"
  by unfold_locales (simp add: append_eq_append_conv)

lemma topics_cut:
  "list_all (\<lambda>t. length t = 32) xs \<Longrightarrow> list_all (\<lambda>t. length t = 32) ys \<Longrightarrow> length xs = length ys \<Longrightarrow>
   concat xs @ r = concat ys @ s \<Longrightarrow> xs = ys \<and> r = s" for xs ys :: "bytes list"
  using topicCode.concat_cut [of xs ys r s] by (simp add: map_ident)

lemma logBytes_cut:
  assumes "wfLog x" and "wfLog y" and "logBytes x @ r = logBytes y @ s"
  shows "x = y \<and> r = s"
proof -
  have "logAddress x @ be32 (length (logTopics x)) @ concat (logTopics x) @ be32 (length (logData x)) @ logData x @ r
      = logAddress y @ be32 (length (logTopics y)) @ concat (logTopics y) @ be32 (length (logData y)) @ logData y @ s"
    using assms(3) by (simp add: logBytes_def)
  then have addr: "logAddress x = logAddress y" and
    t: "be32 (length (logTopics x)) @ concat (logTopics x) @ be32 (length (logData x)) @ logData x @ r
      = be32 (length (logTopics y)) @ concat (logTopics y) @ be32 (length (logData y)) @ logData y @ s"
    using assms(1,2) by (simp_all add: wfLog_def append_eq_append_conv)
  then have len: "length (logTopics x) = length (logTopics y)" and
    u: "concat (logTopics x) @ be32 (length (logData x)) @ logData x @ r
      = concat (logTopics y) @ be32 (length (logData y)) @ logData y @ s"
    using assms(1,2) be32_cut by (simp_all add: wfLog_def)
  then have topics: "logTopics x = logTopics y" and
    v: "be32 (length (logData x)) @ logData x @ r = be32 (length (logData y)) @ logData y @ s"
    using assms(1,2) topics_cut [OF _ _ len u] by (simp_all add: wfLog_def)
  then have "logData x @ r = logData y @ s" "length (logData x) = length (logData y)"
    using assms(1,2) be32_cut by (simp_all add: wfLog_def)
  then show ?thesis using addr topics by (simp add: append_eq_append_conv)
qed

interpretation logCode: prefix_free wfLog logBytes
  by unfold_locales (rule logBytes_cut)

lemma eventSetBytes_inj:
  assumes "wfLogs xs" and "wfLogs ys"
  shows "eventSetBytes m xs = eventSetBytes n ys \<longleftrightarrow> m = n \<and> xs = ys"
proof
  assume "eventSetBytes m xs = eventSetBytes n ys"
  then have eq: "be64 (unat m) @ be64 (length xs) @ concat (map logBytes xs) @ []
      = be64 (unat n) @ be64 (length ys) @ concat (map logBytes ys) @ []"
    by (simp add: eventSetBytes_def)
  have u: "unat m < 2 ^ 64" "unat n < 2 ^ 64" using unsigned_less [of m] unsigned_less [of n] by simp_all
  from eq have "unat m = unat n" and t: "be64 (length xs) @ concat (map logBytes xs) @ []
      = be64 (length ys) @ concat (map logBytes ys) @ []"
    using be64_cut [OF u] by blast+
  moreover from t have "length xs = length ys" "concat (map logBytes xs) @ [] = concat (map logBytes ys) @ []"
    using assms be64_cut by (simp_all add: wfLogs_def)
  ultimately show "m = n \<and> xs = ys"
    using logCode.concat_cut [of xs ys "[]" "[]"] assms by (simp add: wfLogs_def unat_inj)
qed simp

lemma parseTopic_length: "parseTopic t = Inr b \<Longrightarrow> length b = 32"
  by (auto simp: parseTopic_def split: sum.splits if_splits)

lemma parseTopics_length: "mapR parseTopic ts = Inr bs \<Longrightarrow> list_all (\<lambda>t. length t = 32) bs"
  by (induction ts arbitrary: bs) (auto simp: bindR_eq_Inr parseTopic_length)

lemma parseMatchedLog_shape:
  "parseMatchedLog m = Inr l \<Longrightarrow>
     length (logAddress l) = 20 \<and> list_all (\<lambda>t. length t = 32) (logTopics l)"
  by (cases "decodeHexBytes (mlAddress m)"; cases "decodeHexBytes (mlData m)")
    (auto simp: parseMatchedLog_def bindR_eq_Inr parseTopics_length split: if_splits)

lemma served_verified:
  assumes "VerifyBlockCompleteness keccak256 w c subgroveID n = Inr True"
    and "FetchEventsCommitment w c subgroveID n = Inr commitment"
    and "FetchMatchedLogs w c subgroveID n = Inr served"
  shows "VerifyServedEvents keccak256 commitment n served"
  using assms by (simp add: VerifyBlockCompleteness_def)

lemma parseMatchedLogs_typed: "parseMatchedLogs body = Inr logs \<Longrightarrow> list_all typedLog logs"
  unfolding parseMatchedLogs_def
  by (auto simp: typedLog_def dest!: parseMatchedLog_shape elim!: mapR_all split: sum.splits prod.splits)

subsection \<open>Properties\<close>

text \<open>
  C39: when the completeness check of a block passes against an anchor that commits to a
  list of logs of some block, the logs the indexer served are exactly those logs, in order,
  and the anchored block is the one asked for, unless Keccak-256 collides on the two
  encodings.
\<close>

theorem completeness_binds_events:
  assumes "VerifyBlockCompleteness keccak256 w c subgroveID n = Inr True"
    and "FetchEventsCommitment w c subgroveID n = Inr (CanonicalEventSetHash keccak256 n' committed)"
    and "FetchMatchedLogs w c subgroveID n = Inr served"
    and "wfLogs served" and "wfLogs committed"
    and "keccak256 (eventSetBytes n served) = keccak256 (eventSetBytes n' committed)
      \<Longrightarrow> eventSetBytes n served = eventSetBytes n' committed"
  shows "served = committed \<and> n' = n"
proof -
  have "keccak256 (eventSetBytes n served) = keccak256 (eventSetBytes n' committed)"
    using served_verified [OF assms(1-3)]
    unfolding VerifyServedEvents_def CanonicalEventSetHash_def .
  from assms(6) [OF this] show ?thesis using eventSetBytes_inj [OF assms(4,5), of n n'] by simp
qed

text \<open>
  C40: whatever an indexer answers, the logs a client reads from it are well typed: every
  address is 20 bytes and every topic 32, so copying them into the arrays of a log neither
  cuts nor pads.
\<close>

theorem served_logs_typed:
  assumes "FetchMatchedLogs w c subgroveID n = Inr logs"
  shows "list_all typedLog logs"
  using assms by (auto simp: FetchMatchedLogs_def Let_def parseMatchedLogs_typed
    split: option.splits httpAnswer.splits sum.splits if_splits)

text \<open>
  A commitment is only ever taken from an anchor that names the subgrove and the block
  asked for, and is 32 bytes.
\<close>

lemma commitment_is_asked_for:
  assumes "FetchEventsCommitment w c subgroveID n = Inr commitment"
  shows "length commitment = 32
    \<and> (\<exists>a :: anchor. anSubgroveID a = subgroveID \<and> anBlockNumber a = unat n
         \<and> hexDecode (trimPrefix ''0x'' (anCommitment a)) = Inr commitment)"
proof -
  obtain r where "readAnchor subgroveID n r = Inr commitment"
    using assms by (auto simp: FetchEventsCommitment_def split: sum.splits httpAnswer.splits)
  then obtain a where "checkAnchor subgroveID n a = Inr commitment"
    by (auto simp: readAnchor_def split: option.splits if_splits sum.splits)
  then have "anSubgroveID a = subgroveID \<and> anBlockNumber a = unat n
      \<and> hexDecode (trimPrefix ''0x'' (anCommitment a)) = Inr commitment \<and> length commitment = 32"
    by (auto simp: checkAnchor_def split: if_splits sum.splits)
  then show ?thesis by blast
qed

subsection \<open>Witnesses\<close>

definition sampleAnchorValue :: string where
  "sampleAnchorValue = ''eyJzdWJncm92ZV9pZCI6InMiLCJibG9ja19udW1iZXIiOjksImV2ZW50c19jb21taXRtZW50Ijoi''
     @ ''MDcwNzA3MDcwNzA3MDcwNzA3MDcwNzA3MDcwNzA3MDcwNzA3MDcwNzA3MDcwNzA3MDcwNzA3MDcwNzA3MDcwNyJ9''"

definition sampleCommitment :: string where
  "sampleCommitment = concat (replicate 32 ''07'')"

definition sampleAnchorJson :: json where
  "sampleAnchorJson =
     JObj [(''subgrove_id'', JStr ''s''), (''block_number'', JNum ''9''), (''events_commitment'', JStr sampleCommitment)]"

definition sampleAnswerJson :: json where
  "sampleAnswerJson =
     JObj [(''result'', JObj [(''response'', JObj [(''code'', JNum ''0''), (''value'', JStr sampleAnchorValue)])])]"

definition sampleLog :: Log where
  "sampleLog = \<lparr>logAddress = replicate 20 0x11, logTopics = [replicate 32 0x22], logData = [1]\<rparr>"

definition sampleLogsJson :: json where
  "sampleLogsJson =
     JObj [(''matched_logs'', JArr [JObj [(''address'', JStr (''0x'' @ replicate 40 (CHR ''1''))),
       (''topics'', JArr [JStr (replicate 64 (CHR ''2''))]), (''data'', JStr ''0x01'')]])]"

definition sevens :: "bytes \<Rightarrow> bytes" where
  "sevens b = replicate 32 7"

definition sampleReply :: "string \<Rightarrow> httpAnswer" where
  "sampleReply s = Reply 200 \<lparr>chunks = [s], ending = EOF\<rparr>"

definition sampleCompletenessClient :: ClientState where
  "sampleCompletenessClient =
     \<lparr>clHttp = OwnClient, clTimeout = 0, clBaseURL = \<lparr>uScheme = [], uHostname = [], uPort = [], uText = []\<rparr>,
      clIndexerURL = Some \<lparr>uScheme = [], uHostname = [], uPort = [], uText = []\<rparr>, clRpcURL = None,
      clApiKey = [], clRetry = DefaultRetryConfig, clLightClient = None, clKeyOrigins = None\<rparr>"

definition sampleNet :: completenessNet where
  "sampleNet =
     \<lparr>cnSpare = \<lambda>n. 0, cnRpc = \<lambda>_ _. sampleReply (printJson sampleAnswerJson), cnIndexer = \<lambda>_ _. sampleReply (printJson sampleLogsJson),
      cnIdentity = None,
      cnLib = \<lparr>sha3Sum256 = id, libKeccak256 = id, ed25519Sign = \<lambda>_ m. m, ed25519Verify = \<lambda>_ _ _. False,
        secpPrivate = \<lambda>_. None, secpPublic = id, secpParse = \<lambda>_. None, secpSign = \<lambda>_ _. (1, 1),
        secpVerify = \<lambda>_ _ _. False, secpOrder = 0, derRead = \<lambda>_. None, derWrite = \<lambda>_. []\<rparr>,
      cnNow = 0\<rparr>"

lemma sample_answers_small:
  "CheckJSON (printJson sampleAnswerJson) = Inr ()" "length (printJson sampleAnswerJson) < 400"
  by code_simp+

lemma sample_logs_small: "CheckJSON (printJson sampleLogsJson) = Inr ()" "length (printJson sampleLogsJson) < 400"
  by code_simp+

lemma sample_value: "b64Std (b64Strip sampleAnchorValue) = Some (stringBytes (printJson sampleAnchorJson))"
  by code_simp

lemma sample_commitment: "hexDecode (trimPrefix ''0x'' sampleCommitment) = Inr (replicate 32 7)"
  by code_simp

lemma sample_texts_clean:
  "cleanText sampleAnchorValue = sampleAnchorValue" "cleanText sampleCommitment = sampleCommitment"
  by (rule cleanText_valid, code_simp)+

lemma sample_answers_clean:
  "cleanJson sampleAnswerJson = sampleAnswerJson" "cleanJson sampleAnchorJson = sampleAnchorJson"
  by (simp_all add: sampleAnswerJson_def sampleAnchorJson_def sample_texts_clean charNat_def)

lemma sample_answers_read:
  "unmarshalJson (printJson sampleAnswerJson) = Some sampleAnswerJson"
  "unmarshalJson (printJson sampleAnchorJson) = Some sampleAnchorJson"
  using unmarshal_printJson [of sampleAnswerJson] unmarshal_printJson [of sampleAnchorJson]
  unfolding sample_answers_clean
  by (simp_all add: sampleAnswerJson_def sampleAnchorJson_def plainNumber_def isDigit_def maxNestingDepth_def)

lemma sample_structs:
  "decodeStruct abciFields \<lparr>arCode = 0, arLog = [], arValue = [], arError = None\<rparr> sampleAnswerJson
     = Some \<lparr>arCode = 0, arLog = [], arValue = sampleAnchorValue, arError = None\<rparr>"
  "decodeStruct anchorFields \<lparr>anSubgroveID = [], anBlockNumber = 0, anCommitment = []\<rparr> sampleAnchorJson
     = Some \<lparr>anSubgroveID = ''s'', anBlockNumber = 9, anCommitment = sampleCommitment\<rparr>"
  by code_simp+

lemma sample_answers_decoded:
  "decodeWith abciFields \<lparr>arCode = 0, arLog = [], arValue = [], arError = None\<rparr> (printJson sampleAnswerJson)
     = Inr \<lparr>arCode = 0, arLog = [], arValue = sampleAnchorValue, arError = None\<rparr>"
  "decodeWith anchorFields \<lparr>anSubgroveID = [], anBlockNumber = 0, anCommitment = []\<rparr> (printJson sampleAnchorJson)
     = Inr \<lparr>anSubgroveID = ''s'', anBlockNumber = 9, anCommitment = sampleCommitment\<rparr>"
  by (simp_all only: decodeWith_def sample_answers_read sample_structs option.case)

lemma sample_logs: "parseMatchedLogs (printJson sampleLogsJson) = Inr [sampleLog]"
  by code_simp

lemma sample_fetch:
  "FetchEventsCommitment sampleNet sampleCompletenessClient ''s'' 9 = Inr (CanonicalEventSetHash sevens 9 [sampleLog])"
  "FetchMatchedLogs sampleNet sampleCompletenessClient ''s'' 9 = Inr [sampleLog]"
proof -
  have small: "length (printJson sampleAnswerJson) \<le> Small" "length (printJson sampleLogsJson) \<le> Large"
    using sample_answers_small(2) sample_logs_small(2) by (simp_all add: Small_def Large_def)
  have "readAnchor ''s'' 9 \<lparr>arCode = 0, arLog = [], arValue = sampleAnchorValue, arError = None\<rparr> = Inr (replicate 32 7)"
    by (simp add: readAnchor_def checkAnchor_def sample_value sample_answers_decoded sample_commitment)
  then show "FetchEventsCommitment sampleNet sampleCompletenessClient ''s'' 9 = Inr (CanonicalEventSetHash sevens 9 [sampleLog])"
    using small(1)
    by (simp add: FetchEventsCommitment_def sampleNet_def sampleReply_def Decode_def Unmarshal_def ReadAll_eq liftE_def
          CanonicalEventSetHash_def sevens_def sample_answers_small(1) sample_answers_decoded(1))
  show "FetchMatchedLogs sampleNet sampleCompletenessClient ''s'' 9 = Inr [sampleLog]"
    using small(2) sample_logs
    by (simp add: FetchMatchedLogs_def sampleNet_def sampleReply_def sampleCompletenessClient_def ReadAll_eq Let_def)
qed

lemma sample_wfLogs: "wfLogs [sampleLog]"
  by (simp add: wfLogs_def wfLog_def sampleLog_def)

theorem completeness_binds_events_witness:
  "VerifyBlockCompleteness sevens sampleNet sampleCompletenessClient ''s'' 9 = Inr True
     \<and> [sampleLog] = [sampleLog] \<and> (9 :: u64) = 9"
proof -
  have ok: "VerifyBlockCompleteness sevens sampleNet sampleCompletenessClient ''s'' 9 = Inr True"
    by (simp add: VerifyBlockCompleteness_def sample_fetch VerifyServedEvents_def)
  from completeness_binds_events [OF ok sample_fetch(1) sample_fetch(2) sample_wfLogs sample_wfLogs refl] ok
  show ?thesis by blast
qed

theorem served_logs_typed_witness: "list_all typedLog [sampleLog]"
  by (rule served_logs_typed [OF sample_fetch(2)])

end
