(* ===== verification/Wire.thy ===== *)
theory Wire
  imports JsonText Errors
begin

text \<open>
  Structs on the wire: what the writers and the field readers of the SDK's structs share.
  ASCII texts and UTF-8 texts are written and read back unchanged, numbers are plain, and a
  member of the type its field expects sets the field.
\<close>

subsection \<open>Texts and values\<close>

definition asciiText :: "string \<Rightarrow> bool" where
  "asciiText s \<longleftrightarrow> list_all (\<lambda>c. charNat c < 0x80) s"

lemma cleanText_asciiText: "asciiText s \<Longrightarrow> cleanText s = s"
  by (induction s) (simp_all add: asciiText_def)

lemma asciiText_append [simp]: "asciiText (s @ t) \<longleftrightarrow> asciiText s \<and> asciiText t"
  by (simp add: asciiText_def)

lemma asciiText_Cons [simp]: "asciiText (c # t) \<longleftrightarrow> charNat c < 0x80 \<and> asciiText t"
  by (simp add: asciiText_def)

lemma asciiText_Nil [simp]: "asciiText []"
  by (simp add: asciiText_def)

lemma cleanJson_texts: "list_all asciiText ts \<Longrightarrow> map cleanJson (map JStr ts) = map JStr ts"
  by (induction ts) (simp_all add: cleanText_asciiText)

lemma cleanJson_uint [simp]: "cleanJson (uintJson n) = uintJson n"
  by (simp add: uintJson_def)

lemma fold_max_bound: "\<forall>x \<in> set xs. x \<le> b \<Longrightarrow> a \<le> b \<Longrightarrow> fold max xs a \<le> b" for a b :: nat
  by (induction xs arbitrary: a) simp_all

lemma plain_texts: "list_all plainNumbers (map JStr ts)" "fold max (map nesting (map JStr ts)) 0 = 0"
  by (simp_all add: list_all_iff) (induction ts; simp)

lemma plain_uint [simp]: "plainNumbers (uintJson n)" "nesting (uintJson n) = 0"
  by (simp_all add: uintJson_def plainNumber_formatUint)

subsection \<open>Members\<close>

lemma textField_read: "strField (\<lambda>t _. t) [] (JStr s) = Some s"
  by (simp add: strField_def)

lemma sliceField_texts: "sliceField [] (strField (\<lambda>t _. t)) upd s (JArr (map JStr ts)) = Some (upd ts s)"
  by (simp add: sliceField_def textField_read list_all_iff o_def)

lemma sliceField_raw: "sliceField JNull (rawField (\<lambda>v _. v)) upd s (JArr vs) = Some (upd vs s)"
  by (simp add: sliceField_def rawField_def list_all_iff o_def)

lemma uintField_word: "uintField 64 upd s (uintJson (unat w)) = Some (upd (unat w) s)" for w :: u64
  using unsigned_less [of w] by (simp add: uintField_def uintJson_def parseUint_formatUint)

lemma strField_JStr: "strField upd s (JStr t) = Some (upd t s)"
  by (simp add: strField_def)

lemma decodeFirst_unmarshal: "unmarshalJson s = Some v \<Longrightarrow> decodeFirst s = Some v"
  by (auto simp: unmarshalJson_def decodeFirst_def split: option.splits if_splits)

lemma boolField_JBool: "boolField upd s (JBool b) = Some (upd b s)"
  by (simp add: boolField_def)

lemma strPtrField_JStr: "strPtrField upd s (JStr t) = Some (upd (Some t) s)"
  by (simp add: strPtrField_def)

lemmas field_reads = sliceField_texts sliceField_raw uintField_word strField_JStr boolField_JBool strPtrField_JStr

lemma unmarshal_clean:
  assumes "plainNumbers v" and "nesting v \<le> 100" and "cleanJson v = v"
  shows "unmarshalJson (printJson v) = Some v"
  using unmarshal_printJson [OF assms(1)] assms(2,3) by (simp add: maxNestingDepth_def)

text \<open>What every field reader of a struct keeps, decoding it keeps.\<close>

lemma find_mem: "find P xs = Some x \<Longrightarrow> x \<in> set xs"
  by (induction xs) (auto split: if_splits)

lemma fieldFor_mem: "fieldFor fs k = Some f \<Longrightarrow> f \<in> snd ` set fs"
proof (cases "map_of fs k")
  case None
  assume "fieldFor fs k = Some f"
  then obtain p where "find (\<lambda>(n, f). foldName n = foldName k) fs = Some p" "f = snd p"
    using None by (auto simp: fieldFor_def)
  then show ?thesis using find_mem by fastforce
next
  case (Some g)
  assume "fieldFor fs k = Some f"
  then have "(k, f) \<in> set fs" using Some by (simp add: fieldFor_def map_of_SomeD)
  then show ?thesis by (rule image_eqI [rotated]) simp
qed

lemma decodeFields_keeps:
  assumes "\<And>f s v s'. f \<in> snd ` set fs \<Longrightarrow> P s \<Longrightarrow> f s v = Some s' \<Longrightarrow> P s'"
  shows "decodeFields fs ms s = Some r \<Longrightarrow> P s \<Longrightarrow> P r"
proof (induction ms arbitrary: s)
  case (Cons kv ms)
  show ?case
  proof (cases "fieldFor fs (fst kv)")
    case (Some f)
    then obtain s' where step: "f s (snd kv) = Some s'" and rest: "decodeFields fs ms s' = Some r"
      using Cons.prems(1) by (auto split: option.splits)
    have "P s'" by (rule assms [OF fieldFor_mem [OF Some] Cons.prems(2) step])
    then show ?thesis using Cons.IH rest by blast
  next
    case None
    then show ?thesis using Cons by simp
  qed
qed simp

lemma decodeStruct_keeps:
  assumes "decodeStruct fs s v = Some r" and "P s"
    and "\<And>f s v s'. f \<in> snd ` set fs \<Longrightarrow> P s \<Longrightarrow> f s v = Some s' \<Longrightarrow> P s'"
  shows "P r"
proof (cases v)
  case (JObj ms)
  then have "decodeFields fs ms s = Some r" using assms(1) by (simp add: decodeStruct_def)
  then show ?thesis using assms(2) by (rule decodeFields_keeps [rotated]) (rule assms(3))
qed (use assms(1,2) in \<open>simp_all add: decodeStruct_def\<close>)

end
