(* ===== verification/Manifest.thy ===== *)
theory Manifest
  imports Auth Wire
begin

text \<open>
  Manifests of indexed subgroves (\<^verbatim>\<open>manifest.go\<close>): the chains, the checks of a manifest, the
  bytes that go on chain and reading them back.  A data source is a value of a sum type, so
  a nil interface is outside the model.  The regular expressions match whole texts of ASCII
  classes and are written as predicates on characters.

  The theory shows that a manifest passes the checks exactly when it meets the canonical
  schema stated as a predicate, that what is serialized is read back as the manifest with its
  hexadecimal texts in lower case, and that whatever is read meets the schema.
\<close>

subsection \<open>Chains\<close>

type_synonym SupportedChain = string

definition ChainMainnet :: SupportedChain where "ChainMainnet = ''mainnet''"
definition ChainSepolia :: SupportedChain where "ChainSepolia = ''sepolia''"
definition ChainHolesky :: SupportedChain where "ChainHolesky = ''holesky''"
definition ChainBsc :: SupportedChain where "ChainBsc = ''bsc''"
definition ChainOptimism :: SupportedChain where "ChainOptimism = ''optimism''"
definition ChainArbitrumOne :: SupportedChain where "ChainArbitrumOne = ''arbitrum-one''"
definition ChainBase :: SupportedChain where "ChainBase = ''base''"
definition ChainPolygon :: SupportedChain where "ChainPolygon = ''polygon''"
definition ChainSolanaMainnet :: SupportedChain where "ChainSolanaMainnet = ''solana-mainnet''"

lemmas chain_defs = ChainMainnet_def ChainSepolia_def ChainHolesky_def ChainBsc_def ChainOptimism_def
  ChainArbitrumOne_def ChainBase_def ChainPolygon_def ChainSolanaMainnet_def

definition SupportedChains :: "SupportedChain list" where
  "SupportedChains =
     [ChainMainnet, ChainSepolia, ChainHolesky, ChainBsc, ChainOptimism, ChainArbitrumOne, ChainBase,
      ChainPolygon, ChainSolanaMainnet]"

datatype ChainFamily = FamilyEvm | FamilySolana

definition FamilyOf :: "SupportedChain \<Rightarrow> ChainFamily" where
  "FamilyOf chain = (if chain = ChainSolanaMainnet then FamilySolana else FamilyEvm)"

definition EvmChainID :: "SupportedChain \<Rightarrow> u64 option" where
  "EvmChainID chain =
     (if chain = ChainMainnet then Some 1
      else if chain = ChainSepolia then Some 11155111
      else if chain = ChainHolesky then Some 17000
      else if chain = ChainBsc then Some 56
      else if chain = ChainOptimism then Some 10
      else if chain = ChainArbitrumOne then Some 42161
      else if chain = ChainBase then Some 8453
      else if chain = ChainPolygon then Some 137
      else None)"

definition IsSupportedChain :: "string \<Rightarrow> bool" where
  "IsSupportedChain s \<longleftrightarrow> s \<in> set SupportedChains"

definition FromEvmChainID :: "u64 \<Rightarrow> SupportedChain option" where
  "FromEvmChainID cid = find (\<lambda>c. EvmChainID c = Some cid) SupportedChains"

subsection \<open>Manifests\<close>

definition ManifestSpecVersion :: string where "ManifestSpecVersion = ''1.0.0''"
definition MaxDataSources :: nat where "MaxDataSources = 64"
definition MaxEventsPerSource :: nat where "MaxEventsPerSource = 32"
definition MaxNameLen :: nat where "MaxNameLen = 64"
definition MaxAbiLen :: nat where "MaxAbiLen = 64"
definition MaxDescriptionLen :: nat where "MaxDescriptionLen = 1024"

record EvmDataSource =
  evName :: string
  evNetwork :: SupportedChain
  evAddress :: string
  evAbi :: string
  evStartBlock :: u64
  evEvents :: "string list"

record SolanaDataSource =
  soName :: string
  soNetwork :: SupportedChain
  soProgramID :: string
  soStartSlot :: u64
  soInstructions :: "string list"

datatype DataSource = EvmSource EvmDataSource | SolanaSource SolanaDataSource

fun dataSourceName :: "DataSource \<Rightarrow> string" where
  "dataSourceName (EvmSource d) = evName d"
| "dataSourceName (SolanaSource d) = soName d"

fun dataSourceNetwork :: "DataSource \<Rightarrow> SupportedChain" where
  "dataSourceNetwork (EvmSource d) = evNetwork d"
| "dataSourceNetwork (SolanaSource d) = soNetwork d"

record WillowManifest =
  wmSpecVersion :: string
  wmDescription :: "string option"
  wmDataSources :: "DataSource list"
  wmDeferredCompleteness :: bool

text \<open>
  A validation error: what is wrong, with the path of the part it is in.  The text of the
  message is not modelled.
\<close>

datatype manifestFault =
    EmptySignature | NoOpenParen string | NoCloseParen string | BadEventName string | BadParameter string
  | EmptyName | LongName nat | BadName string
  | UnknownChain string | OtherFamily string ChainFamily
  | BadAddress string | EmptyAbi | LongAbi nat | NoEvents | ManyEvents nat
  | BadProgramID string | BadBase58 string | NoInstructions | ManyInstructions nat | BadDiscriminator string
  | BadSpecVersion string | LongDescription nat | NoDataSources | ManyDataSources nat
  | NotJson | NoNetwork | BadSource

record ManifestValidationError =
  meFault :: manifestFault
  meField :: string

definition newErr :: "string \<Rightarrow> manifestFault \<Rightarrow> ManifestValidationError" where
  "newErr path fault = \<lparr>meFault = fault, meField = path\<rparr>"

subsection \<open>The patterns\<close>

definition isLetter :: "char \<Rightarrow> bool" where
  "isLetter c \<longleftrightarrow> (let n = charNat c in 65 \<le> n \<and> n \<le> 90 \<or> 97 \<le> n \<and> n \<le> 122)"

definition isHexChar :: "char \<Rightarrow> bool" where
  "isHexChar c \<longleftrightarrow> hexVal c \<noteq> None"

definition addressRe :: "string \<Rightarrow> bool" where
  "addressRe s = (case cutPrefix ''0x'' s of None \<Rightarrow> False | Some t \<Rightarrow> length t = 40 \<and> list_all isHexChar t)"

definition nameRe :: "string \<Rightarrow> bool" where
  "nameRe s \<longleftrightarrow> s \<noteq> [] \<and> list_all (\<lambda>c. isLetter c \<or> isDigit c \<or> c = CHR ''_'' \<or> c = CHR ''-'') s"

definition eventNameRe :: "string \<Rightarrow> bool" where
  "eventNameRe s =
     (case s of
        [] \<Rightarrow> False
      | c # t \<Rightarrow> (isLetter c \<or> c = CHR ''_'') \<and> list_all (\<lambda>c. isLetter c \<or> isDigit c \<or> c = CHR ''_'') t)"

definition eventParamRe :: "string \<Rightarrow> bool" where
  "eventParamRe s \<longleftrightarrow>
     s \<noteq> [] \<and> list_all (\<lambda>c. isLetter c \<or> isDigit c \<or> c = CHR ''_'' \<or> c = CHR ''['' \<or> c = CHR '']'') s"

definition discriminatorRe :: "string \<Rightarrow> bool" where
  "discriminatorRe s =
     (case cutPrefix ''0x'' s of
        None \<Rightarrow> False
      | Some t \<Rightarrow> t \<noteq> [] \<and> even (length t) \<and> list_all isHexChar t)"

subsection \<open>The checks\<close>

fun checkParams :: "string \<Rightarrow> string list \<Rightarrow> ManifestValidationError + unit" where
  "checkParams path [] = Inr ()"
| "checkParams path (part # parts) =
     (if \<not> eventParamRe part then Inl (newErr path (BadParameter part)) else checkParams path parts)"

definition validateEventSignature :: "string \<Rightarrow> string \<Rightarrow> ManifestValidationError + unit" where
  "validateEventSignature sig path =
     (if sig = [] then Inl (newErr path EmptySignature)
      else if CHR ''('' \<notin> set sig then Inl (newErr path (NoOpenParen sig))
      else if last sig \<noteq> CHR '')'' then Inl (newErr path (NoCloseParen sig))
      else
        let name = takeWhile (\<lambda>c. c \<noteq> CHR ''('') sig;
            params = butlast (tl (dropWhile (\<lambda>c. c \<noteq> CHR ''('') sig)) in
        if \<not> eventNameRe name then Inl (newErr path (BadEventName name))
        else if params = [] then Inr ()
        else checkParams path (splitOn (CHR '','') params))"

definition validateName :: "string \<Rightarrow> string \<Rightarrow> ManifestValidationError + unit" where
  "validateName name path =
     (if name = [] then Inl (newErr (path @ ''.name'') EmptyName)
      else if length name > MaxNameLen then Inl (newErr (path @ ''.name'') (LongName (length name)))
      else if \<not> nameRe name then Inl (newErr (path @ ''.name'') (BadName name))
      else Inr ())"

definition validateNetworkFamily ::
  "DataSource \<Rightarrow> string \<Rightarrow> ChainFamily \<Rightarrow> ManifestValidationError + unit" where
  "validateNetworkFamily ds path want =
     (let network = dataSourceNetwork ds in
      if \<not> IsSupportedChain network then Inl (newErr (path @ ''.network'') (UnknownChain network))
      else if FamilyOf network \<noteq> want then Inl (newErr (path @ ''.network'') (OtherFamily network want))
      else Inr ())"

definition indexed :: "string \<Rightarrow> nat \<Rightarrow> string" where
  "indexed path i = path @ ''['' @ formatUint i @ '']''"

fun checkEach :: "(string \<Rightarrow> 'a \<Rightarrow> ManifestValidationError + unit) \<Rightarrow> string \<Rightarrow> nat \<Rightarrow> 'a list
    \<Rightarrow> ManifestValidationError + unit" where
  "checkEach check path i [] = Inr ()"
| "checkEach check path i (x # xs) =
     (case check (indexed path i) x of
        Inl err \<Rightarrow> Inl err
      | Inr _ \<Rightarrow> checkEach check path (Suc i) xs)"

definition validateEvm :: "string \<Rightarrow> EvmDataSource \<Rightarrow> ManifestValidationError + unit" where
  "validateEvm path d =
     bindR (validateName (evName d) path) (\<lambda>_.
     bindR (validateNetworkFamily (EvmSource d) path FamilyEvm) (\<lambda>_.
       if \<not> addressRe (evAddress d) then Inl (newErr (path @ ''.address'') (BadAddress (evAddress d)))
       else if evAbi d = [] then Inl (newErr (path @ ''.abi'') EmptyAbi)
       else if length (evAbi d) > MaxAbiLen then Inl (newErr (path @ ''.abi'') (LongAbi (length (evAbi d))))
       else if length (evEvents d) = 0 then Inl (newErr (path @ ''.events'') NoEvents)
       else if length (evEvents d) > MaxEventsPerSource
       then Inl (newErr (path @ ''.events'') (ManyEvents (length (evEvents d))))
       else checkEach (\<lambda>p sig. validateEventSignature sig p) (path @ ''.events'') 0 (evEvents d)))"

definition validateSolana :: "string \<Rightarrow> SolanaDataSource \<Rightarrow> ManifestValidationError + unit" where
  "validateSolana path d =
     bindR (validateName (soName d) path) (\<lambda>_.
     bindR (validateNetworkFamily (SolanaSource d) path FamilySolana) (\<lambda>_.
       if soProgramID d = [] \<or> length (soProgramID d) < 32 \<or> length (soProgramID d) > 44
       then Inl (newErr (path @ ''.program_id'') (BadProgramID (soProgramID d)))
       else if \<not> list_all (\<lambda>c. c \<in> set base58Alphabet) (soProgramID d)
       then Inl (newErr (path @ ''.program_id'') (BadBase58 (soProgramID d)))
       else if length (soInstructions d) = 0 then Inl (newErr (path @ ''.instructions'') NoInstructions)
       else if length (soInstructions d) > MaxEventsPerSource
       then Inl (newErr (path @ ''.instructions'') (ManyInstructions (length (soInstructions d))))
       else checkEach (\<lambda>p ix. if \<not> discriminatorRe ix then Inl (newErr p (BadDiscriminator ix)) else Inr ())
              (path @ ''.instructions'') 0 (soInstructions d)))"

fun validateSource :: "string \<Rightarrow> DataSource \<Rightarrow> ManifestValidationError + unit" where
  "validateSource path (EvmSource d) = validateEvm path d"
| "validateSource path (SolanaSource d) = validateSolana path d"

definition ValidateManifest :: "WillowManifest \<Rightarrow> ManifestValidationError + unit" where
  "ValidateManifest m =
     (if wmSpecVersion m \<noteq> ManifestSpecVersion then Inl (newErr ''spec_version'' (BadSpecVersion (wmSpecVersion m)))
      else if (case wmDescription m of None \<Rightarrow> False | Some d \<Rightarrow> length d > MaxDescriptionLen)
      then Inl (newErr ''description'' (LongDescription (length (the (wmDescription m)))))
      else if length (wmDataSources m) = 0 then Inl (newErr ''data_sources'' NoDataSources)
      else if length (wmDataSources m) > MaxDataSources
      then Inl (newErr ''data_sources'' (ManyDataSources (length (wmDataSources m))))
      else checkEach validateSource ''data_sources'' 0 (wmDataSources m))"

subsection \<open>Writing\<close>

text \<open>
  \<^verbatim>\<open>strings.ToLower\<close> of the hexadecimal texts; the checks have passed, so they are ASCII.
\<close>

definition lowerChar :: "char \<Rightarrow> char" where
  "lowerChar c = (let n = charNat c in if 65 \<le> n \<and> n \<le> 90 then char_of (n + 32) else c)"

definition ToLower :: "string \<Rightarrow> string" where
  "ToLower s = map lowerChar s"

fun sourceJson :: "DataSource \<Rightarrow> json" where
  "sourceJson (EvmSource d) =
     JObj [(''name'', JStr (evName d)), (''network'', JStr (evNetwork d)),
           (''address'', JStr (ToLower (evAddress d))), (''abi'', JStr (evAbi d)),
           (''start_block'', uintJson (unat (evStartBlock d))), (''events'', JArr (map JStr (evEvents d)))]"
| "sourceJson (SolanaSource d) =
     JObj [(''name'', JStr (soName d)), (''network'', JStr (soNetwork d)), (''program_id'', JStr (soProgramID d)),
           (''start_slot'', uintJson (unat (soStartSlot d))),
           (''instructions'', JArr (map JStr (map ToLower (soInstructions d))))]"

definition manifestJson :: "WillowManifest \<Rightarrow> json" where
  "manifestJson m =
     JObj ([(''spec_version'', JStr (wmSpecVersion m))]
        @ (case wmDescription m of None \<Rightarrow> [] | Some d \<Rightarrow> [(''description'', JStr d)])
        @ [(''data_sources'', JArr (map sourceJson (wmDataSources m)))])"

definition SerializeManifest :: "WillowManifest \<Rightarrow> ManifestValidationError + string" where
  "SerializeManifest m =
     (case ValidateManifest m of Inl err \<Rightarrow> Inl err | Inr _ \<Rightarrow> Inr (printJson (manifestJson m)))"

subsection \<open>Reading\<close>

record shell =
  shSpecVersion :: string
  shDescription :: "string option"
  shDataSources :: "json list"

definition shellFields :: "(string \<times> shell fieldReader) list" where
  "shellFields =
     [(''spec_version'', strField (\<lambda>t s. s\<lparr>shSpecVersion := t\<rparr>)),
      (''description'', strPtrField (\<lambda>t s. s\<lparr>shDescription := t\<rparr>)),
      (''data_sources'', sliceField JNull (rawField (\<lambda>v _. v)) (\<lambda>vs s. s\<lparr>shDataSources := vs\<rparr>))]"

definition hintFields :: "(string \<times> string fieldReader) list" where
  "hintFields = [(''network'', strField (\<lambda>t _. t))]"

definition evmFields :: "(string \<times> EvmDataSource fieldReader) list" where
  "evmFields =
     [(''name'', strField (\<lambda>t d. d\<lparr>evName := t\<rparr>)), (''network'', strField (\<lambda>t d. d\<lparr>evNetwork := t\<rparr>)),
      (''address'', strField (\<lambda>t d. d\<lparr>evAddress := t\<rparr>)), (''abi'', strField (\<lambda>t d. d\<lparr>evAbi := t\<rparr>)),
      (''start_block'', uintField 64 (\<lambda>n d. d\<lparr>evStartBlock := of_nat n\<rparr>)),
      (''events'', sliceField [] (strField (\<lambda>t _. t)) (\<lambda>ts d. d\<lparr>evEvents := ts\<rparr>))]"

definition solanaFields :: "(string \<times> SolanaDataSource fieldReader) list" where
  "solanaFields =
     [(''name'', strField (\<lambda>t d. d\<lparr>soName := t\<rparr>)), (''network'', strField (\<lambda>t d. d\<lparr>soNetwork := t\<rparr>)),
      (''program_id'', strField (\<lambda>t d. d\<lparr>soProgramID := t\<rparr>)),
      (''start_slot'', uintField 64 (\<lambda>n d. d\<lparr>soStartSlot := of_nat n\<rparr>)),
      (''instructions'', sliceField [] (strField (\<lambda>t _. t)) (\<lambda>ts d. d\<lparr>soInstructions := ts\<rparr>))]"

definition zeroEvm :: EvmDataSource where
  "zeroEvm = \<lparr>evName = [], evNetwork = [], evAddress = [], evAbi = [], evStartBlock = 0, evEvents = []\<rparr>"

definition zeroSolana :: SolanaDataSource where
  "zeroSolana = \<lparr>soName = [], soNetwork = [], soProgramID = [], soStartSlot = 0, soInstructions = []\<rparr>"

definition parseSource :: "nat \<Rightarrow> json \<Rightarrow> ManifestValidationError + DataSource" where
  "parseSource i raw =
     (case decodeStruct hintFields [] raw of
        None \<Rightarrow> Inl (newErr (indexed ''data_sources'' i @ ''.network'') NoNetwork)
      | Some network \<Rightarrow>
          if \<not> IsSupportedChain network
          then Inl (newErr (indexed ''data_sources'' i @ ''.network'') (UnknownChain network))
          else case FamilyOf network of
            FamilyEvm \<Rightarrow>
              (case strictStruct evmFields zeroEvm raw of
                 None \<Rightarrow> Inl (newErr (indexed ''data_sources'' i) BadSource)
               | Some d \<Rightarrow> Inr (EvmSource d))
          | FamilySolana \<Rightarrow>
              (case strictStruct solanaFields zeroSolana raw of
                 None \<Rightarrow> Inl (newErr (indexed ''data_sources'' i) BadSource)
               | Some d \<Rightarrow> Inr (SolanaSource d)))"

fun parseSources :: "nat \<Rightarrow> json list \<Rightarrow> ManifestValidationError + DataSource list" where
  "parseSources i [] = Inr []"
| "parseSources i (raw # raws) =
     bindR (parseSource i raw) (\<lambda>ds. bindR (parseSources (Suc i) raws) (\<lambda>rest. Inr (ds # rest)))"

definition ParseManifest :: "string \<Rightarrow> ManifestValidationError + WillowManifest" where
  "ParseManifest data =
     (case Option.bind (decodeFirst data)
             (strictStruct shellFields \<lparr>shSpecVersion = [], shDescription = None, shDataSources = []\<rparr>) of
        None \<Rightarrow> Inl (newErr [] NotJson)
      | Some s \<Rightarrow>
          bindR (parseSources 0 (shDataSources s)) (\<lambda>sources.
            let m = \<lparr>wmSpecVersion = shSpecVersion s, wmDescription = shDescription s, wmDataSources = sources,
                     wmDeferredCompleteness = False\<rparr> in
            bindR (ValidateManifest m) (\<lambda>_. Inr m)))"

subsection \<open>The canonical schema\<close>

text \<open>An event signature: an identifier and a list of parameter types, or of none.\<close>

fun joinParams :: "string list \<Rightarrow> string" where
  "joinParams [] = []"
| "joinParams [p] = p"
| "joinParams (p # ps) = p @ CHR '','' # joinParams ps"

definition eventSignature :: "string \<Rightarrow> string list \<Rightarrow> string" where
  "eventSignature name params = name @ CHR ''('' # joinParams params @ '')''"

definition canonicalName :: "string \<Rightarrow> bool" where
  "canonicalName name \<longleftrightarrow> length name \<le> 64 \<and> nameRe name"

definition canonicalEvent :: "string \<Rightarrow> bool" where
  "canonicalEvent sig \<longleftrightarrow>
     (\<exists>name params. eventNameRe name \<and> list_all eventParamRe params \<and> sig = eventSignature name params)"

definition canonicalChain :: "ChainFamily \<Rightarrow> string \<Rightarrow> bool" where
  "canonicalChain family network \<longleftrightarrow> IsSupportedChain network \<and> FamilyOf network = family"

fun canonicalSource :: "DataSource \<Rightarrow> bool" where
  "canonicalSource (EvmSource d) \<longleftrightarrow>
     canonicalName (evName d) \<and> canonicalChain FamilyEvm (evNetwork d) \<and> addressRe (evAddress d)
     \<and> length (evAbi d) \<in> {1..64} \<and> length (evEvents d) \<in> {1..32} \<and> list_all canonicalEvent (evEvents d)"
| "canonicalSource (SolanaSource d) \<longleftrightarrow>
     canonicalName (soName d) \<and> canonicalChain FamilySolana (soNetwork d)
     \<and> length (soProgramID d) \<in> {32..44} \<and> set (soProgramID d) \<subseteq> set base58Alphabet
     \<and> length (soInstructions d) \<in> {1..32} \<and> list_all discriminatorRe (soInstructions d)"

definition canonicalManifest :: "WillowManifest \<Rightarrow> bool" where
  "canonicalManifest m \<longleftrightarrow>
     wmSpecVersion m = ''1.0.0'' \<and> pred_option (\<lambda>d. length d \<le> 1024) (wmDescription m)
     \<and> length (wmDataSources m) \<in> {1..64} \<and> list_all canonicalSource (wmDataSources m)"

subsection \<open>Lemmas: the checks\<close>

lemma checkEach_ok:
  assumes "\<And>p x. check p x = Inr () \<longleftrightarrow> P x"
  shows "checkEach check path i xs = Inr () \<longleftrightarrow> list_all P xs"
proof (induction xs arbitrary: i)
  case (Cons x xs)
  then show ?case using assms [of "indexed path i" x] by (cases "check (indexed path i) x") auto
qed simp

lemma checkParams_ok: "checkParams path ps = Inr () \<longleftrightarrow> list_all eventParamRe ps"
  by (induction ps) auto

lemma eventParam_chars: "eventParamRe p \<Longrightarrow> c \<in> set p \<Longrightarrow> c \<notin> {CHR '','', CHR ''('', CHR '')''}"
  by (auto simp: eventParamRe_def list_all_iff isLetter_def isDigit_def charNat_def Let_def)

lemma eventName_chars: "eventNameRe n \<Longrightarrow> CHR ''('' \<notin> set n"
  by (auto simp: eventNameRe_def list_all_iff isLetter_def isDigit_def charNat_def Let_def split: list.splits)

lemma splitOn_plain: "sep \<notin> set p \<Longrightarrow> splitOn sep p = [p]"
  by (induction p) auto

lemma splitOn_append: "sep \<notin> set p \<Longrightarrow> splitOn sep (p @ sep # s) = p # splitOn sep s"
  by (induction p) auto

lemma splitOn_joinParams:
  "ps \<noteq> [] \<Longrightarrow> \<forall>p \<in> set ps. CHR '','' \<notin> set p \<Longrightarrow> splitOn (CHR '','') (joinParams ps) = ps"
  by (induction ps rule: joinParams.induct) (auto simp: splitOn_plain splitOn_append)

lemma splitOn_nonempty [simp]: "splitOn sep s \<noteq> []"
  by (induction s) (auto split: list.splits)

lemma joinParams_Cons: "joinParams (p # ps) = p @ (if ps = [] then [] else CHR '','' # joinParams ps)"
  by (cases ps) simp_all

lemma joinParams_splitOn: "joinParams (splitOn (CHR '','') s) = s"
proof (induction s)
  case (Cons c s)
  obtain p ps where "splitOn (CHR '','') s = p # ps" by (cases "splitOn (CHR '','') s") auto
  then show ?case using Cons by (auto simp: joinParams_Cons)
qed simp

lemma joinParams_eq_Nil: "list_all eventParamRe ps \<Longrightarrow> joinParams ps = [] \<longleftrightarrow> ps = []"
  by (cases ps) (auto simp: joinParams_Cons eventParamRe_def)

lemma canonicalEvent_accepted:
  assumes "eventNameRe name" and "list_all eventParamRe params"
  shows "validateEventSignature (eventSignature name params) path = Inr ()"
proof -
  have "CHR ''('' \<notin> set name" using eventName_chars [OF assms(1)] .
  then have cut: "takeWhile (\<lambda>c. c \<noteq> CHR ''('') (eventSignature name params) = name"
    "dropWhile (\<lambda>c. c \<noteq> CHR ''('') (eventSignature name params) = CHR ''('' # joinParams params @ '')''"
    by (auto simp: eventSignature_def takeWhile_append dropWhile_append)
  have "splitOn (CHR '','') (joinParams params) = params" if "params \<noteq> []"
    using that assms(2) eventParam_chars by (intro splitOn_joinParams) (auto simp: list_all_iff)
  then show ?thesis using assms cut joinParams_eq_Nil [OF assms(2)]
    by (auto simp: validateEventSignature_def Let_def checkParams_ok) (simp_all add: eventSignature_def)
qed

lemma paren_ends: "r \<noteq> [] \<Longrightarrow> hd r = CHR ''('' \<Longrightarrow> last r = CHR '')'' \<Longrightarrow> r = CHR ''('' # butlast (tl r) @ '')''"
  by (cases r; cases "tl r" rule: rev_cases) auto

lemma accepted_canonicalEvent:
  assumes "validateEventSignature sig path = Inr ()"
  shows "canonicalEvent sig"
proof -
  have sig: "sig \<noteq> []" "CHR ''('' \<in> set sig" "last sig = CHR '')''"
    using assms by (auto simp: validateEventSignature_def split: if_splits)
  let ?name = "takeWhile (\<lambda>c. c \<noteq> CHR ''('') sig" and ?rest = "dropWhile (\<lambda>c. c \<noteq> CHR ''('') sig"
  have "?rest \<noteq> []" using sig(2) by (simp add: dropWhile_eq_Nil_conv)
  then have hd: "hd ?rest = CHR ''(''" using hd_dropWhile by blast
  have last: "last ?rest = CHR '')''"
    using sig(3) \<open>?rest \<noteq> []\<close> by (metis last_appendR takeWhile_dropWhile_id)
  have "?rest = CHR ''('' # butlast (tl ?rest) @ '')''"
    using paren_ends [OF \<open>?rest \<noteq> []\<close> hd last] .
  then have split: "sig = ?name @ CHR ''('' # butlast (tl ?rest) @ '')''"
    by (metis takeWhile_dropWhile_id)
  have eq: "validateEventSignature sig path =
      (if \<not> eventNameRe ?name then Inl (newErr path (BadEventName ?name))
       else if butlast (tl ?rest) = [] then Inr ()
       else checkParams path (splitOn (CHR '','') (butlast (tl ?rest))))"
    by (simp only: validateEventSignature_def Let_def sig simp_thms if_False)
  have ok: "eventNameRe ?name" "butlast (tl ?rest) = [] \<or> list_all eventParamRe (splitOn (CHR '','') (butlast (tl ?rest)))"
    using assms unfolding eq by (simp_all only: checkParams_ok simp_thms sum.distinct split: if_split_asm)
  let ?params = "if butlast (tl ?rest) = [] then [] else splitOn (CHR '','') (butlast (tl ?rest))"
  have "sig = eventSignature ?name ?params"
    using split unfolding eventSignature_def
    by (cases "butlast (tl ?rest) = []") (simp_all only: joinParams_splitOn joinParams.simps simp_thms if_True if_False append.simps)
  moreover have "list_all eventParamRe ?params" using ok(2) by auto
  ultimately show ?thesis using ok(1) unfolding canonicalEvent_def by blast
qed

lemma validateEventSignature_ok: "validateEventSignature sig path = Inr () \<longleftrightarrow> canonicalEvent sig"
  using accepted_canonicalEvent canonicalEvent_accepted by (auto simp: canonicalEvent_def)

lemma validateName_ok: "validateName name path = Inr () \<longleftrightarrow> canonicalName name"
  by (auto simp: validateName_def canonicalName_def nameRe_def MaxNameLen_def)

lemma validateNetworkFamily_ok:
  "validateNetworkFamily ds path want = Inr () \<longleftrightarrow> canonicalChain want (dataSourceNetwork ds)"
  by (simp add: validateNetworkFamily_def canonicalChain_def Let_def)

lemma checkDiscriminators_ok:
  "checkEach (\<lambda>p ix. if \<not> discriminatorRe ix then Inl (newErr p (BadDiscriminator ix)) else Inr ()) path i xs = Inr ()
    \<longleftrightarrow> list_all discriminatorRe xs"
  by (rule checkEach_ok) simp

lemma checkEvents_ok:
  "checkEach (\<lambda>p sig. validateEventSignature sig p) path i xs = Inr () \<longleftrightarrow> list_all canonicalEvent xs"
  by (rule checkEach_ok) (rule validateEventSignature_ok)

lemma validateSource_ok: "validateSource path ds = Inr () \<longleftrightarrow> canonicalSource ds"
proof (cases ds)
  case (EvmSource d)
  then show ?thesis
    by (simp add: validateEvm_def bindR_eq_Inr validateName_ok validateNetworkFamily_ok checkEvents_ok MaxAbiLen_def
          MaxEventsPerSource_def Suc_le_eq not_less)
next
  case (SolanaSource d)
  have chars: "list_all (\<lambda>c. c \<in> set base58Alphabet) s \<longleftrightarrow> set s \<subseteq> set base58Alphabet" for s
    by (auto simp: list_all_iff)
  show ?thesis using SolanaSource
    by (simp add: validateSolana_def bindR_eq_Inr validateName_ok validateNetworkFamily_ok checkDiscriminators_ok chars
          MaxEventsPerSource_def Suc_le_eq not_less)
qed

lemma ValidateManifest_ok: "ValidateManifest m = Inr () \<longleftrightarrow> canonicalManifest m"
proof -
  have "checkEach validateSource path i xs = Inr () \<longleftrightarrow> list_all canonicalSource xs" for path i xs
    by (rule checkEach_ok) (rule validateSource_ok)
  then show ?thesis
    by (auto simp: ValidateManifest_def canonicalManifest_def ManifestSpecVersion_def MaxDescriptionLen_def
          MaxDataSources_def not_less Suc_le_eq split: option.splits)
qed

subsection \<open>Lemmas: writing and reading back\<close>

text \<open>The manifest that is read back: texts of hexadecimal digits are lowered, and the flag is lost.\<close>

fun normalSource :: "DataSource \<Rightarrow> DataSource" where
  "normalSource (EvmSource d) = EvmSource (d\<lparr>evAddress := ToLower (evAddress d)\<rparr>)"
| "normalSource (SolanaSource d) = SolanaSource (d\<lparr>soInstructions := map ToLower (soInstructions d)\<rparr>)"

definition normalManifest :: "WillowManifest \<Rightarrow> WillowManifest" where
  "normalManifest m =
     \<lparr>wmSpecVersion = wmSpecVersion m, wmDescription = wmDescription m,
      wmDataSources = map normalSource (wmDataSources m), wmDeferredCompleteness = False\<rparr>"

lemma hexVal_ascii: "hexVal c \<noteq> None \<Longrightarrow> charNat c < 0x80"
  by (auto simp: hexVal_def charNat_def Let_def split: if_splits)

lemma lowerChar_ascii: "charNat c < 0x80 \<Longrightarrow> charNat (lowerChar c) < 0x80"
  by (simp add: lowerChar_def charNat_def Let_def)

lemma asciiText_ToLower: "asciiText s \<Longrightarrow> asciiText (ToLower s)"
  by (auto simp: asciiText_def ToLower_def list_all_iff lowerChar_ascii)

lemma isHexChar_lower: "isHexChar c \<Longrightarrow> isHexChar (lowerChar c)"
  by (auto simp: isHexChar_def hexVal_def lowerChar_def charNat_def Let_def split: if_splits)

lemma ToLower_prefixed: "ToLower (''0x'' @ t) = ''0x'' @ ToLower t"
  by (simp add: ToLower_def lowerChar_def charNat_def)

lemma hexDigits_lower: "list_all isHexChar t \<Longrightarrow> list_all isHexChar (ToLower t)"
  by (auto simp: list_all_iff ToLower_def isHexChar_lower)

lemma hexText_ascii: "list_all isHexChar t \<Longrightarrow> asciiText (''0x'' @ t)"
  using hexVal_ascii by (auto simp: asciiText_def list_all_iff isHexChar_def) (auto simp: charNat_def)

lemma length_ToLower [simp]: "length (ToLower s) = length s"
  by (simp add: ToLower_def)

lemma ToLower_eq_Nil [simp]: "ToLower s = [] \<longleftrightarrow> s = []"
  by (simp add: ToLower_def)

lemma addressRe_lower:
  assumes "addressRe s"
  shows "addressRe (ToLower s)" and "asciiText s"
proof -
  obtain t where "s = ''0x'' @ t" "length t = 40" "list_all isHexChar t"
    using assms unfolding addressRe_def by (auto simp: cutPrefix_eq_Some split: option.splits)
  then show "addressRe (ToLower s)" "asciiText s"
    unfolding addressRe_def by (simp_all only: ToLower_prefixed cutPrefix_append option.case hexDigits_lower
        length_ToLower hexText_ascii simp_thms)
qed

lemma discriminatorRe_lower:
  assumes "discriminatorRe s"
  shows "discriminatorRe (ToLower s)" and "asciiText s"
proof -
  obtain t where "s = ''0x'' @ t" "t \<noteq> []" "even (length t)" "list_all isHexChar t"
    using assms unfolding discriminatorRe_def by (auto simp: cutPrefix_eq_Some split: option.splits)
  then show "discriminatorRe (ToLower s)" "asciiText s"
    unfolding discriminatorRe_def by (simp_all only: ToLower_prefixed cutPrefix_append option.case hexDigits_lower
        length_ToLower ToLower_eq_Nil hexText_ascii simp_thms)
qed

lemma canonicalSource_normal: "canonicalSource ds \<Longrightarrow> canonicalSource (normalSource ds)"
  by (cases ds) (auto simp: addressRe_lower discriminatorRe_lower list_all_iff)

lemma nameRe_ascii: "nameRe s \<Longrightarrow> asciiText s"
  by (auto simp: nameRe_def asciiText_def list_all_iff isLetter_def isDigit_def charNat_def Let_def)

lemma eventParamRe_ascii: "eventParamRe s \<Longrightarrow> asciiText s"
  by (auto simp: eventParamRe_def asciiText_def list_all_iff isLetter_def isDigit_def charNat_def Let_def)

lemma eventNameRe_ascii: "eventNameRe s \<Longrightarrow> asciiText s"
  by (auto simp: eventNameRe_def asciiText_def list_all_iff isLetter_def isDigit_def charNat_def Let_def
      split: list.splits)

lemma joinParams_ascii: "list_all eventParamRe ps \<Longrightarrow> asciiText (joinParams ps)"
  by (induction ps rule: joinParams.induct) (simp_all add: eventParamRe_ascii charNat_def)

lemma canonicalEvent_ascii: "canonicalEvent sig \<Longrightarrow> asciiText sig"
  by (auto simp: canonicalEvent_def eventSignature_def eventNameRe_ascii joinParams_ascii charNat_def)

lemma chain_ascii: "IsSupportedChain s \<Longrightarrow> asciiText s"
  by (auto simp: IsSupportedChain_def SupportedChains_def chain_defs charNat_def)

lemma base58_ascii: "set s \<subseteq> set base58Alphabet \<Longrightarrow> asciiText s"
proof -
  have "asciiText base58Alphabet" by (simp add: base58Alphabet_def charNat_def)
  then show "set s \<subseteq> set base58Alphabet \<Longrightarrow> asciiText s" by (auto simp: asciiText_def list_all_iff)
qed

text \<open>The only texts the checks leave free to be malformed UTF-8: a description and the name of an ABI.\<close>

fun sourceTextsValid :: "DataSource \<Rightarrow> bool" where
  "sourceTextsValid (EvmSource d) \<longleftrightarrow> validString (evAbi d)"
| "sourceTextsValid (SolanaSource d) \<longleftrightarrow> True"

definition textsValid :: "WillowManifest \<Rightarrow> bool" where
  "textsValid m \<longleftrightarrow> (case wmDescription m of None \<Rightarrow> True | Some d \<Rightarrow> validString d) \<and> list_all sourceTextsValid (wmDataSources m)"

lemma lower_texts_ascii: "list_all asciiText ts \<Longrightarrow> list_all asciiText (map ToLower ts)"
  by (induction ts) (simp_all add: asciiText_ToLower)

lemma sourceJson_clean:
  assumes "canonicalSource ds" and "sourceTextsValid ds"
  shows "cleanJson (sourceJson ds) = sourceJson ds"
proof (cases ds)
  case (EvmSource d)
  have "list_all asciiText (evEvents d)"
    using assms EvmSource canonicalEvent_ascii by (auto simp: list_all_iff)
  then show ?thesis
    using assms EvmSource cleanJson_texts [of "evEvents d"]
    by (simp add: canonicalName_def canonicalChain_def nameRe_ascii chain_ascii addressRe_lower asciiText_ToLower
          cleanText_asciiText cleanText_valid charNat_def)
next
  case (SolanaSource d)
  have "list_all asciiText (soInstructions d)"
    using assms SolanaSource discriminatorRe_lower(2) by (auto simp: list_all_iff)
  then show ?thesis
    using assms SolanaSource cleanJson_texts [OF lower_texts_ascii [of "soInstructions d"]]
    by (simp add: canonicalName_def canonicalChain_def nameRe_ascii chain_ascii base58_ascii
          cleanText_asciiText charNat_def)
qed

lemma evm_read: "strictStruct evmFields zeroEvm (sourceJson (EvmSource d)) = Some (d\<lparr>evAddress := ToLower (evAddress d)\<rparr>)"
  by (simp add: strictStruct_def evmFields_def fieldFor_def sliceField_texts uintField_word strField_JStr zeroEvm_def)

lemma solana_read:
  "strictStruct solanaFields zeroSolana (sourceJson (SolanaSource d))
    = Some (d\<lparr>soInstructions := map ToLower (soInstructions d)\<rparr>)"
  by (simp add: strictStruct_def solanaFields_def fieldFor_def sliceField_texts [of _ _ "map ToLower (soInstructions d)", simplified]
      uintField_word strField_JStr zeroSolana_def)

lemma hint_read: "decodeStruct hintFields [] (sourceJson ds) = Some (dataSourceNetwork ds)"
  by (cases ds) (simp_all add: decodeStruct_def hintFields_def fieldFor_def strField_JStr foldName.simps)

lemma parseSource_read:
  assumes "canonicalSource ds"
  shows "parseSource i (sourceJson ds) = Inr (normalSource ds)"
proof (cases ds)
  case (EvmSource d)
  then have "IsSupportedChain (evNetwork d)" "FamilyOf (evNetwork d) = FamilyEvm"
    using assms by (simp_all add: canonicalChain_def)
  then show ?thesis unfolding parseSource_def hint_read EvmSource evm_read by simp
next
  case (SolanaSource d)
  then have "IsSupportedChain (soNetwork d)" "FamilyOf (soNetwork d) = FamilySolana"
    using assms by (simp_all add: canonicalChain_def)
  then show ?thesis unfolding parseSource_def hint_read SolanaSource solana_read by simp
qed

lemma parseSources_read:
  "list_all canonicalSource dss \<Longrightarrow> parseSources i (map sourceJson dss) = Inr (map normalSource dss)"
  by (induction dss arbitrary: i) (simp_all add: parseSource_read)

lemma shell_read:
  "strictStruct shellFields \<lparr>shSpecVersion = [], shDescription = None, shDataSources = []\<rparr> (manifestJson m)
    = Some \<lparr>shSpecVersion = wmSpecVersion m, shDescription = wmDescription m,
            shDataSources = map sourceJson (wmDataSources m)\<rparr>"
  by (cases "wmDescription m")
    (simp_all add: strictStruct_def manifestJson_def shellFields_def fieldFor_def sliceField_raw strField_JStr strPtrField_def)

lemma manifestJson_clean:
  assumes "canonicalManifest m" and "textsValid m"
  shows "cleanJson (manifestJson m) = manifestJson m"
proof -
  have "map cleanJson (map sourceJson (wmDataSources m)) = map sourceJson (wmDataSources m)"
    using assms sourceJson_clean by (auto simp: canonicalManifest_def textsValid_def list_all_iff)
  then show ?thesis
    using assms by (cases "wmDescription m")
      (simp_all add: manifestJson_def canonicalManifest_def textsValid_def cleanText_valid charNat_def)
qed

lemma sourceJson_plain: "plainNumbers (sourceJson ds) \<and> nesting (sourceJson ds) \<le> 2"
proof (cases ds)
  case (EvmSource d)
  then show ?thesis using plain_texts [of "evEvents d"] by simp
next
  case (SolanaSource d)
  then show ?thesis using plain_texts [of "map ToLower (soInstructions d)"] by simp
qed

lemma manifestJson_plain: "plainNumbers (manifestJson m) \<and> nesting (manifestJson m) \<le> 4"
proof -
  have "fold max (map nesting (map sourceJson dss)) 0 \<le> 2" for dss
    using sourceJson_plain by (intro fold_max_bound) auto
  from this [of "wmDataSources m"] show ?thesis
    using sourceJson_plain by (cases "wmDescription m") (simp_all add: manifestJson_def list_all_iff)
qed

lemma canonical_normal: "canonicalManifest m \<Longrightarrow> canonicalManifest (normalManifest m)"
  using canonicalSource_normal by (auto simp: canonicalManifest_def normalManifest_def list_all_iff)

lemma SerializeManifest_eq:
  "SerializeManifest m = Inr s \<longleftrightarrow> canonicalManifest m \<and> s = printJson (manifestJson m)"
  using ValidateManifest_ok [of m] by (auto simp: SerializeManifest_def split: sum.splits)

lemma ParseManifest_printed:
  assumes "canonicalManifest m" and "textsValid m"
  shows "ParseManifest (printJson (manifestJson m)) = Inr (normalManifest m)"
proof -
  have "unmarshalJson (printJson (manifestJson m)) = Some (manifestJson m)"
    using unmarshal_printJson [of "manifestJson m"] manifestJson_plain [of m]
    by (simp add: manifestJson_clean [OF assms] maxNestingDepth_def)
  then have "decodeFirst (printJson (manifestJson m)) = Some (manifestJson m)" by (rule decodeFirst_unmarshal)
  moreover have "list_all canonicalSource (wmDataSources m)" using assms(1) by (simp add: canonicalManifest_def)
  moreover have "ValidateManifest (normalManifest m) = Inr ()"
    using assms(1) by (simp add: ValidateManifest_ok canonical_normal)
  ultimately show ?thesis
    by (simp add: ParseManifest_def shell_read parseSources_read normalManifest_def Let_def)
qed

lemma ParseManifest_valid: "ParseManifest s = Inr m \<Longrightarrow> canonicalManifest m"
  by (auto simp: ParseManifest_def bindR_eq_Inr Let_def ValidateManifest_ok [symmetric] split: option.splits)

lemma EvmChainID_FromEvmChainID: "FromEvmChainID cid = Some c \<longleftrightarrow> EvmChainID c = Some cid"
  by (auto simp: FromEvmChainID_def SupportedChains_def EvmChainID_def chain_defs split: if_splits)

subsection \<open>Properties\<close>

text \<open>
  C24: what is serialized for the chain is read back: a manifest whose description and ABI
  names are UTF-8 serializes to bytes that parse as the same manifest, its addresses and
  discriminators in lower case and its flag of deferred completeness gone.
\<close>

theorem manifest_roundtrip:
  assumes "SerializeManifest m = Inr s" and "textsValid m"
  shows "ParseManifest s = Inr (normalManifest m)"
  using assms ParseManifest_printed [of m] unfolding SerializeManifest_eq by blast

text \<open>
  An event signature passes the check exactly when it is an identifier and, in
  parentheses, no parameter or parameter types separated by commas.
\<close>

lemma event_signature_exact:
  "validateEventSignature sig path = Inr ()
    \<longleftrightarrow> (\<exists>name params. eventNameRe name \<and> list_all eventParamRe params \<and> sig = eventSignature name params)"
  using validateEventSignature_ok [of sig path] unfolding canonicalEvent_def .

subsection \<open>Witnesses\<close>

definition sampleWillow :: WillowManifest where
  "sampleWillow =
     \<lparr>wmSpecVersion = ''1.0.0'', wmDescription = Some ''d'',
      wmDataSources = [EvmSource \<lparr>evName = ''n'', evNetwork = ''base'', evAddress = ''0x'' @ replicate 40 (CHR ''A''),
        evAbi = ''a'', evStartBlock = 7, evEvents = [''T(address,uint256[])'']\<rparr>],
      wmDeferredCompleteness = True\<rparr>"

theorem manifest_roundtrip_witness:
  "ParseManifest (printJson (manifestJson sampleWillow)) = Inr (normalManifest sampleWillow)"
proof -
  have "ValidateManifest sampleWillow = Inr ()" "textsValid sampleWillow" by code_simp+
  then have "SerializeManifest sampleWillow = Inr (printJson (manifestJson sampleWillow))"
    by (simp add: SerializeManifest_def)
  from manifest_roundtrip [OF this \<open>textsValid sampleWillow\<close>] show ?thesis .
qed

end
