(* ===== verification/Schema.thy ===== *)
theory Schema
  imports RegisterMessage Wire "HOL-Library.AList" "HOL-Library.List_Lexorder" "HOL-Library.Char_ord"
begin

text \<open>
  Schemas of subgroves (\<^verbatim>\<open>schema.go\<close>, and the schema types and builder of \<^verbatim>\<open>types.go\<close> and
  \<^verbatim>\<open>registration.go\<close>): writing a schema in the chain's form, and reading a schema in the SDK's
  form or the chain's.  A Go map of names is an association list in the order of insertion;
  \<^verbatim>\<open>encoding/json\<close> writes it in the order of its keys, which is the order of their bytes.

  The theory shows that a schema that is written passes the checks the SDK makes of a
  registration's schema, and that it is read back as its fields sorted by name, each with
  the chain's type.
\<close>

subsection \<open>Schemas\<close>

record SchemaField =
  sfName :: string
  sfType :: string
  sfRequired :: bool
  sfIndexed :: bool

record IndexDefinition =
  ixName :: string
  ixFields :: "string list"
  ixType :: string
  ixUnique :: bool

record SchemaDefinition =
  sdName :: string
  sdDescription :: string
  sdFields :: "SchemaField list"
  sdIndexes :: "IndexDefinition list"

record chainIndex =
  ciName :: string
  ciFields :: "string list"
  ciUnique :: bool

record chainSchema =
  csVersion :: nat
  csFields :: "(string \<times> string) list"
  csIndexes :: "chainIndex list"
  csRequiredFields :: "string list"

datatype schemaError = SchemaIndexed | FieldWithoutName | FieldTwice string | FieldIndexed string | NoChainType string

text \<open>
  \<^verbatim>\<open>strings.ToLower\<close> as far as a comparison with an ASCII text can see it: besides the capital
  letters, U+0130 and U+212A have ASCII characters for their lower case.
\<close>

fun lowerWord :: "string \<Rightarrow> string" where
  "lowerWord [] = []"
| "lowerWord (c # s) =
     (let n = charNat c in
      if 65 \<le> n \<and> n \<le> 90 then char_of (n + 32) # lowerWord s
      else if hasPrefix [CHR 0xC4, CHR 0xB0] (c # s) then CHR ''i'' # lowerWord (drop 1 s)
      else if hasPrefix [CHR 0xE2, CHR 0x84, CHR 0xAA] (c # s) then CHR ''k'' # lowerWord (drop 2 s)
      else c # lowerWord s)"

definition chainFieldType :: "string \<Rightarrow> schemaError + string" where
  "chainFieldType t =
     (let lower = lowerWord t in
      if lower = ''string'' \<or> lower = ''object'' \<or> lower = ''bytes'' then Inr lower
      else if lower = ''int'' \<or> lower = ''integer'' \<or> lower = ''float'' \<or> lower = ''number'' then Inr ''number''
      else if lower = ''bool'' \<or> lower = ''boolean'' then Inr ''boolean''
      else if lower = ''array'' \<or> hasPrefix ''array:'' lower then Inr ''array''
      else Inl (NoChainType t))"

subsection \<open>Writing\<close>

fun addFields :: "SchemaField list \<Rightarrow> chainSchema \<Rightarrow> schemaError + chainSchema" where
  "addFields [] out = Inr out"
| "addFields (f # fs) out =
     (if sfName f = [] then Inl FieldWithoutName
      else if sfName f \<in> fst ` set (csFields out) then Inl (FieldTwice (sfName f))
      else if sfIndexed f then Inl (FieldIndexed (sfName f))
      else bindR (chainFieldType (sfType f)) (\<lambda>t.
        addFields fs (out\<lparr>csFields := csFields out @ [(sfName f, t)],
                         csRequiredFields := csRequiredFields out @ (if sfRequired f then [sfName f] else [])\<rparr>)))"

definition chainIndexJson :: "chainIndex \<Rightarrow> json" where
  "chainIndexJson i =
     JObj [(''name'', JStr (ciName i)), (''fields'', JArr (map JStr (ciFields i))), (''unique'', JBool (ciUnique i))]"

definition chainSchemaJson :: "chainSchema \<Rightarrow> json" where
  "chainSchemaJson c =
     JObj [(''version'', uintJson (csVersion c)),
           (''fields'', JObj (map (\<lambda>(k, t). (k, JStr t)) (sort_key fst (csFields c)))),
           (''indexes'', JArr (map chainIndexJson (csIndexes c))),
           (''required_fields'', JArr (map JStr (csRequiredFields c)))]"

definition ChainSchemaJSON :: "SchemaDefinition \<Rightarrow> schemaError + string" where
  "ChainSchemaJSON s =
     (if length (sdIndexes s) > 0 then Inl SchemaIndexed
      else bindR (addFields (sdFields s)
                    \<lparr>csVersion = 1, csFields = [], csIndexes = [], csRequiredFields = []\<rparr>) (\<lambda>out.
        Inr (printJson (chainSchemaJson out))))"

subsection \<open>Reading\<close>

definition schemaFieldFields :: "(string \<times> SchemaField fieldReader) list" where
  "schemaFieldFields =
     [(''name'', strField (\<lambda>t f. f\<lparr>sfName := t\<rparr>)), (''type'', strField (\<lambda>t f. f\<lparr>sfType := t\<rparr>)),
      (''required'', boolField (\<lambda>b f. f\<lparr>sfRequired := b\<rparr>)), (''indexed'', boolField (\<lambda>b f. f\<lparr>sfIndexed := b\<rparr>))]"

definition zeroField :: SchemaField where
  "zeroField = \<lparr>sfName = [], sfType = [], sfRequired = False, sfIndexed = False\<rparr>"

definition indexFields :: "(string \<times> IndexDefinition fieldReader) list" where
  "indexFields =
     [(''name'', strField (\<lambda>t i. i\<lparr>ixName := t\<rparr>)),
      (''fields'', sliceField [] (strField (\<lambda>t _. t)) (\<lambda>ts i. i\<lparr>ixFields := ts\<rparr>)),
      (''type'', strField (\<lambda>t i. i\<lparr>ixType := t\<rparr>)), (''unique'', boolField (\<lambda>b i. i\<lparr>ixUnique := b\<rparr>))]"

definition zeroIndex :: IndexDefinition where
  "zeroIndex = \<lparr>ixName = [], ixFields = [], ixType = [], ixUnique = False\<rparr>"

definition zeroSchema :: SchemaDefinition where
  "zeroSchema = \<lparr>sdName = [], sdDescription = [], sdFields = [], sdIndexes = []\<rparr>"

definition plainSchemaFields :: "(string \<times> SchemaDefinition fieldReader) list" where
  "plainSchemaFields =
     [(''name'', strField (\<lambda>t s. s\<lparr>sdName := t\<rparr>)), (''description'', strField (\<lambda>t s. s\<lparr>sdDescription := t\<rparr>)),
      (''fields'', sliceField zeroField (decodeStruct schemaFieldFields) (\<lambda>fs s. s\<lparr>sdFields := fs\<rparr>)),
      (''indexes'', sliceField zeroIndex (decodeStruct indexFields) (\<lambda>is s. s\<lparr>sdIndexes := is\<rparr>))]"

definition chainIndexFields :: "(string \<times> chainIndex fieldReader) list" where
  "chainIndexFields =
     [(''name'', strField (\<lambda>t i. i\<lparr>ciName := t\<rparr>)),
      (''fields'', sliceField [] (strField (\<lambda>t _. t)) (\<lambda>ts i. i\<lparr>ciFields := ts\<rparr>)),
      (''unique'', boolField (\<lambda>b i. i\<lparr>ciUnique := b\<rparr>))]"

text \<open>A map of names to texts: a null value is the empty text, and a null map is no map.\<close>

fun setText :: "string \<Rightarrow> json \<Rightarrow> (string \<times> string) list \<Rightarrow> (string \<times> string) list option" where
  "setText k (JStr t) m = Some (AList.update k t m)"
| "setText k JNull m = Some (AList.update k [] m)"
| "setText k v m = None"

fun setTexts :: "(string \<times> json) list \<Rightarrow> (string \<times> string) list \<Rightarrow> (string \<times> string) list option" where
  "setTexts [] m = Some m"
| "setTexts ((k, v) # ms) m = Option.bind (setText k v m) (setTexts ms)"

definition fieldMap :: "chainSchema fieldReader" where
  "fieldMap c v =
     (case v of
        JNull \<Rightarrow> Some (c\<lparr>csFields := []\<rparr>)
      | JObj ms \<Rightarrow> map_option (\<lambda>m. c\<lparr>csFields := m\<rparr>) (setTexts ms (csFields c))
      | _ \<Rightarrow> None)"

definition chainSchemaFields :: "(string \<times> chainSchema fieldReader) list" where
  "chainSchemaFields =
     [(''version'', uintField 32 (\<lambda>n c. c\<lparr>csVersion := n\<rparr>)), (''fields'', fieldMap),
      (''indexes'', sliceField \<lparr>ciName = [], ciFields = [], ciUnique = False\<rparr> (decodeStruct chainIndexFields)
                      (\<lambda>is c. c\<lparr>csIndexes := is\<rparr>)),
      (''required_fields'', sliceField [] (strField (\<lambda>t _. t)) (\<lambda>ts c. c\<lparr>csRequiredFields := ts\<rparr>))]"

definition fieldFromChain :: "chainSchema \<Rightarrow> string \<Rightarrow> SchemaField" where
  "fieldFromChain c name =
     \<lparr>sfName = name, sfType = (case map_of (csFields c) name of Some t \<Rightarrow> t | None \<Rightarrow> []),
      sfRequired = (name \<in> set (csRequiredFields c)), sfIndexed = False\<rparr>"

definition schemaFromChain :: "chainSchema \<Rightarrow> SchemaDefinition" where
  "schemaFromChain c =
     \<lparr>sdName = [], sdDescription = [],
      sdFields = map (fieldFromChain c) (sort (map fst (csFields c))),
      sdIndexes = map (\<lambda>i. \<lparr>ixName = ciName i, ixFields = ciFields i, ixType = [], ixUnique = ciUnique i\<rparr>)
                    (csIndexes c)\<rparr>"

fun isObject :: "json option \<Rightarrow> bool" where
  "isObject (Some (JObj ms)) = True"
| "isObject v = False"

definition readSchema :: "json \<Rightarrow> SchemaDefinition option" where
  "readSchema v =
     (case decodeStruct [(''fields'', rawField (\<lambda>v _. Some v))] None v of
        None \<Rightarrow> None
      | Some probe \<Rightarrow>
          if \<not> isObject probe then decodeStruct plainSchemaFields zeroSchema v
          else map_option schemaFromChain
            (decodeStruct chainSchemaFields \<lparr>csVersion = 0, csFields = [], csIndexes = [], csRequiredFields = []\<rparr> v))"

definition UnmarshalSchema :: "string \<Rightarrow> SchemaDefinition option" where
  "UnmarshalSchema data = Option.bind (unmarshalJson data) readSchema"

subsection \<open>Lemmas\<close>

definition typeOf :: "string \<Rightarrow> string" where
  "typeOf t = (case chainFieldType t of Inr u \<Rightarrow> u | Inl _ \<Rightarrow> [])"

text \<open>The schema that is read back: no label, and the fields by name with the chain's types.\<close>

definition normalField :: "SchemaField \<Rightarrow> SchemaField" where
  "normalField f = \<lparr>sfName = sfName f, sfType = typeOf (sfType f), sfRequired = sfRequired f, sfIndexed = False\<rparr>"

definition normalSchema :: "SchemaDefinition \<Rightarrow> SchemaDefinition" where
  "normalSchema s =
     \<lparr>sdName = [], sdDescription = [], sdFields = sort_key sfName (map normalField (sdFields s)), sdIndexes = []\<rparr>"

definition nameAndType :: "SchemaField \<Rightarrow> string \<times> string" where
  "nameAndType f = (sfName f, typeOf (sfType f))"

lemma chainFieldType_known: "chainFieldType t = Inr u \<Longrightarrow> u \<in> set chainFieldTypes"
  by (auto simp: chainFieldType_def chainFieldTypes_def Let_def split: if_splits)

definition addField :: "SchemaField \<Rightarrow> chainSchema \<Rightarrow> chainSchema" where
  "addField f out =
     out\<lparr>csFields := csFields out @ [nameAndType f],
         csRequiredFields := csRequiredFields out @ (if sfRequired f then [sfName f] else [])\<rparr>"

lemma addFields_Cons:
  "addFields (f # fs) out = Inr out' \<longleftrightarrow>
     sfName f \<noteq> [] \<and> sfName f \<notin> fst ` set (csFields out) \<and> \<not> sfIndexed f
     \<and> (\<exists>u. chainFieldType (sfType f) = Inr u) \<and> addFields fs (addField f out) = Inr out'"
  by (auto simp: bindR_eq_Inr addField_def nameAndType_def typeOf_def)

declare addFields.simps(2) [simp del]

lemma addFields_result:
  "addFields fs out = Inr out' \<Longrightarrow>
     out' = out\<lparr>csFields := csFields out @ map nameAndType fs,
                csRequiredFields := csRequiredFields out @ map sfName (filter sfRequired fs)\<rparr>"
proof (induction fs arbitrary: out)
  case (Cons f fs)
  then have "addFields fs (addField f out) = Inr out'" by (simp only: addFields_Cons)
  from Cons.IH [OF this] show ?case by (simp add: addField_def)
qed simp

lemma addFields_distinct:
  "addFields fs out = Inr out' \<Longrightarrow> distinct (map fst (csFields out)) \<Longrightarrow>
     distinct (map fst (csFields out) @ map sfName fs)"
proof (induction fs arbitrary: out)
  case (Cons f fs)
  then have "distinct (map fst (csFields (addField f out)) @ map sfName fs)"
    by (intro Cons.IH) (auto simp: addFields_Cons addField_def nameAndType_def)
  then show ?case by (auto simp: addField_def nameAndType_def)
qed simp

lemma addFields_fields:
  "addFields fs out = Inr out' \<Longrightarrow>
     \<forall>f \<in> set fs. sfName f \<noteq> [] \<and> \<not> sfIndexed f \<and> typeOf (sfType f) \<in> set chainFieldTypes"
  by (induction fs arbitrary: out) (auto simp: addFields_Cons typeOf_def chainFieldType_known)

lemma sort_key_map: "sort_key f (map g xs) = map g (sort_key (\<lambda>x. f (g x)) xs)"
proof -
  have "insort_key f (g x) (map g ys) = map g (insort_key (\<lambda>x. f (g x)) x ys)" for x ys
    by (induction ys) simp_all
  then show ?thesis by (induction xs) simp_all
qed

lemma map_fst_sort: "map fst (sort_key fst xs) = sort (map fst xs)"
  using sort_key_map [of "\<lambda>x. x" fst xs] by simp

lemma map_fst_nameAndType [simp]: "map fst (map nameAndType fs) = map sfName fs"
  by (simp add: nameAndType_def)

lemma alist_update_new: "k \<notin> fst ` set m \<Longrightarrow> AList.update k v m = m @ [(k, v)]"
  by (induction m) auto

lemma setTexts_new:
  "distinct (map fst m @ map fst xs) \<Longrightarrow> setTexts (map (\<lambda>(k, t). (k, JStr t)) xs) m = Some (m @ xs)"
  by (induction xs arbitrary: m) (auto simp: alist_update_new)

lemma known_ascii: "u \<in> set chainFieldTypes \<Longrightarrow> asciiText u"
  by (auto simp: chainFieldTypes_def charNat_def)

lemma chainSchemaJson_clean:
  assumes "list_all (\<lambda>(k, t). validString k \<and> asciiText t) (csFields c)" and "csIndexes c = []"
    and "list_all validString (csRequiredFields c)"
  shows "cleanJson (chainSchemaJson c) = chainSchemaJson c"
proof -
  have "(\<lambda>(k, t). validString k \<and> asciiText t) p" if "p \<in> set (sort_key fst (csFields c))" for p
    using that assms(1) by (auto simp: list_all_iff)
  then have "map (\<lambda>(k, v). (cleanText k, cleanJson v)) (map (\<lambda>(k, t). (k, JStr t)) (sort_key fst (csFields c)))
      = map (\<lambda>(k, t). (k, JStr t)) (sort_key fst (csFields c))"
    by (auto simp: cleanText_valid cleanText_asciiText)
  moreover have "map cleanJson (map JStr (csRequiredFields c)) = map JStr (csRequiredFields c)"
    using assms(3) by (auto simp: list_all_iff cleanText_valid)
  ultimately show ?thesis using assms(2) by (simp add: chainSchemaJson_def charNat_def)
qed

lemma chainSchemaJson_plain:
  assumes "csIndexes c = []"
  shows "plainNumbers (chainSchemaJson c) \<and> nesting (chainSchemaJson c) \<le> 2"
proof -
  have "fold max (map (\<lambda>(k, v). nesting v) (map (\<lambda>(k, t). (k, JStr t)) xs)) 0 = 0" for xs :: "(string \<times> string) list"
    by (induction xs) auto
  then show ?thesis using assms plain_texts [of "csRequiredFields c"]
    by (auto simp: chainSchemaJson_def list_all_iff)
qed

text \<open>What a schema that is written consists of.\<close>

lemma ChainSchemaJSON_written:
  assumes "ChainSchemaJSON s = Inr t"
  shows "t = printJson (chainSchemaJson \<lparr>csVersion = 1, csFields = map nameAndType (sdFields s), csIndexes = [],
           csRequiredFields = map sfName (filter sfRequired (sdFields s))\<rparr>)"
    and "distinct (map sfName (sdFields s))"
    and "\<forall>f \<in> set (sdFields s). typeOf (sfType f) \<in> set chainFieldTypes"
proof -
  let ?empty = "\<lparr>csVersion = 1, csFields = [], csIndexes = [], csRequiredFields = []\<rparr>"
  obtain out where out: "addFields (sdFields s) ?empty = Inr out" and t: "t = printJson (chainSchemaJson out)"
    using assms by (auto simp: ChainSchemaJSON_def bindR_eq_Inr split: if_splits)
  show "t = printJson (chainSchemaJson \<lparr>csVersion = 1, csFields = map nameAndType (sdFields s), csIndexes = [],
           csRequiredFields = map sfName (filter sfRequired (sdFields s))\<rparr>)"
    using t addFields_result [OF out] by simp
  show "distinct (map sfName (sdFields s))" using addFields_distinct [OF out] by simp
  show "\<forall>f \<in> set (sdFields s). typeOf (sfType f) \<in> set chainFieldTypes"
    using addFields_fields [OF out] by blast
qed

lemma fieldFromChain_written:
  assumes "distinct (map sfName fs)" and "f \<in> set fs"
    and "csFields c = sort_key fst (map nameAndType fs)" and "csRequiredFields c = map sfName (filter sfRequired fs)"
  shows "fieldFromChain c (sfName f) = normalField f"
proof -
  have "distinct (map fst (sort_key fst (map nameAndType fs)))"
    using assms(1) unfolding map_fst_sort map_fst_nameAndType by simp
  then have "map_of (csFields c) (sfName f) = Some (typeOf (sfType f))"
    using assms(2,3) by (intro map_of_is_SomeI) (auto simp: nameAndType_def)
  moreover have "sfName f \<in> set (csRequiredFields c) \<longleftrightarrow> sfRequired f"
    using assms(1,2,4) by (auto simp: distinct_map inj_on_def)
  ultimately show ?thesis by (simp add: fieldFromChain_def normalField_def)
qed

lemma schemaFromChain_written:
  assumes "distinct (map sfName (sdFields s))"
    and "c = \<lparr>csVersion = 1, csFields = sort_key fst (map nameAndType (sdFields s)), csIndexes = [],
           csRequiredFields = map sfName (filter sfRequired (sdFields s))\<rparr>"
  shows "schemaFromChain c = normalSchema s"
proof -
  have "map fst (csFields c) = map sfName (sort_key sfName (sdFields s))"
    using assms(2) by (simp add: sort_key_map nameAndType_def)
  then have "sort (map fst (csFields c)) = map sfName (sort_key sfName (sdFields s))"
    by (simp add: sorted_sort_id)
  moreover have "map (fieldFromChain c) (map sfName (sort_key sfName (sdFields s)))
      = map normalField (sort_key sfName (sdFields s))"
    using fieldFromChain_written [OF assms(1)] assms(2) by simp
  ultimately show ?thesis using assms(2)
    by (simp add: schemaFromChain_def normalSchema_def sort_key_map) (simp add: normalField_def)
qed

lemma readSchema_written:
  assumes "distinct (map fst (csFields c))" and "csIndexes c = []" and "csVersion c = 1"
  shows "readSchema (chainSchemaJson c) = Some (schemaFromChain
    \<lparr>csVersion = 1, csFields = sort_key fst (csFields c), csIndexes = [], csRequiredFields = csRequiredFields c\<rparr>)"
proof -
  have "distinct (map fst (sort_key fst (csFields c)))"
    using assms(1) unfolding map_fst_sort by simp
  then have "setTexts (map (\<lambda>(k, t). (k, JStr t)) (sort_key fst (csFields c))) [] = Some (sort_key fst (csFields c))"
    using setTexts_new [of "[]"] by simp
  moreover have "uintField 32 upd x (uintJson 1) = Some (upd 1 x)" for upd :: "nat \<Rightarrow> chainSchema \<Rightarrow> chainSchema" and x
    by (simp add: uintField_def uintJson_def parseUint_formatUint)
  ultimately show ?thesis
    using assms(2,3)
    by (simp add: readSchema_def decodeStruct_def chainSchemaJson_def fieldFor_def foldName.simps rawField_def
          chainSchemaFields_def fieldMap_def sliceField_texts sliceField_def [where v = "JArr []"])
qed

text \<open>The schema a registration carries, when its fields have UTF-8 names.\<close>

definition writtenSchema :: "SchemaDefinition \<Rightarrow> chainSchema" where
  "writtenSchema s =
     \<lparr>csVersion = 1, csFields = map nameAndType (sdFields s), csIndexes = [],
      csRequiredFields = map sfName (filter sfRequired (sdFields s))\<rparr>"

lemma writtenSchema_clean:
  assumes "ChainSchemaJSON s = Inr t" and "\<forall>f \<in> set (sdFields s). validString (sfName f)"
  shows "cleanJson (chainSchemaJson (writtenSchema s)) = chainSchemaJson (writtenSchema s)"
  using assms(2) ChainSchemaJSON_written(3) [OF assms(1)]
  by (intro chainSchemaJson_clean) (auto simp: writtenSchema_def list_all_iff nameAndType_def known_ascii)

lemma UnmarshalSchema_written:
  assumes "ChainSchemaJSON s = Inr t" and "\<forall>f \<in> set (sdFields s). validString (sfName f)"
  shows "UnmarshalSchema t = Some (normalSchema s)"
proof -
  note w = ChainSchemaJSON_written [OF assms(1), folded writtenSchema_def]
  have "unmarshalJson t = Some (chainSchemaJson (writtenSchema s))"
    using writtenSchema_clean [OF assms] chainSchemaJson_plain [of "writtenSchema s"] w(1)
    by (simp add: unmarshal_clean writtenSchema_def)
  moreover have "readSchema (chainSchemaJson (writtenSchema s)) = Some (normalSchema s)"
    using readSchema_written [of "writtenSchema s"] schemaFromChain_written [OF w(2) refl] w(2)
    by (simp add: writtenSchema_def nameAndType_def o_def)
  ultimately show ?thesis by (simp add: UnmarshalSchema_def)
qed

lemma jsonObjectEntries_printed:
  assumes "plainNumbers (JObj ms)" and "nesting (JObj ms) \<le> 100" and "cleanJson (JObj ms) = JObj ms"
  shows "jsonObjectEntries (printJson (JObj ms)) = Some ms"
proof -
  have "readJson (Suc maxNestingDepth) ExpectValue [] (printJson (JObj ms) @ [])
      = finish (Suc maxNestingDepth) (cleanJson (JObj ms)) [] []"
    using assms by (intro readsBackD readsBack_all) (simp_all add: maxNestingDepth_def numberEnd_def)
  then have "readJson (Suc maxNestingDepth) ExpectValue [] (printJson (JObj ms)) = Some (JObj ms, [])"
    unfolding assms(3) by (simp add: finish_def)
  then show ?thesis by (simp only: jsonObjectEntries_def) (simp add: skipWs_def)
qed

lemma eachR_ok: "\<forall>x \<in> set xs. f x = Inr () \<Longrightarrow> eachR f xs = Inr ()"
  by (induction xs) simp_all

lemma checkChainSchema_written:
  assumes "ChainSchemaJSON s = Inr t" and "\<forall>f \<in> set (sdFields s). validString (sfName f)"
  shows "checkChainSchema t = Inr ()"
proof -
  note w = ChainSchemaJSON_written [OF assms(1), folded writtenSchema_def]
  let ?c = "writtenSchema s"
  obtain ms where ms: "chainSchemaJson ?c = JObj ms" by (simp add: chainSchemaJson_def)
  have entries: "jsonObjectEntries t = Some ms"
    using jsonObjectEntries_printed [of ms] writtenSchema_clean [OF assms] chainSchemaJson_plain [of ?c] w(1) ms
    by (simp add: writtenSchema_def)
  have fields: "eachR schemaField (map (\<lambda>(k, t). (k, JStr t)) (sort_key fst (csFields ?c))) = Inr ()"
    using w(3) by (intro eachR_ok) (auto simp: writtenSchema_def nameAndType_def ensureR_eq_Inr)
  have required: "eachR (\<lambda>name. ensureR (isText name) SchemaRequired) (map JStr (csRequiredFields ?c)) = Inr ()"
    by (intro eachR_ok) (auto simp: ensureR_eq_Inr)
  have "checkEntries [] ms = Inr ()"
    using ms fields required
    by (auto simp: chainSchemaJson_def schemaEntry_def ensureR_eq_Inr uintJson_def parseUint_formatUint bindR_eq_Inr)
      (simp_all add: writtenSchema_def ensureR_eq_Inr parseUint_formatUint)
  then show ?thesis by (simp add: checkChainSchema_def entries)
qed

subsection \<open>Properties\<close>

text \<open>
  C22: a schema that is written in the chain's form, its field names UTF-8, is read back as
  its fields in the order of their names, each with the chain's type and its required flag.
\<close>

theorem schema_roundtrip:
  assumes "ChainSchemaJSON s = Inr t" and "\<forall>f \<in> set (sdFields s). validString (sfName f)"
  shows "UnmarshalSchema t = Some (normalSchema s)"
  using assms by (rule UnmarshalSchema_written)

text \<open>
  C23: a schema that is written in the chain's form passes the checks that the message of a
  registration makes of its schema, so a registration is never refused for it.
\<close>

theorem written_schema_accepted:
  assumes "ChainSchemaJSON s = Inr t" and "\<forall>f \<in> set (sdFields s). validString (sfName f)"
  shows "checkChainSchema t = Inr ()"
  using assms by (rule checkChainSchema_written)

subsection \<open>The builder\<close>

definition NewSchemaBuilder :: "string \<Rightarrow> SchemaDefinition" where
  "NewSchemaBuilder name = \<lparr>sdName = name, sdDescription = [], sdFields = [], sdIndexes = []\<rparr>"

definition DescriptionOf :: "string \<Rightarrow> SchemaDefinition \<Rightarrow> SchemaDefinition" where
  "DescriptionOf desc b = b\<lparr>sdDescription := desc\<rparr>"

definition Field :: "string \<Rightarrow> string \<Rightarrow> bool \<Rightarrow> bool \<Rightarrow> SchemaDefinition \<Rightarrow> SchemaDefinition" where
  "Field name fieldType required isIndexed b =
     b\<lparr>sdFields := sdFields b @
        [\<lparr>sfName = name, sfType = fieldType, sfRequired = required, sfIndexed = isIndexed\<rparr>]\<rparr>"

definition StringField :: "string \<Rightarrow> bool \<Rightarrow> SchemaDefinition \<Rightarrow> SchemaDefinition" where
  "StringField name required = Field name ''string'' required False"

definition IntField :: "string \<Rightarrow> bool \<Rightarrow> SchemaDefinition \<Rightarrow> SchemaDefinition" where
  "IntField name required = Field name ''int'' required False"

definition FloatField :: "string \<Rightarrow> bool \<Rightarrow> SchemaDefinition \<Rightarrow> SchemaDefinition" where
  "FloatField name required = Field name ''float'' required False"

definition BoolField :: "string \<Rightarrow> bool \<Rightarrow> SchemaDefinition \<Rightarrow> SchemaDefinition" where
  "BoolField name required = Field name ''bool'' required False"

definition ArrayField :: "string \<Rightarrow> string \<Rightarrow> bool \<Rightarrow> SchemaDefinition \<Rightarrow> SchemaDefinition" where
  "ArrayField name itemType required = Field name (''array:'' @ itemType) required False"

definition ObjectField :: "string \<Rightarrow> bool \<Rightarrow> SchemaDefinition \<Rightarrow> SchemaDefinition" where
  "ObjectField name required = Field name ''object'' required False"

definition Index :: "string \<Rightarrow> string list \<Rightarrow> string \<Rightarrow> bool \<Rightarrow> SchemaDefinition \<Rightarrow> SchemaDefinition" where
  "Index name fs indexType unique b =
     b\<lparr>sdIndexes := sdIndexes b @ [\<lparr>ixName = name, ixFields = fs, ixType = indexType, ixUnique = unique\<rparr>]\<rparr>"

definition HashIndex :: "string \<Rightarrow> string list \<Rightarrow> SchemaDefinition \<Rightarrow> SchemaDefinition" where
  "HashIndex name fs = Index name fs ''hash'' False"

definition RangeIndex :: "string \<Rightarrow> string list \<Rightarrow> SchemaDefinition \<Rightarrow> SchemaDefinition" where
  "RangeIndex name fs = Index name fs ''range'' False"

definition FullTextIndex :: "string \<Rightarrow> string list \<Rightarrow> SchemaDefinition \<Rightarrow> SchemaDefinition" where
  "FullTextIndex name fs = Index name fs ''fulltext'' False"

definition UniqueIndex :: "string \<Rightarrow> string list \<Rightarrow> SchemaDefinition \<Rightarrow> SchemaDefinition" where
  "UniqueIndex name fs = Index name fs ''hash'' True"

text \<open>An index makes a schema one that can't be registered.\<close>

lemma indexed_refused: "ChainSchemaJSON (Index name fs indexType unique b) = Inl SchemaIndexed"
  by (simp add: ChainSchemaJSON_def Index_def)

subsection \<open>Witnesses\<close>

definition sampleSchema :: SchemaDefinition where
  "sampleSchema = ArrayField ''a'' ''int'' False (IntField ''b'' True (NewSchemaBuilder ''s''))"

definition sampleSchemaText :: string where
  "sampleSchemaText = printJson (chainSchemaJson (writtenSchema sampleSchema))"

lemma sample_schema_written: "ChainSchemaJSON sampleSchema = Inr sampleSchemaText"
  by code_simp

theorem schema_roundtrip_witness: "UnmarshalSchema sampleSchemaText = Some (normalSchema sampleSchema)"
  by (rule schema_roundtrip [OF sample_schema_written]) code_simp

theorem written_schema_accepted_witness: "checkChainSchema sampleSchemaText = Inr ()"
  by (rule written_schema_accepted [OF sample_schema_written]) code_simp

end
