(* ===== verification/Transactions.thy ===== *)
theory Transactions
  imports Schema Auth Writes
begin

text \<open>
  The transactions a client sends for its identity: storing an item (\<^verbatim>\<open>data.go\<close>), registering
  and deleting a subgrove (\<^verbatim>\<open>registration.go\<close>) and the key grants of a private one
  (\<^verbatim>\<open>privacy.go\<close>).  Each checks its arguments, and each is a \<^verbatim>\<open>signedWrite\<close> with a builder that
  signs the transaction's message under the nonce the write takes.

  The theory shows that whatever is submitted carries the identity's signature over the
  message of exactly that transaction under the nonce it was given, that a refused call sends
  nothing and touches no nonce, and that the message of a deletion determines it.
\<close>

subsection \<open>Building a transaction\<close>

text \<open>\<^verbatim>\<open>json.Marshal\<close> of \<^verbatim>\<open>{kind: tx}\<close>.\<close>

definition txBody :: "string \<Rightarrow> json \<Rightarrow> string" where
  "txBody kind tx = printJson (JObj [(kind, tx)])"

definition signOver :: "cryptoLib \<Rightarrow> Identity \<Rightarrow> 'e + string \<Rightarrow> bytes option" where
  "signOver lib i message =
     (case message of
        Inl _ \<Rightarrow> None
      | Inr m \<Rightarrow>
          (case SignKey lib (idKeyPair i) (stringBytes m) of Inl _ \<Rightarrow> None | Inr signature \<Rightarrow> Some signature))"

datatype opError = Refused sdkError | BadMessage messageError | BadSchema schemaError | WriteFailed writeFailure

type_synonym 'a writeResult = "nonceAllocator \<times> (u64 \<times> string) list \<times> (opError + 'a)"

text \<open>A write of the client's identity with a builder of its own.\<close>

definition runWrite ::
  "writeEnv \<Rightarrow> nonceAllocator \<Rightarrow> Identity \<Rightarrow> u64 option \<Rightarrow> (u64 \<Rightarrow> string option) \<Rightarrow> WriteResult writeResult" where
  "runWrite env a i withNonce txFor =
     (case signedWrite (env\<lparr>builder := txFor\<rparr>) a (DID i) withNonce of
        (a', sent, res) \<Rightarrow> (a', sent, case res of Inl e \<Rightarrow> Inl (WriteFailed e) | Inr r \<Rightarrow> Inr r))"

definition refused :: "nonceAllocator \<Rightarrow> opError \<Rightarrow> 'a writeResult" where
  "refused a e = (a, [], Inl e)"

subsection \<open>Items\<close>

text \<open>\<^verbatim>\<open>encoding/json\<close> writes the keys of a map in order.\<close>

fun sortKeys :: "json \<Rightarrow> json" where
  "sortKeys (JArr vs) = JArr (map sortKeys vs)"
| "sortKeys (JObj ms) = JObj (sort_key fst (map (\<lambda>(k, v). (k, sortKeys v)) ms))"
| "sortKeys v = v"

definition storeDataJson ::
  "string \<Rightarrow> string \<Rightarrow> bytes \<Rightarrow> string \<Rightarrow> bytes \<Rightarrow> string \<Rightarrow> u64 \<Rightarrow> json" where
  "storeDataJson subgroveID key body owner signature publicKeyID nonce =
     JObj [(''subgrove_id'', textJson subgroveID), (''key'', textJson key), (''data'', byteArrayJson body),
           (''owner_did'', textJson owner), (''signature'', byteArrayJson signature),
           (''public_key_id'', textJson publicKeyID), (''nonce'', uintJson (unat nonce))]"

definition storeDataTx :: "cryptoLib \<Rightarrow> Identity \<Rightarrow> string \<Rightarrow> string \<Rightarrow> bytes \<Rightarrow> u64 \<Rightarrow> string option" where
  "storeDataTx lib i subgroveID key body nonce =
     map_option (\<lambda>signature. txBody ''StoreData''
        (storeDataJson subgroveID key body (DID i) signature (PublicKeyID i) nonce))
       (signOver lib i (FormatDataStoreMessage subgroveID key (DID i) body nonce))"

definition StoreItem ::
  "cryptoLib \<Rightarrow> writeEnv \<Rightarrow> nonceAllocator \<Rightarrow> Identity option \<Rightarrow> string \<Rightarrow> string \<Rightarrow> (string \<times> json) list option
    \<Rightarrow> u64 option \<Rightarrow> WriteResult writeResult" where
  "StoreItem lib env a ident subgroveID key data withNonce =
     (case ident of
        None \<Rightarrow> refused a (Refused ErrNotAuthenticated)
      | Some i \<Rightarrow>
          (case data of
             None \<Rightarrow> refused a (Refused (NewValidationError ''StoreItem: data must be a JSON object, not nil''))
           | Some ms \<Rightarrow>
               runWrite env a i withNonce
                 (storeDataTx lib i subgroveID key (stringBytes (printJson (sortKeys (JObj ms)))))))"

subsection \<open>Subgroves\<close>

record RegisterSubgroveRequest =
  rrSubgroveID :: string
  rrName :: string
  rrDescription :: string
  rrSchema :: SchemaDefinition
  rrOwnerDid :: string
  rrWriters :: "string list"
  rrReaders :: "string list"
  rrRewardRate :: u64

definition registrationTx ::
  "Identity \<Rightarrow> RegisterSubgroveRequest \<Rightarrow> string \<Rightarrow> u64 \<Rightarrow> bytes \<Rightarrow> RegisterSubgroveTx" where
  "registrationTx i req schema nonce signature =
     \<lparr>rsSubgroveID = rrSubgroveID req, rsName = rrName req, rsDescription = rrDescription req, rsSchema = schema,
      rsOwnerDid = DID i, rsAdmins = [], rsInitialFunding = None, rsRequiredTEE = None,
      rsMode = Some \<lparr>smDataStorage = Some \<lparr>dsName = rrName req, dsWriters = rrWriters req,
          dsFreeReaders = rrReaders req, dsReadPricing = None\<rparr>,
        smFileStorage = None, smBlockchainIndexing = None\<rparr>,
      rsPrivacy = None, rsInitialOwnerKeyGrant = None, rsTemplateConfig = None, rsConfirmationDepth = 0,
      rsSignature = signature, rsPublicKeyID = PublicKeyID i, rsNonce = nonce,
      rsCryptographicCompleteness = False\<rparr>"

definition registerTx ::
  "cryptoLib \<Rightarrow> Identity \<Rightarrow> RegisterSubgroveRequest \<Rightarrow> string \<Rightarrow> u64 \<Rightarrow> string option" where
  "registerTx lib i req schema nonce =
     Option.bind (signOver lib i (FormatRegisterSubgroveMessage (registrationTx i req schema nonce []))) (\<lambda>signature.
       map_option (txBody ''RegisterSubgrove'') (marshalTx (registrationTx i req schema nonce signature)))"

definition RegisterSubgrove ::
  "cryptoLib \<Rightarrow> writeEnv \<Rightarrow> nonceAllocator \<Rightarrow> Identity option \<Rightarrow> RegisterSubgroveRequest option \<Rightarrow> u64 option
    \<Rightarrow> WriteResult writeResult" where
  "RegisterSubgrove lib env a ident request withNonce =
     (case ident of
        None \<Rightarrow> refused a (Refused ErrNotAuthenticated)
      | Some i \<Rightarrow>
          (case request of
             None \<Rightarrow> refused a (Refused (NewValidationError ''RegisterSubgrove: no request''))
           | Some req \<Rightarrow>
               if rrOwnerDid req \<noteq> [] \<and> rrOwnerDid req \<noteq> DID i
               then refused a (Refused (NewValidationError
                 ''RegisterSubgrove: the owner signs the registration, so OwnerDid must be the identity's DID''))
               else if rrRewardRate req \<noteq> 0
               then refused a (Refused (NewValidationError
                 ''RegisterSubgrove: a DataStorage registration has no reward rate''))
               else case validateStorageSubgroveID (rrSubgroveID req) of
                 Inl e \<Rightarrow> refused a (BadMessage e)
               | Inr _ \<Rightarrow>
                   (case ChainSchemaJSON (rrSchema req) of
                      Inl e \<Rightarrow> refused a (BadSchema e)
                    | Inr schema \<Rightarrow> runWrite env a i withNonce (registerTx lib i req schema))))"

definition DeregisterSubgroveSignMessage :: "string \<Rightarrow> string \<Rightarrow> u64 \<Rightarrow> string" where
  "DeregisterSubgroveSignMessage subgroveID ownerDid nonce =
     ''DeregisterSubgrove:'' @ subgroveID @ '':'' @ ownerDid @ '':'' @ formatUint (unat nonce)"

definition deregisterJson :: "string \<Rightarrow> string \<Rightarrow> bytes \<Rightarrow> string \<Rightarrow> u64 \<Rightarrow> json" where
  "deregisterJson subgroveID owner signature publicKeyID nonce =
     JObj [(''subgrove_id'', textJson subgroveID), (''owner_did'', textJson owner),
           (''signature'', byteArrayJson signature), (''public_key_id'', textJson publicKeyID),
           (''nonce'', uintJson (unat nonce))]"

definition deregisterTx :: "cryptoLib \<Rightarrow> Identity \<Rightarrow> string \<Rightarrow> u64 \<Rightarrow> string option" where
  "deregisterTx lib i subgroveID nonce =
     map_option (\<lambda>signature. txBody ''DeregisterSubgrove''
        (deregisterJson subgroveID (DID i) signature (PublicKeyID i) nonce))
       (signOver lib i (Inr (DeregisterSubgroveSignMessage subgroveID (DID i) nonce) :: messageError + string))"

definition DeleteSubgrove ::
  "cryptoLib \<Rightarrow> writeEnv \<Rightarrow> nonceAllocator \<Rightarrow> Identity option \<Rightarrow> string \<Rightarrow> u64 option \<Rightarrow> WriteResult writeResult" where
  "DeleteSubgrove lib env a ident subgroveID withNonce =
     (case ident of
        None \<Rightarrow> refused a (Refused ErrNotAuthenticated)
      | Some i \<Rightarrow> runWrite env a i withNonce (deregisterTx lib i subgroveID))"

subsection \<open>Key grants\<close>

definition grantKeyJson ::
  "string \<Rightarrow> EncryptedKeyGrant \<Rightarrow> string \<Rightarrow> bytes \<Rightarrow> string \<Rightarrow> u64 \<Rightarrow> json" where
  "grantKeyJson subgroveID grant sender signature publicKeyID nonce =
     JObj [(''subgrove_id'', textJson subgroveID), (''encrypted_key_grant'', grantJson grant),
           (''sender_did'', textJson sender), (''signature'', byteArrayJson signature),
           (''public_key_id'', textJson publicKeyID), (''nonce'', uintJson (unat nonce))]"

definition grantKeyTx :: "cryptoLib \<Rightarrow> Identity \<Rightarrow> string \<Rightarrow> EncryptedKeyGrant \<Rightarrow> u64 \<Rightarrow> string option" where
  "grantKeyTx lib i subgroveID grant nonce =
     map_option (\<lambda>signature. txBody ''GrantSubgroveKey''
        (grantKeyJson subgroveID grant (DID i) signature (PublicKeyID i) nonce))
       (signOver lib i (FormatGrantSubgroveKeyMessage subgroveID (DID i) grant nonce))"

definition GrantSubgroveKey ::
  "cryptoLib \<Rightarrow> writeEnv \<Rightarrow> nonceAllocator \<Rightarrow> Identity option \<Rightarrow> string \<Rightarrow> EncryptedKeyGrant \<Rightarrow> u64 option
    \<Rightarrow> WriteResult writeResult" where
  "GrantSubgroveKey lib env a ident subgroveID grant withNonce =
     (case ident of
        None \<Rightarrow> refused a (Refused ErrNotAuthenticated)
      | Some i \<Rightarrow>
          (case validateGrantees [grant] of
             Inl e \<Rightarrow> refused a (BadMessage e)
           | Inr _ \<Rightarrow> runWrite env a i withNonce (grantKeyTx lib i subgroveID grant)))"

definition revokeKeyJson :: "string \<Rightarrow> string \<Rightarrow> string \<Rightarrow> bytes \<Rightarrow> string \<Rightarrow> u64 \<Rightarrow> json" where
  "revokeKeyJson subgroveID revokee sender signature publicKeyID nonce =
     JObj [(''subgrove_id'', textJson subgroveID), (''revokee_did'', textJson revokee),
           (''sender_did'', textJson sender), (''signature'', byteArrayJson signature),
           (''public_key_id'', textJson publicKeyID), (''nonce'', uintJson (unat nonce))]"

definition revokeKeyTx :: "cryptoLib \<Rightarrow> Identity \<Rightarrow> string \<Rightarrow> string \<Rightarrow> u64 \<Rightarrow> string option" where
  "revokeKeyTx lib i subgroveID revokee nonce =
     map_option (\<lambda>signature. txBody ''RevokeSubgroveKey''
        (revokeKeyJson subgroveID revokee (DID i) signature (PublicKeyID i) nonce))
       (signOver lib i (revokeSubgroveKeyMessage subgroveID revokee (DID i) nonce))"

definition RevokeSubgroveKey ::
  "cryptoLib \<Rightarrow> writeEnv \<Rightarrow> nonceAllocator \<Rightarrow> Identity option \<Rightarrow> string \<Rightarrow> string \<Rightarrow> u64 option
    \<Rightarrow> WriteResult writeResult" where
  "RevokeSubgroveKey lib env a ident subgroveID revokee withNonce =
     (case ident of
        None \<Rightarrow> refused a (Refused ErrNotAuthenticated)
      | Some i \<Rightarrow>
          (case validateRevoke subgroveID revokee (DID i) of
             Inl e \<Rightarrow> refused a (BadMessage e)
           | Inr _ \<Rightarrow> runWrite env a i withNonce (revokeKeyTx lib i subgroveID revokee)))"

definition rotateKeyJson ::
  "string \<Rightarrow> u32 \<Rightarrow> EncryptedKeyGrant list \<Rightarrow> string \<Rightarrow> bytes \<Rightarrow> string \<Rightarrow> u64 \<Rightarrow> json" where
  "rotateKeyJson subgroveID newEpoch grants sender signature publicKeyID nonce =
     JObj [(''subgrove_id'', textJson subgroveID), (''new_epoch'', uintJson (unat newEpoch)),
           (''new_grants'', JArr (map grantJson grants)), (''sender_did'', textJson sender),
           (''signature'', byteArrayJson signature), (''public_key_id'', textJson publicKeyID),
           (''nonce'', uintJson (unat nonce))]"

definition rotateKeyTx ::
  "cryptoLib \<Rightarrow> Identity \<Rightarrow> string \<Rightarrow> u32 \<Rightarrow> EncryptedKeyGrant list \<Rightarrow> u64 \<Rightarrow> string option" where
  "rotateKeyTx lib i subgroveID newEpoch grants nonce =
     map_option (\<lambda>signature. txBody ''RotateSubgroveKey''
        (rotateKeyJson subgroveID newEpoch grants (DID i) signature (PublicKeyID i) nonce))
       (signOver lib i (FormatRotateSubgroveKeyMessage subgroveID (DID i) newEpoch grants nonce))"

definition RotateSubgroveKey ::
  "cryptoLib \<Rightarrow> writeEnv \<Rightarrow> nonceAllocator \<Rightarrow> Identity option \<Rightarrow> string \<Rightarrow> u32 \<Rightarrow> EncryptedKeyGrant list
    \<Rightarrow> u64 option \<Rightarrow> WriteResult writeResult" where
  "RotateSubgroveKey lib env a ident subgroveID newEpoch grants withNonce =
     (case ident of
        None \<Rightarrow> refused a (Refused ErrNotAuthenticated)
      | Some i \<Rightarrow>
          (case validateRotation newEpoch grants of
             Inl e \<Rightarrow> refused a (BadMessage e)
           | Inr _ \<Rightarrow> runWrite env a i withNonce (rotateKeyTx lib i subgroveID newEpoch grants)))"

subsection \<open>The calls as one type\<close>

datatype txCall =
    StoreCall string string "(string \<times> json) list option"
  | RegisterCall "RegisterSubgroveRequest option"
  | DeregisterCall string
  | GrantCall string EncryptedKeyGrant
  | RevokeCall string string
  | RotateCall string u32 "EncryptedKeyGrant list"

fun perform ::
  "cryptoLib \<Rightarrow> writeEnv \<Rightarrow> nonceAllocator \<Rightarrow> Identity option \<Rightarrow> u64 option \<Rightarrow> txCall \<Rightarrow> WriteResult writeResult" where
  "perform lib env a ident w (StoreCall s k data) = StoreItem lib env a ident s k data w"
| "perform lib env a ident w (RegisterCall req) = RegisterSubgrove lib env a ident req w"
| "perform lib env a ident w (DeregisterCall s) = DeleteSubgrove lib env a ident s w"
| "perform lib env a ident w (GrantCall s g) = GrantSubgroveKey lib env a ident s g w"
| "perform lib env a ident w (RevokeCall s r) = RevokeSubgroveKey lib env a ident s r w"
| "perform lib env a ident w (RotateCall s e gs) = RotateSubgroveKey lib env a ident s e gs w"

text \<open>
  What the chain is meant to receive for a call: its kind, the text the identity signs for it
  under a nonce, and the transaction with the signature in it.
\<close>

fun kindOf :: "txCall \<Rightarrow> string" where
  "kindOf (StoreCall s k data) = ''StoreData''"
| "kindOf (RegisterCall req) = ''RegisterSubgrove''"
| "kindOf (DeregisterCall s) = ''DeregisterSubgrove''"
| "kindOf (GrantCall s g) = ''GrantSubgroveKey''"
| "kindOf (RevokeCall s r) = ''RevokeSubgroveKey''"
| "kindOf (RotateCall s e gs) = ''RotateSubgroveKey''"

definition itemBytes :: "(string \<times> json) list option \<Rightarrow> bytes" where
  "itemBytes data = stringBytes (printJson (sortKeys (JObj (the data))))"

fun messageText :: "Identity \<Rightarrow> txCall \<Rightarrow> u64 \<Rightarrow> string option" where
  "messageText i (StoreCall s k data) n =
     (case FormatDataStoreMessage s k (DID i) (itemBytes data) n of Inl _ \<Rightarrow> None | Inr m \<Rightarrow> Some m)"
| "messageText i (RegisterCall None) n = None"
| "messageText i (RegisterCall (Some req)) n =
     (case ChainSchemaJSON (rrSchema req) of
        Inl _ \<Rightarrow> None
      | Inr schema \<Rightarrow>
          (case FormatRegisterSubgroveMessage (registrationTx i req schema n []) of Inl _ \<Rightarrow> None | Inr m \<Rightarrow> Some m))"
| "messageText i (DeregisterCall s) n = Some (DeregisterSubgroveSignMessage s (DID i) n)"
| "messageText i (GrantCall s g) n =
     (case FormatGrantSubgroveKeyMessage s (DID i) g n of Inl _ \<Rightarrow> None | Inr m \<Rightarrow> Some m)"
| "messageText i (RevokeCall s r) n =
     (case revokeSubgroveKeyMessage s r (DID i) n of Inl _ \<Rightarrow> None | Inr m \<Rightarrow> Some m)"
| "messageText i (RotateCall s e gs) n =
     (case FormatRotateSubgroveKeyMessage s (DID i) e gs n of Inl _ \<Rightarrow> None | Inr m \<Rightarrow> Some m)"

fun signedJson :: "Identity \<Rightarrow> txCall \<Rightarrow> u64 \<Rightarrow> bytes \<Rightarrow> json" where
  "signedJson i (StoreCall s k data) n sig = storeDataJson s k (itemBytes data) (DID i) sig (PublicKeyID i) n"
| "signedJson i (RegisterCall req) n sig =
     txJson (registrationTx i (the req) (projr (ChainSchemaJSON (rrSchema (the req)))) n sig) JNull"
| "signedJson i (DeregisterCall s) n sig = deregisterJson s (DID i) sig (PublicKeyID i) n"
| "signedJson i (GrantCall s g) n sig = grantKeyJson s g (DID i) sig (PublicKeyID i) n"
| "signedJson i (RevokeCall s r) n sig = revokeKeyJson s r (DID i) sig (PublicKeyID i) n"
| "signedJson i (RotateCall s e gs) n sig = rotateKeyJson s e gs (DID i) sig (PublicKeyID i) n"

definition signedBody :: "cryptoLib \<Rightarrow> Identity \<Rightarrow> txCall \<Rightarrow> u64 \<Rightarrow> string \<Rightarrow> bool" where
  "signedBody lib i call n body \<longleftrightarrow>
     (\<exists>m sig. messageText i call n = Some m \<and> SignKey lib (idKeyPair i) (stringBytes m) = Inr sig
        \<and> body = txBody (kindOf call) (signedJson i call n sig))"

subsection \<open>Lemmas\<close>

lemma signOver_Some:
  "signOver lib i message = Some sig \<longleftrightarrow>
     (\<exists>m. message = Inr m \<and> SignKey lib (idKeyPair i) (stringBytes m) = Inr sig)"
  by (auto simp: signOver_def split: sum.splits)

lemma runWrite_sent:
  assumes "runWrite env a i w txFor = (a', sent, res)"
  shows "length sent \<le> 1" and "\<And>n body. (n, body) \<in> set sent \<Longrightarrow> txFor n = Some body \<and> (w = None \<or> w = Some n)"
proof -
  obtain r where "signedWrite (env\<lparr>builder := txFor\<rparr>) a (DID i) w = (a', sent, r)"
    using assms by (auto simp: runWrite_def split: prod.splits)
  from signedWrite_once [OF this]
  show "length sent \<le> 1" "\<And>n body. (n, body) \<in> set sent \<Longrightarrow> txFor n = Some body \<and> (w = None \<or> w = Some n)"
    by (auto simp: onceOk_def)
qed

lemma marshal_registration: "marshalTx (registrationTx i req schema n sig) = Some (txJson (registrationTx i req schema n sig) JNull)"
  by (simp add: marshalTx_def templateJson_def registrationTx_def)

text \<open>A call is refused, or it writes with a builder of signed bodies.\<close>

definition refusedOrWrites ::
  "writeEnv \<Rightarrow> nonceAllocator \<Rightarrow> Identity option \<Rightarrow> u64 option \<Rightarrow> (Identity \<Rightarrow> u64 \<Rightarrow> string option)
    \<Rightarrow> WriteResult writeResult \<Rightarrow> bool" where
  "refusedOrWrites env a ident w txFor r \<longleftrightarrow>
     (\<exists>e. r = refused a e) \<or> (\<exists>i. ident = Some i \<and> r = runWrite env a i w (txFor i))"

fun txOf :: "cryptoLib \<Rightarrow> txCall \<Rightarrow> Identity \<Rightarrow> u64 \<Rightarrow> string option" where
  "txOf lib (StoreCall s k data) i n = storeDataTx lib i s k (itemBytes data) n"
| "txOf lib (RegisterCall req) i n =
     (case ChainSchemaJSON (rrSchema (the req)) of
        Inl _ \<Rightarrow> None
      | Inr schema \<Rightarrow> if req = None then None else registerTx lib i (the req) schema n)"
| "txOf lib (DeregisterCall s) i n = deregisterTx lib i s n"
| "txOf lib (GrantCall s g) i n = grantKeyTx lib i s g n"
| "txOf lib (RevokeCall s r) i n = revokeKeyTx lib i s r n"
| "txOf lib (RotateCall s e gs) i n = rotateKeyTx lib i s e gs n"

lemma perform_writes: "refusedOrWrites env a ident w (txOf lib call) (perform lib env a ident w call)"
proof (cases call)
  case (StoreCall s k data)
  have "txOf lib call i = storeDataTx lib i s k (itemBytes data)" for i using StoreCall by (simp add: fun_eq_iff)
  then show ?thesis using StoreCall
    by (auto simp: refusedOrWrites_def StoreItem_def itemBytes_def split: option.splits)
next
  case (RegisterCall req)
  have "txOf lib call i = registerTx lib i r schema"
    if "req = Some r" "ChainSchemaJSON (rrSchema r) = Inr schema" for i r schema
    using RegisterCall that by (simp add: fun_eq_iff)
  then show ?thesis using RegisterCall
    by (auto simp: refusedOrWrites_def RegisterSubgrove_def split: option.splits sum.splits)
next
  case (DeregisterCall s)
  have "txOf lib call i = deregisterTx lib i s" for i using DeregisterCall by (simp add: fun_eq_iff)
  then show ?thesis using DeregisterCall by (auto simp: refusedOrWrites_def DeleteSubgrove_def split: option.splits)
next
  case (GrantCall s g)
  have "txOf lib call i = grantKeyTx lib i s g" for i using GrantCall by (simp add: fun_eq_iff)
  then show ?thesis using GrantCall
    by (auto simp: refusedOrWrites_def GrantSubgroveKey_def split: option.splits sum.splits)
next
  case (RevokeCall s r)
  have "txOf lib call i = revokeKeyTx lib i s r" for i using RevokeCall by (simp add: fun_eq_iff)
  then show ?thesis using RevokeCall
    by (auto simp: refusedOrWrites_def RevokeSubgroveKey_def split: option.splits sum.splits)
next
  case (RotateCall s e gs)
  have "txOf lib call i = rotateKeyTx lib i s e gs" for i using RotateCall by (simp add: fun_eq_iff)
  then show ?thesis using RotateCall
    by (auto simp: refusedOrWrites_def RotateSubgroveKey_def split: option.splits sum.splits)
qed

lemma txOf_signed:
  assumes "txOf lib call i n = Some body"
  shows "signedBody lib i call n body"
proof (cases call)
  case (RegisterCall req)
  then obtain r schema where "req = Some r" "ChainSchemaJSON (rrSchema r) = Inr schema"
    "registerTx lib i r schema n = Some body"
    using assms by (auto split: sum.splits if_splits)
  then show ?thesis using RegisterCall
    by (auto simp: registerTx_def bind_eq_Some_conv signOver_Some signedBody_def marshal_registration)
qed (use assms in \<open>auto simp: storeDataTx_def deregisterTx_def grantKeyTx_def revokeKeyTx_def rotateKeyTx_def
      signOver_Some signedBody_def\<close>)

lemma sent_signed:
  assumes "perform lib env a ident w call = (a', sent, res)"
  shows "length sent \<le> 1" and "\<forall>(n, body) \<in> set sent. \<exists>i. ident = Some i \<and> signedBody lib i call n body"
proof -
  consider (refused) e where "(a', sent, res) = refused a e"
    | (written) i where "ident = Some i" "runWrite env a i w (txOf lib call i) = (a', sent, res)"
    using perform_writes [of env a ident w lib call] unfolding refusedOrWrites_def assms by metis
  then have "length sent \<le> 1 \<and> (\<forall>(n, body) \<in> set sent. \<exists>i. ident = Some i \<and> signedBody lib i call n body)"
  proof cases
    case refused
    then show ?thesis by (simp add: refused_def)
  next
    case written
    then show ?thesis using runWrite_sent [OF written(2)] txOf_signed by fastforce
  qed
  then show "length sent \<le> 1" "\<forall>(n, body) \<in> set sent. \<exists>i. ident = Some i \<and> signedBody lib i call n body"
    by blast+
qed

lemma perform_refused:
  assumes "perform lib env a None w call = (a', sent, res)"
  shows "a' = a \<and> sent = []"
  using perform_writes [of env a None w lib call] assms by (auto simp: refusedOrWrites_def refused_def)

lemma deregister_message_binds:
  "DeregisterSubgroveSignMessage s did n = DeregisterSubgroveSignMessage s' did n' \<longleftrightarrow> s = s' \<and> n = n'"
proof
  assume eq: "DeregisterSubgroveSignMessage s did n = DeregisterSubgroveSignMessage s' did n'"
  have nums: "CHR '':'' \<notin> set (rev (formatUint (unat k)))" for k :: u64
    using formatUint_notin [of "CHR '':''"] by (simp add: isDigit_def)
  have split: "rev (formatUint (unat n)) @ CHR '':'' # rev (s @ '':'' @ did) = rev (formatUint (unat n')) @ CHR '':'' # rev (s' @ '':'' @ did)"
    using arg_cong [OF eq, of rev] by (simp add: DeregisterSubgroveSignMessage_def)
  then have "formatUint (unat n) = formatUint (unat n')" "s @ '':'' @ did = s' @ '':'' @ did"
    using append_sep_cut [OF split nums nums] by (metis rev_rev_ident)+
  then show "s = s' \<and> n = n'" by (simp add: formatUint_inj word_unat_eq_iff)
qed simp

subsection \<open>Properties\<close>

text \<open>
  C11: whatever a client submits when it stores an item, registers or deletes a subgrove, or
  grants, revokes or rotates a key, is one transaction of the kind called, carrying the
  signature of its own identity over the message of exactly that transaction under the nonce
  the submission took.
\<close>

theorem submissions_are_signed:
  assumes "perform lib env a ident w call = (a', sent, res)"
  shows "length sent \<le> 1 \<and> (\<forall>(n, body) \<in> set sent. \<exists>i. ident = Some i \<and> signedBody lib i call n body)"
  using sent_signed [OF assms] by blast

subsection \<open>Witnesses\<close>

definition stubLib :: cryptoLib where
  "stubLib =
     \<lparr>sha3Sum256 = id, libKeccak256 = id, ed25519Sign = \<lambda>_ m. take 2 m, ed25519Verify = \<lambda>_ _ _. False,
      secpPrivate = \<lambda>_. None, secpPublic = id, secpParse = \<lambda>_. None, secpSign = \<lambda>_ _. (1, 1),
      secpVerify = \<lambda>_ _ _. False, secpOrder = 0, derRead = \<lambda>_. None, derWrite = \<lambda>_. []\<rparr>"

definition sampleSigner :: Identity where
  "sampleSigner =
     \<lparr>idKeyPair = \<lparr>kpAlgorithm = Ed25519, kpPublicKey = [], kpPrivateKey = replicate 64 0\<rparr>,
      idDidDocument = \<lparr>ddID = ''did:willow:a'', ddPublicKeys = [], ddCreated = 0, ddUpdated = 0\<rparr>\<rparr>"

definition sampleTxBody :: string where
  "sampleTxBody = txBody ''DeregisterSubgrove'' (deregisterJson ''s'' ''did:willow:a'' [68, 101] [] 7)"

lemma sample_call_sent:
  "fst (snd (perform stubLib sampleEnv newNonceAllocator (Some sampleSigner) None (DeregisterCall ''s'')))
    = [(7, sampleTxBody)]"
  by code_simp

theorem submissions_are_signed_witness: "signedBody stubLib sampleSigner (DeregisterCall ''s'') 7 sampleTxBody"
proof -
  obtain a' sent res where r: "perform stubLib sampleEnv newNonceAllocator (Some sampleSigner) None (DeregisterCall ''s'')
      = (a', sent, res)" by (rule prod_cases3)
  then have "sent = [(7, sampleTxBody)]" using sample_call_sent by simp
  then show ?thesis using submissions_are_signed [OF r] by simp
qed

end
