(* ===== verification/Account.thy ===== *)
theory Account
  imports Auth Wire Uint128
begin

text \<open>
  What a client reads of accounts, tokens, fees and validators (\<^verbatim>\<open>token.go\<close>, \<^verbatim>\<open>validators.go\<close>,
  the reads of \<^verbatim>\<open>client.go\<close>, \<^verbatim>\<open>registration.go\<close>, \<^verbatim>\<open>privacy.go\<close> and \<^verbatim>\<open>indexing.go\<close>, their types in
  \<^verbatim>\<open>types.go\<close> and the JSON hook of a 128-bit amount).  A read is one API request through
  \<open>requestData\<close>; \<open>Inl None\<close> is the panic of a request that is retried a negative number of times.

  The theory shows that an amount survives the wire in either form, that a fee is the exact
  product of the server's rate and the size, and that the total stake is the exact sum of
  the active stakes or an error.
\<close>

subsection \<open>Requests\<close>

text \<open>The API as a request of a method, a path and a body meets it, attempt by attempt.\<close>

record apiNet =
  apLower :: "string \<Rightarrow> string"
  apScale :: "int \<Rightarrow> int"
  apRetry :: RetryConfig
  apSpare :: "nat \<Rightarrow> nat"
  apWorld :: "string \<Rightarrow> string \<Rightarrow> string option \<Rightarrow> source retryWorld"

type_synonym 'a apiResult = "sdkError option + 'a"

text \<open>
  A request whose data is decoded into a variable that starts at \<open>zero\<close>, which it keeps when
  the answer has no data.
\<close>

definition requestInto ::
  "apiNet \<Rightarrow> string \<Rightarrow> string \<Rightarrow> string option \<Rightarrow> nat \<Rightarrow> ('a \<Rightarrow> json \<Rightarrow> 'a option) \<Rightarrow> 'a \<Rightarrow> 'a apiResult" where
  "requestInto w method path payload limit reader zero =
     (case requestData (apLower w) (apScale w) (apRetry w) (apSpare w) (apWorld w method path payload)
             (Inr payload) limit
             (Some (\<lambda>v. case reader zero v of None \<Rightarrow> Inl (Foreign ''cannot unmarshal'') | Some x \<Rightarrow> Inr x)) of
        Inl e \<Rightarrow> Inl e
      | Inr None \<Rightarrow> Inr zero
      | Inr (Some x) \<Rightarrow> Inr x)"

definition getData :: "apiNet \<Rightarrow> string \<Rightarrow> ('a \<Rightarrow> json \<Rightarrow> 'a option) \<Rightarrow> 'a \<Rightarrow> 'a apiResult" where
  "getData w path reader zero = requestInto w ''GET'' path None Small reader zero"

definition postData ::
  "apiNet \<Rightarrow> string \<Rightarrow> string \<Rightarrow> nat \<Rightarrow> ('a \<Rightarrow> json \<Rightarrow> 'a option) \<Rightarrow> 'a \<Rightarrow> 'a apiResult" where
  "postData w path payload limit reader zero = requestInto w ''POST'' path (Some payload) limit reader zero"

text \<open>A route that answers with the result itself and not the envelope.\<close>

definition readBare :: "('a \<Rightarrow> json \<Rightarrow> 'a option) \<Rightarrow> 'a \<Rightarrow> string \<Rightarrow> sdkError + 'a" where
  "readBare reader zero body =
     (case Option.bind (unmarshalJson body) (reader zero) of
        None \<Rightarrow> Inl (Foreign ''cannot unmarshal'')
      | Some x \<Rightarrow> Inr x)"

definition getBare :: "apiNet \<Rightarrow> string \<Rightarrow> ('a \<Rightarrow> json \<Rightarrow> 'a option) \<Rightarrow> 'a \<Rightarrow> 'a apiResult" where
  "getBare w path reader zero =
     (case doRequest (apScale w) (apRetry w) (apSpare w) (apWorld w ''GET'' path None) (Inr None) Small
             (Some (readBare reader zero)) of
        Inl e \<Rightarrow> Inl e
      | Inr None \<Rightarrow> Inr zero
      | Inr (Some x) \<Rightarrow> Inr x)"

definition requireAuth :: "Identity option \<Rightarrow> (Identity \<Rightarrow> 'a apiResult) \<Rightarrow> 'a apiResult" where
  "requireAuth ident f = (case ident of None \<Rightarrow> Inl (Some ErrNotAuthenticated) | Some i \<Rightarrow> f i)"

subsection \<open>Amounts\<close>

text \<open>\<^verbatim>\<open>Uint128.UnmarshalJSON\<close>: a number or a string of decimal digits, null leaving the value.\<close>

definition UnmarshalUint128 :: "Uint128 fieldReader" where
  "UnmarshalUint128 u v =
     (case v of
        JNull \<Rightarrow> Some u
      | JNum t \<Rightarrow> (case ParseUint128 t of Inl _ \<Rightarrow> None | Inr x \<Rightarrow> Some x)
      | JStr t \<Rightarrow> (case ParseUint128 t of Inl _ \<Rightarrow> None | Inr x \<Rightarrow> Some x)
      | _ \<Rightarrow> None)"

definition amountField :: "(Uint128 \<Rightarrow> 's \<Rightarrow> 's) \<Rightarrow> ('s \<Rightarrow> Uint128) \<Rightarrow> 's fieldReader" where
  "amountField upd get s v = map_option (\<lambda>u. upd u s) (UnmarshalUint128 (get s) v)"

text \<open>\<^verbatim>\<open>amountString\<close>: the digits of an amount, null leaving the text.\<close>

definition amountString :: "(string \<Rightarrow> 's \<Rightarrow> 's) \<Rightarrow> 's fieldReader" where
  "amountString upd s v =
     (case v of
        JNull \<Rightarrow> Some s
      | _ \<Rightarrow> map_option (\<lambda>u. upd (StringUint128 u) s) (UnmarshalUint128 (NewUint128 0) v))"

subsection \<open>Tokens and fees\<close>

record TokenInfo =
  tiName :: string
  tiSymbol :: string
  tiDecimals :: nat
  tiGenesisSupply :: string
  tiMintedSupply :: string
  tiMaxSupply :: string
  tiCirculatingSupply :: string

definition tokenInfoFields :: "(string \<times> TokenInfo fieldReader) list" where
  "tokenInfoFields =
     [(''name'', strField (\<lambda>t s. s\<lparr>tiName := t\<rparr>)), (''symbol'', strField (\<lambda>t s. s\<lparr>tiSymbol := t\<rparr>)),
      (''decimals'', uintField 8 (\<lambda>n s. s\<lparr>tiDecimals := n\<rparr>)),
      (''genesis_supply'', amountString (\<lambda>t s. s\<lparr>tiGenesisSupply := t\<rparr>)),
      (''minted_supply'', amountString (\<lambda>t s. s\<lparr>tiMintedSupply := t\<rparr>)),
      (''max_supply'', amountString (\<lambda>t s. s\<lparr>tiMaxSupply := t\<rparr>)),
      (''circulating_supply'', amountString (\<lambda>t s. s\<lparr>tiCirculatingSupply := t\<rparr>))]"

definition zeroTokenInfo :: TokenInfo where
  "zeroTokenInfo = \<lparr>tiName = [], tiSymbol = [], tiDecimals = 0, tiGenesisSupply = [], tiMintedSupply = [],
     tiMaxSupply = [], tiCirculatingSupply = []\<rparr>"

text \<open>The hook decodes into a value of its own and then replaces the result.\<close>

definition readTokenInfo :: "TokenInfo fieldReader" where
  "readTokenInfo s v = decodeStruct tokenInfoFields zeroTokenInfo v"

definition GetInfo :: "apiNet \<Rightarrow> TokenInfo apiResult" where
  "GetInfo w = getData w ''/token/info'' readTokenInfo zeroTokenInfo"

record BalanceInfo =
  biDID :: string
  biAvailable :: Uint128
  biStaked :: Uint128
  biLocked :: Uint128

definition balanceFields :: "(string \<times> BalanceInfo fieldReader) list" where
  "balanceFields =
     [(''did'', strField (\<lambda>t s. s\<lparr>biDID := t\<rparr>)),
      (''available'', amountField (\<lambda>u s. s\<lparr>biAvailable := u\<rparr>) biAvailable),
      (''staked'', amountField (\<lambda>u s. s\<lparr>biStaked := u\<rparr>) biStaked),
      (''locked'', amountField (\<lambda>u s. s\<lparr>biLocked := u\<rparr>) biLocked)]"

definition GetBalance :: "apiNet \<Rightarrow> string \<Rightarrow> BalanceInfo apiResult" where
  "GetBalance w did =
     getData w (''/token/balance/'' @ did) (decodeStruct balanceFields)
       \<lparr>biDID = [], biAvailable = NewUint128 0, biStaked = NewUint128 0, biLocked = NewUint128 0\<rparr>"

definition GetMyBalance :: "apiNet \<Rightarrow> Identity option \<Rightarrow> BalanceInfo apiResult" where
  "GetMyBalance w ident = requireAuth ident (\<lambda>i. GetBalance w (DID i))"

record FeeSchedule =
  fsDidRegistration :: string
  fsSubgroveRegistration :: string
  fsBaseTxCost :: string
  fsCostPerByte :: string
  fsQueryFee :: string
  fsTransferFeePercentage :: nat
  fsMaxTxSizeBytes :: nat
  fsMaxDataPayloadBytes :: nat

definition feeFields :: "(string \<times> FeeSchedule fieldReader) list" where
  "feeFields =
     [(''did_registration'', amountString (\<lambda>t s. s\<lparr>fsDidRegistration := t\<rparr>)),
      (''subgrove_registration'', amountString (\<lambda>t s. s\<lparr>fsSubgroveRegistration := t\<rparr>)),
      (''base_tx_cost'', amountString (\<lambda>t s. s\<lparr>fsBaseTxCost := t\<rparr>)),
      (''cost_per_byte'', amountString (\<lambda>t s. s\<lparr>fsCostPerByte := t\<rparr>)),
      (''query_fee'', amountString (\<lambda>t s. s\<lparr>fsQueryFee := t\<rparr>)),
      (''transfer_fee_percentage'', uintField 32 (\<lambda>n s. s\<lparr>fsTransferFeePercentage := n\<rparr>)),
      (''max_tx_size_bytes'', uintField 64 (\<lambda>n s. s\<lparr>fsMaxTxSizeBytes := n\<rparr>)),
      (''max_data_payload_bytes'', uintField 64 (\<lambda>n s. s\<lparr>fsMaxDataPayloadBytes := n\<rparr>))]"

definition zeroFees :: FeeSchedule where
  "zeroFees = \<lparr>fsDidRegistration = [], fsSubgroveRegistration = [], fsBaseTxCost = [], fsCostPerByte = [],
     fsQueryFee = [], fsTransferFeePercentage = 0, fsMaxTxSizeBytes = 0, fsMaxDataPayloadBytes = 0\<rparr>"

definition readFees :: "FeeSchedule fieldReader" where
  "readFees s v = decodeStruct feeFields zeroFees v"

definition GetFeeSchedule :: "apiNet \<Rightarrow> FeeSchedule apiResult" where
  "GetFeeSchedule w = getData w ''/fees/schedule'' readFees zeroFees"

text \<open>\<^verbatim>\<open>big.Int.SetString\<close> in base 10 of a text that is empty or the digits of an amount.\<close>

definition bigFromDigits :: "string \<Rightarrow> nat option" where
  "bigFromDigits s = (if s \<noteq> [] \<and> list_all isDigit s then Some (digitsVal s) else None)"

definition EstimateStorageFee :: "apiNet \<Rightarrow> u64 \<Rightarrow> string \<times> sdkError option option" where
  "EstimateStorageFee w dataSizeBytes =
     (case GetFeeSchedule w of
        Inl e \<Rightarrow> (''0'', Some e)
      | Inr fees \<Rightarrow>
          (case bigFromDigits (fsCostPerByte fees) of
             None \<Rightarrow> (''0'', Some (Some (Foreign ''invalid cost_per_byte from server'')))
           | Some costPerByte \<Rightarrow> (formatUint (costPerByte * unat dataSizeBytes), None)))"

definition EstimateQueryFee :: "apiNet \<Rightarrow> string \<times> sdkError option option" where
  "EstimateQueryFee w =
     (case GetFeeSchedule w of Inl e \<Rightarrow> (''0'', Some e) | Inr fees \<Rightarrow> (fsQueryFee fees, None))"

subsection \<open>Validators\<close>

datatype ValidatorStatus = ValidatorStatusActive | ValidatorStatusInactive | ValidatorStatusJailed

record ValidatorInfo =
  viDID :: string
  viTotalStake :: Uint128
  viSelfStake :: Uint128
  viActive :: bool
  viJailed :: bool
  viJailEndTime :: "nat option"
  viConsensusPubkey :: string

definition Status :: "ValidatorInfo \<Rightarrow> ValidatorStatus" where
  "Status v =
     (if viJailed v then ValidatorStatusJailed
      else if viActive v then ValidatorStatusActive
      else ValidatorStatusInactive)"

definition uintPtrField :: "nat \<Rightarrow> (nat option \<Rightarrow> 's \<Rightarrow> 's) \<Rightarrow> 's fieldReader" where
  "uintPtrField w upd s v =
     (case v of
        JNull \<Rightarrow> Some (upd None s)
      | JNum t \<Rightarrow> map_option (\<lambda>n. upd (Some n) s) (parseUint w t)
      | _ \<Rightarrow> None)"

definition validatorFields :: "(string \<times> ValidatorInfo fieldReader) list" where
  "validatorFields =
     [(''did'', strField (\<lambda>t s. s\<lparr>viDID := t\<rparr>)),
      (''total_stake'', amountField (\<lambda>u s. s\<lparr>viTotalStake := u\<rparr>) viTotalStake),
      (''self_stake'', amountField (\<lambda>u s. s\<lparr>viSelfStake := u\<rparr>) viSelfStake),
      (''active'', boolField (\<lambda>b s. s\<lparr>viActive := b\<rparr>)), (''jailed'', boolField (\<lambda>b s. s\<lparr>viJailed := b\<rparr>)),
      (''jail_end_time'', uintPtrField 64 (\<lambda>n s. s\<lparr>viJailEndTime := n\<rparr>)),
      (''consensus_pubkey'', strField (\<lambda>t s. s\<lparr>viConsensusPubkey := t\<rparr>))]"

definition zeroValidator :: ValidatorInfo where
  "zeroValidator = \<lparr>viDID = [], viTotalStake = NewUint128 0, viSelfStake = NewUint128 0, viActive = False,
     viJailed = False, viJailEndTime = None, viConsensusPubkey = []\<rparr>"

definition ListValidators :: "apiNet \<Rightarrow> ValidatorInfo list apiResult" where
  "ListValidators w =
     getData w ''/validators'' (\<lambda>s v. sliceField zeroValidator (decodeStruct validatorFields) (\<lambda>vs _. vs) s v) []"

definition GetValidator :: "apiNet \<Rightarrow> string \<Rightarrow> ValidatorInfo apiResult" where
  "GetValidator w did = getData w (''/validators/'' @ did) (decodeStruct validatorFields) zeroValidator"

definition GetActive :: "apiNet \<Rightarrow> ValidatorInfo list apiResult" where
  "GetActive w =
     bindR (ListValidators w) (\<lambda>validators. Inr (filter (\<lambda>v. Status v = ValidatorStatusActive) validators))"

definition GetTotalStake :: "apiNet \<Rightarrow> (sdkError option, uint128Error) sum + Uint128" where
  "GetTotalStake w =
     (case GetActive w of
        Inl e \<Rightarrow> Inl (Inl e)
      | Inr validators \<Rightarrow>
          (case Uint128FromBig (Some (fold (\<lambda>v total. total + Big (viTotalStake v)) validators 0)) of
             Inl e \<Rightarrow> Inl (Inr e)
           | Inr u \<Rightarrow> Inr u))"

subsection \<open>The state of the chain and the node\<close>

record HealthStatus =
  hsStatus :: string
  hsTimestamp :: string
  hsChecks :: "(string \<times> json) list"
  hsHealthy :: bool
  hsVersion :: string
  hsNodeID :: string
  hsNetwork :: string
  hsBlockHeight :: int
  hsSyncStatus :: string

text \<open>A map of untyped values: the members of the object that was read.\<close>

definition anyMapField :: "((string \<times> json) list \<Rightarrow> 's \<Rightarrow> 's) \<Rightarrow> 's fieldReader" where
  "anyMapField upd s v = (case v of JNull \<Rightarrow> Some (upd [] s) | JObj ms \<Rightarrow> Some (upd ms s) | _ \<Rightarrow> None)"

definition healthFields :: "(string \<times> HealthStatus fieldReader) list" where
  "healthFields =
     [(''status'', strField (\<lambda>t s. s\<lparr>hsStatus := t\<rparr>)), (''timestamp'', strField (\<lambda>t s. s\<lparr>hsTimestamp := t\<rparr>)),
      (''checks'', anyMapField (\<lambda>m s. s\<lparr>hsChecks := m\<rparr>)), (''healthy'', boolField (\<lambda>b s. s\<lparr>hsHealthy := b\<rparr>)),
      (''version'', strField (\<lambda>t s. s\<lparr>hsVersion := t\<rparr>)), (''node_id'', strField (\<lambda>t s. s\<lparr>hsNodeID := t\<rparr>)),
      (''network'', strField (\<lambda>t s. s\<lparr>hsNetwork := t\<rparr>)),
      (''block_height'', intField 64 (\<lambda>n s. s\<lparr>hsBlockHeight := n\<rparr>)),
      (''sync_status'', strField (\<lambda>t s. s\<lparr>hsSyncStatus := t\<rparr>))]"

definition zeroHealth :: HealthStatus where
  "zeroHealth = \<lparr>hsStatus = [], hsTimestamp = [], hsChecks = [], hsHealthy = False, hsVersion = [], hsNodeID = [],
     hsNetwork = [], hsBlockHeight = 0, hsSyncStatus = []\<rparr>"

definition Health :: "apiNet \<Rightarrow> HealthStatus apiResult" where
  "Health w =
     bindR (getBare w ''/health'' (decodeStruct healthFields) zeroHealth) (\<lambda>status.
       Inr (if hsStatus status \<noteq> [] then status\<lparr>hsHealthy := (hsStatus status = ''healthy'')\<rparr> else status))"

definition rootHashFields :: "(string \<times> string fieldReader) list" where
  "rootHashFields = [(''root_hash'', strField (\<lambda>t _. t))]"

definition GetRootHash :: "apiNet \<Rightarrow> string apiResult" where
  "GetRootHash w = getData w ''/state/root-hash'' (decodeStruct rootHashFields) []"

definition GetLatestAppHashOf :: "apiNet \<Rightarrow> string apiResult" where
  "GetLatestAppHashOf w = getData w ''/state/root-hash/verified'' (decodeStruct rootHashFields) []"

definition GetVerifiedRootHash :: "apiNet \<Rightarrow> string apiResult" where
  "GetVerifiedRootHash w = GetLatestAppHashOf w"

subsection \<open>DIDs\<close>

definition publicKeyFields :: "(string \<times> PublicKey fieldReader) list" where
  "publicKeyFields =
     [(''id'', strField (\<lambda>t k. k\<lparr>pkID := t\<rparr>)), (''type'', strField (\<lambda>t k. k\<lparr>pkType := t\<rparr>)),
      (''public_key_hex'', strField (\<lambda>t k. k\<lparr>pkPublicKeyHex := t\<rparr>))]"

definition didDocumentFields :: "(string \<times> DidDocument fieldReader) list" where
  "didDocumentFields =
     [(''id'', strField (\<lambda>t d. d\<lparr>ddID := t\<rparr>)),
      (''public_keys'', sliceField \<lparr>pkID = [], pkType = [], pkPublicKeyHex = []\<rparr> (decodeStruct publicKeyFields)
                          (\<lambda>ks d. d\<lparr>ddPublicKeys := ks\<rparr>)),
      (''created'', intField 64 (\<lambda>n d. d\<lparr>ddCreated := n\<rparr>)), (''updated'', intField 64 (\<lambda>n d. d\<lparr>ddUpdated := n\<rparr>))]"

text \<open>A pointer to a struct: null makes it nil, another value fills a struct, a new one where it was nil.\<close>

definition ptrReader :: "'a fieldReader \<Rightarrow> 'a \<Rightarrow> 'a option fieldReader" where
  "ptrReader reader zero p v =
     (case v of
        JNull \<Rightarrow> Some None
      | _ \<Rightarrow> map_option Some (reader (case p of None \<Rightarrow> zero | Some x \<Rightarrow> x) v))"

record DidInfo =
  diDid :: string
  diDocument :: DidDocument
  diCreatedAt :: int

definition GetDID :: "apiNet \<Rightarrow> string \<Rightarrow> DidInfo apiResult" where
  "GetDID w did =
     (case getData w (''/did/'' @ did)
             (ptrReader (decodeStruct didDocumentFields) \<lparr>ddID = [], ddPublicKeys = [], ddCreated = 0, ddUpdated = 0\<rparr>)
             None of
        Inl e \<Rightarrow> Inl e
      | Inr None \<Rightarrow> Inl (Some (WillowError ErrorTypeNotFound ''DID not found'' None))
      | Inr (Some document) \<Rightarrow>
          Inr \<lparr>diDid = ddID document, diDocument = document, diCreatedAt = ddCreated document\<rparr>)"

definition RegisterDID :: "sdkError" where
  "RegisterDID = NewUnsupportedError
     (''RegisterDID: the API serves no DID registration route; a DID is registered by a RegisterDid ''
      @ ''transaction sent to POST /tx/submit, which this SDK does not build'')"

subsection \<open>Lemmas\<close>

lemma requestInto_result:
  assumes "requestInto w m path payload limit reader zero = Inr x"
  shows "x = zero \<or> (\<exists>v. reader zero v = Some x)"
  using assms
  by (auto simp: requestInto_def requestData_def decodeEnvelope_def Let_def
      split: sum.splits option.splits json.splits if_splits)

lemma getData_result: "getData w path reader zero = Inr x \<Longrightarrow> x = zero \<or> (\<exists>v. reader zero v = Some x)"
  by (simp add: getData_def requestInto_result)

text \<open>An amount is read from the number and from the string of its digits.\<close>

lemma UnmarshalUint128_forms:
  "UnmarshalUint128 u (JNum (StringUint128 x)) = Some x" "UnmarshalUint128 u (JStr (StringUint128 x)) = Some x"
  by (simp_all add: UnmarshalUint128_def)

text \<open>A text that is absent or the digits of an amount.\<close>

definition amountText :: "string \<Rightarrow> bool" where
  "amountText t \<longleftrightarrow> t = [] \<or> (\<exists>u. t = StringUint128 u)"

definition feesTyped :: "FeeSchedule \<Rightarrow> bool" where
  "feesTyped f \<longleftrightarrow> list_all (\<lambda>get. amountText (get f))
     [fsDidRegistration, fsSubgroveRegistration, fsBaseTxCost, fsCostPerByte, fsQueryFee]"

lemma amountText_String [simp]: "amountText (StringUint128 u)" "amountText []"
  by (auto simp: amountText_def)

lemma feeFields_typed: "f \<in> snd ` set feeFields \<Longrightarrow> feesTyped s \<Longrightarrow> f s v = Some s' \<Longrightarrow> feesTyped s'"
  by (auto simp: feeFields_def feesTyped_def amountString_def uintField_def split: json.splits)

lemma GetFeeSchedule_typed:
  assumes "GetFeeSchedule w = Inr fees"
  shows "feesTyped fees"
proof -
  have zero: "feesTyped zeroFees" by (simp add: feesTyped_def zeroFees_def)
  have "feesTyped f" if "decodeStruct feeFields zeroFees v = Some f" for f v
    using that zero by (rule decodeStruct_keeps) (rule feeFields_typed)
  then show ?thesis
    using getData_result [OF assms [unfolded GetFeeSchedule_def]] zero by (auto simp: readFees_def)
qed

lemma bigFromDigits_amount:
  "bigFromDigits [] = None" "bigFromDigits (StringUint128 u) = Some (u128Val u)"
  by (simp_all add: bigFromDigits_def StringUint128_def Big_val formatUint_digits)

lemma fold_stake: "fold (\<lambda>v total. total + Big (viTotalStake v)) vs (int a)
    = int (a + sum_list (map (\<lambda>v. u128Val (viTotalStake v)) vs))"
  by (induction vs arbitrary: a) (simp_all add: Big_val flip: of_nat_add)

lemma Uint128FromBig_nat:
  "if n < 2 ^ 128 then \<exists>u. Uint128FromBig (Some (int n)) = Inr u \<and> u128Val u = n
   else \<exists>e. Uint128FromBig (Some (int n)) = Inl e"
proof (cases "n < 2 ^ 128")
  case True
  then have "int n < int (2 ^ 128)" by (simp only: of_nat_less_iff)
  then show ?thesis using FromBig_correct [of "Some (int n)"] True by (auto simp: Big_val)
next
  case False
  then have "128 < bitLen n" using bitLen_le [of n 128] by linarith
  then show ?thesis using False by (simp add: Uint128FromBig_def)
qed

lemma ListValidators_active:
  "ListValidators w = Inr vs \<Longrightarrow> GetActive w = Inr (filter (\<lambda>v. viActive v \<and> \<not> viJailed v) vs)"
  by (auto simp: GetActive_def Status_def intro!: filter_cong)

subsection \<open>Properties\<close>

text \<open>
  C30: the total stake is the exact sum of the stakes of the active validators that are not
  jailed when it is a u128, and an error otherwise: it never wraps.
\<close>

theorem total_stake_exact:
  assumes "ListValidators w = Inr vs"
    and "active = sum_list (map (\<lambda>v. u128Val (viTotalStake v)) (filter (\<lambda>v. viActive v \<and> \<not> viJailed v) vs))"
  shows "if active < 2 ^ 128 then \<exists>u. GetTotalStake w = Inr u \<and> u128Val u = active
    else \<exists>e. GetTotalStake w = Inl (Inr e)"
proof -
  let ?vs = "filter (\<lambda>v. viActive v \<and> \<not> viJailed v) vs"
  have "fold (\<lambda>v total. total + Big (viTotalStake v)) ?vs 0 = int active"
    using fold_stake [of ?vs 0] assms(2) by simp
  then have "GetTotalStake w = (case Uint128FromBig (Some (int active)) of Inl e \<Rightarrow> Inl (Inr e) | Inr u \<Rightarrow> Inr u)"
    by (simp add: GetTotalStake_def ListValidators_active [OF assms(1)])
  then show ?thesis using Uint128FromBig_nat [of active] by (auto split: if_splits)
qed

text \<open>
  A storage fee is the exact product of the server's rate, a u128, and the size, with no
  wrap at any width, and an estimate without a rate is the error with the text of zero.
\<close>

lemma storage_fee_exact:
  assumes "GetFeeSchedule w = Inr fees"
  shows "(\<exists>u. fsCostPerByte fees = StringUint128 u
           \<and> EstimateStorageFee w n = (formatUint (u128Val u * unat n), None))
    \<or> (fsCostPerByte fees = [] \<and> (\<exists>e. EstimateStorageFee w n = (''0'', Some e)))"
  using GetFeeSchedule_typed [OF assms]
  by (auto simp: feesTyped_def amountText_def EstimateStorageFee_def assms bigFromDigits_amount)

subsection \<open>Witnesses\<close>

text \<open>A node that answers every request with one text.\<close>

definition oneAnswer :: "string \<Rightarrow> apiNet" where
  "oneAnswer s =
     \<lparr>apLower = id, apScale = id, apRetry = DefaultRetryConfig, apSpare = \<lambda>n. 0,
      apWorld = \<lambda>_ _ _. \<lparr>rwCancelled = \<lambda>_. None, rwOutcome = \<lambda>_. Answer 200 \<lparr>chunks = [s], ending = EOF\<rparr>\<rparr>\<rparr>"

definition dataAnswer :: "json \<Rightarrow> string" where
  "dataAnswer v = printJson (JObj [(''success'', JBool True), (''data'', v)])"

lemma dataAnswer_read:
  assumes "plainNumbers v" and "nesting v < 100" and "cleanJson v = v"
  shows "readEnvelope (dataAnswer v) = Inr \<lparr>envSuccess = True, envData = Some v, envError = None\<rparr>"
proof -
  let ?v = "JObj [(''success'', JBool True), (''data'', v)]"
  have "unmarshalJson (printJson ?v) = Some ?v"
    using assms by (intro unmarshal_clean) (simp_all add: charNat_def)
  moreover have "decodeStruct envelopeFields emptyEnvelope ?v = Some \<lparr>envSuccess = True, envData = Some v, envError = None\<rparr>"
    by (simp add: decodeStruct_def envelopeFields_def emptyEnvelope_def fieldFor_def boolField_def rawField_def)
  ultimately show ?thesis by (simp add: dataAnswer_def readEnvelope_def)
qed

lemma getData_oneAnswer:
  assumes "plainNumbers v" and "nesting v < 100" and "cleanJson v = v" and "v \<noteq> JNull"
    and "length (dataAnswer v) \<le> Small" and "CheckJSON (dataAnswer v) = Inr ()"
    and "reader zero v = Some x"
  shows "getData (oneAnswer (dataAnswer v)) path reader zero = Inr x"
proof -
  let ?s = "\<lparr>chunks = [dataAnswer v], ending = EOF\<rparr>"
  have "rtResult (doWithRetry (apScale (oneAnswer t)) (apRetry (oneAnswer t)) (apWorld (oneAnswer t) m p b))
      = Got 200 \<lparr>chunks = [t], ending = EOF\<rparr>" for t m p b
    by (simp add: doWithRetry_def oneAnswer_def DefaultRetryConfig_def eval_nat_numeral)
  moreover have "readAnswer (\<lambda>n. 0) Small (Some readEnvelope) 200 ?s
      = Inr (Some \<lparr>envSuccess = True, envData = Some v, envError = None\<rparr>)"
    using assms(5,6) dataAnswer_read [OF assms(1-3)]
    by (simp add: readAnswer_def ReadAll_eq Unmarshal_def liftE_def dataAnswer_def)
  moreover have "decodeEnvelope lower (Some f) \<lparr>envSuccess = True, envData = Some v, envError = None\<rparr>
      = (case f v of
           Inl e \<Rightarrow> Inl (NewSerializationError ''failed to unmarshal response data'' (Some e))
         | Inr a \<Rightarrow> Inr (Some a))" for lower and f :: "json \<Rightarrow> sdkError + 'a"
    using assms(4) by (cases v) (simp_all add: decodeEnvelope_def)
  ultimately show ?thesis
    using assms(7) by (simp add: getData_def requestInto_def requestData_def doRequest_def) (simp add: oneAnswer_def)
qed

definition sampleRate :: string where
  "sampleRate = ''5000000000000000000''"

definition sampleFeesJson :: json where
  "sampleFeesJson = JObj [(''base_tx_cost'', JStr ''5''), (''cost_per_byte'', JNum sampleRate)]"

definition sampleFees :: FeeSchedule where
  "sampleFees = zeroFees\<lparr>fsBaseTxCost := ''5'', fsCostPerByte := sampleRate\<rparr>"

lemma sample_fees_answer:
  "plainNumbers sampleFeesJson" "nesting sampleFeesJson < 100" "cleanJson sampleFeesJson = sampleFeesJson"
  "length (dataAnswer sampleFeesJson) < 400" "CheckJSON (dataAnswer sampleFeesJson) = Inr ()"
  by code_simp+

lemma sample_digits: "digitChar 0 = CHR ''0''" "digitChar 2 = CHR ''2''" "digitChar 5 = CHR ''5''"
  by code_simp+

lemma sample_rate: "StringUint128 \<lparr>Hi = 0, Lo = 5000000000000000000\<rparr> = sampleRate"
proof -
  have "Big \<lparr>Hi = 0, Lo = 5000000000000000000\<rparr> = 5000000000000000000" by (simp add: Big_val u128Val_def)
  then show ?thesis by (simp add: StringUint128_def sampleRate_def formatUint.simps sample_digits)
qed

lemma sample_five: "StringUint128 \<lparr>Hi = 0, Lo = 5\<rparr> = ''5''"
proof -
  have "Big \<lparr>Hi = 0, Lo = 5\<rparr> = 5" by (simp add: Big_val u128Val_def)
  then show ?thesis by (simp add: StringUint128_def formatUint.simps sample_digits)
qed

lemmas sample_amounts = UnmarshalUint128_forms [of _ "\<lparr>Hi = 0, Lo = 5000000000000000000\<rparr>", unfolded sample_rate]
  UnmarshalUint128_forms [of _ "\<lparr>Hi = 0, Lo = 5\<rparr>", unfolded sample_five]

lemma sample_fees: "GetFeeSchedule (oneAnswer (dataAnswer sampleFeesJson)) = Inr sampleFees"
proof -
  have "readFees zeroFees sampleFeesJson = Some sampleFees"
    by (simp add: readFees_def sampleFeesJson_def decodeStruct_def fieldFor_def feeFields_def amountString_def
      sample_amounts sample_rate sample_five sampleFees_def strField_def)
  then show ?thesis
    unfolding GetFeeSchedule_def
    using sample_fees_answer by (intro getData_oneAnswer) (simp_all add: sampleFeesJson_def Small_def)
qed

lemma storage_fee_exact_sample:
  "EstimateStorageFee (oneAnswer (dataAnswer sampleFeesJson)) 5 = (''25000000000000000000'', None)"
proof -
  have rate: "fsCostPerByte sampleFees = sampleRate" by (simp add: sampleFees_def)
  obtain u where u: "sampleRate = StringUint128 u"
    "EstimateStorageFee (oneAnswer (dataAnswer sampleFeesJson)) 5 = (formatUint (u128Val u * 5), None)"
    using storage_fee_exact [OF sample_fees, of 5] by (auto simp: rate sampleRate_def)
  have "u = \<lparr>Hi = 0, Lo = 5000000000000000000\<rparr>"
    using u(1) sample_rate by (metis ParseUint128_decimal sum.inject(2))
  then show ?thesis using u(2) by (simp add: u128Val_def formatUint.simps sample_digits)
qed

definition sampleValidatorsJson :: json where
  "sampleValidatorsJson = JArr
     [JObj [(''did'', JStr ''a''), (''total_stake'', JNum ''5''), (''active'', JBool True)],
      JObj [(''did'', JStr ''b''), (''total_stake'', JStr ''5''), (''active'', JBool True)],
      JObj [(''did'', JStr ''c''), (''total_stake'', JNum ''5''), (''active'', JBool True), (''jailed'', JBool True)]]"

definition sampleValidators :: "ValidatorInfo list" where
  "sampleValidators =
     [zeroValidator\<lparr>viDID := ''a'', viTotalStake := \<lparr>Hi = 0, Lo = 5\<rparr>, viActive := True\<rparr>,
      zeroValidator\<lparr>viDID := ''b'', viTotalStake := \<lparr>Hi = 0, Lo = 5\<rparr>, viActive := True\<rparr>,
      zeroValidator\<lparr>viDID := ''c'', viTotalStake := \<lparr>Hi = 0, Lo = 5\<rparr>, viActive := True, viJailed := True\<rparr>]"

lemma sample_validators_answer:
  "plainNumbers sampleValidatorsJson" "nesting sampleValidatorsJson < 100"
  "cleanJson sampleValidatorsJson = sampleValidatorsJson"
  "length (dataAnswer sampleValidatorsJson) < 400" "CheckJSON (dataAnswer sampleValidatorsJson) = Inr ()"
  by code_simp+

lemma sample_validators_read:
  "sliceField zeroValidator (decodeStruct validatorFields) (\<lambda>vs _. vs) [] sampleValidatorsJson = Some sampleValidators"
  by (simp add: sliceField_def sampleValidatorsJson_def decodeStruct_def fieldFor_def validatorFields_def strField_def
    amountField_def boolField_def sample_amounts sampleValidators_def Let_def)

lemma sample_validators: "ListValidators (oneAnswer (dataAnswer sampleValidatorsJson)) = Inr sampleValidators"
  unfolding ListValidators_def
  using sample_validators_answer sample_validators_read by (intro getData_oneAnswer) (simp_all add: sampleValidatorsJson_def Small_def)

theorem total_stake_exact_witness:
  "\<exists>u. GetTotalStake (oneAnswer (dataAnswer sampleValidatorsJson)) = Inr u \<and> u128Val u = 10"
proof -
  have total: "10 = sum_list (map (\<lambda>v. u128Val (viTotalStake v)) (filter (\<lambda>v. viActive v \<and> \<not> viJailed v) sampleValidators))"
    by (simp add: sampleValidators_def u128Val_def zeroValidator_def)
  show ?thesis using total_stake_exact [OF sample_validators total] by simp
qed

end
