(* ===== verification/Data.thy ===== *)
theory Data
  imports Account Transactions
begin

text \<open>
  Reading a subgrove's data (\<^verbatim>\<open>data.go\<close>) and the computed fields a client adds to what it
  reads (\<^verbatim>\<open>computed_fields.go\<close>), with the request and response types of \<^verbatim>\<open>types.go\<close>.  An
  untyped value is the JSON it is written as, a record a map from field names to values; the
  function of a computed field is the user's.

  The theory shows which queries are sent and that the text of one determines what is asked,
  and that the fields a client computes are those of the unchanged record, the last
  definition of a name that gives a value deciding.
\<close>

subsection \<open>Requests and responses\<close>

record QueryFilter =
  qfField :: string
  qfOperator :: string
  qfValue :: json

record QuerySort =
  qsField :: string
  qsAscending :: bool

record QuerySearch =
  qhFields :: "string list"
  qhQuery :: string

record QueryRequest =
  qrFilters :: "QueryFilter list"
  qrSearch :: "QuerySearch option"
  qrSort :: "QuerySort option"
  qrLimit :: int
  qrOffset :: int
  qrIncludeProof :: "bool option"

type_synonym dataRecord = "string \<rightharpoonup> json"

record QueryDocument =
  quKey :: string
  quData :: dataRecord

record QueryResponse =
  qpResults :: "QueryDocument list"
  qpTotalCount :: int
  qpHasMore :: bool
  qpProof :: bytes
  qpHeight :: nat

record DataProof =
  dpProof :: bytes
  dpPath :: "bytes list"
  dpKey :: bytes
  dpRootHash :: string
  dpHeight :: int
  dpVerifiedAt :: int

record DataResponse =
  drKey :: string
  drData :: dataRecord
  drProof :: "DataProof option"

text \<open>Why a call fails: the query is refused, the request fails, or what it reads is not hex.\<close>

datatype queryError = NotEquality string | ObjectValue | ManyFilters nat | FullTextSearch | NegativePage

datatype dataFailure = QueryRefused queryError | RequestFailed "sdkError option" | NotHex string

definition raise :: "sdkError option + 'a \<Rightarrow> dataFailure + 'a" where
  "raise r = (case r of Inl e \<Rightarrow> Inl (RequestFailed e) | Inr x \<Rightarrow> Inr x)"

definition hexOrFail :: "string \<Rightarrow> string \<Rightarrow> dataFailure + bytes" where
  "hexOrFail message s = (case hexDecode s of Inl _ \<Rightarrow> Inl (NotHex message) | Inr b \<Rightarrow> Inr b)"

text \<open>An object read into a map: a key given twice keeps its last value.\<close>

definition recordReader :: "dataRecord fieldReader" where
  "recordReader m v =
     (case v of JNull \<Rightarrow> Some Map.empty | JObj ms \<Rightarrow> Some (m ++ map_of (rev ms)) | _ \<Rightarrow> None)"

subsection \<open>Computed fields\<close>

record ComputedFieldDefinition =
  cfName :: string
  cfDescription :: string
  cfDependencies :: "string list"
  cfCompute :: "dataRecord \<Rightarrow> json option"

type_synonym ComputedFieldSet = "ComputedFieldDefinition list"

type_synonym ComputedFieldRegistry = "string \<rightharpoonup> ComputedFieldSet"

definition NewComputedFieldRegistry :: ComputedFieldRegistry where
  "NewComputedFieldRegistry = Map.empty"

definition RegisterFields :: "string \<Rightarrow> ComputedFieldSet \<Rightarrow> ComputedFieldRegistry \<Rightarrow> ComputedFieldRegistry" where
  "RegisterFields datasetID defs r = r(datasetID \<mapsto> defs)"

definition GetFields :: "ComputedFieldRegistry \<Rightarrow> string \<Rightarrow> ComputedFieldSet option" where
  "GetFields r datasetID = r datasetID"

definition HasFields :: "ComputedFieldRegistry \<Rightarrow> string \<Rightarrow> bool" where
  "HasFields r datasetID \<longleftrightarrow> r datasetID \<noteq> None"

definition UnregisterFields :: "string \<Rightarrow> ComputedFieldRegistry \<Rightarrow> bool \<times> ComputedFieldRegistry" where
  "UnregisterFields datasetID r = (r datasetID \<noteq> None, r(datasetID := None))"

definition ClearFields :: "ComputedFieldRegistry \<Rightarrow> ComputedFieldRegistry" where
  "ClearFields r = Map.empty"

text \<open>A field is nil in a record without it and in one that has null for it.\<close>

definition isNil :: "dataRecord \<Rightarrow> string \<Rightarrow> bool" where
  "isNil record dep \<longleftrightarrow> record dep = None \<or> record dep = Some JNull"

definition hasDependencies :: "dataRecord \<Rightarrow> ComputedFieldDefinition \<Rightarrow> bool" where
  "hasDependencies record field = list_all (\<lambda>dep. \<not> isNil record dep) (cfDependencies field)"

definition applyField :: "dataRecord \<Rightarrow> ComputedFieldDefinition \<Rightarrow> dataRecord \<Rightarrow> dataRecord" where
  "applyField record field result =
     (if hasDependencies record field then
        (case cfCompute field record of None \<Rightarrow> result | Some computed \<Rightarrow> result(cfName field \<mapsto> computed))
      else result)"

definition ApplyComputedFields :: "dataRecord \<Rightarrow> ComputedFieldSet \<Rightarrow> dataRecord" where
  "ApplyComputedFields record defs = fold (applyField record) defs record"

definition ApplyComputedFieldsToResponse :: "QueryResponse \<Rightarrow> ComputedFieldSet \<Rightarrow> QueryResponse" where
  "ApplyComputedFieldsToResponse response defs =
     \<lparr>qpResults = map (\<lambda>r. \<lparr>quKey = quKey r, quData = ApplyComputedFields (quData r) defs\<rparr>) (qpResults response),
      qpTotalCount = qpTotalCount response, qpHasMore = qpHasMore response, qpProof = qpProof response,
      qpHeight = 0\<rparr>"

subsection \<open>Queries\<close>

fun isObjectValue :: "json \<Rightarrow> bool" where
  "isObjectValue (JObj ms) = True"
| "isObjectValue v = False"

fun filterMembers :: "QueryFilter list \<Rightarrow> queryError + (string \<times> json) list" where
  "filterMembers [] = Inr []"
| "filterMembers [f] =
     (if qfOperator f \<noteq> ''eq'' then Inl (NotEquality (qfOperator f))
      else if isObjectValue (qfValue f) then Inl ObjectValue
      else Inr [(''filters'', JObj [(qfField f, qfValue f)])])"
| "filterMembers fs = Inl (ManyFilters (length fs))"

definition sortMembers :: "QuerySort option \<Rightarrow> (string \<times> json) list" where
  "sortMembers srt =
     (case srt of
        None \<Rightarrow> []
      | Some s \<Rightarrow> [(''sort'', JObj [(''field'', JStr (qsField s)),
                                  (''order'', JStr (if qsAscending s then ''asc'' else ''desc''))])])"

definition queryBody :: "QueryRequest option \<Rightarrow> queryError + (string \<times> json) list" where
  "queryBody q =
     (case q of
        None \<Rightarrow> Inr []
      | Some q \<Rightarrow>
          bindR (filterMembers (qrFilters q)) (\<lambda>filters.
            if qrSearch q \<noteq> None then Inl FullTextSearch
            else if qrLimit q < 0 \<or> qrOffset q < 0 then Inl NegativePage
            else Inr (filters @ sortMembers (qrSort q)
              @ (if 0 < qrLimit q then [(''limit'', uintJson (nat (qrLimit q)))] else [])
              @ (if 0 < qrOffset q then [(''offset'', uintJson (nat (qrOffset q)))] else [])
              @ (case qrIncludeProof q of None \<Rightarrow> [] | Some b \<Rightarrow> [(''include_proof'', JBool b)]))))"

text \<open>\<^verbatim>\<open>json.Marshal\<close> of a map.\<close>

definition mapText :: "(string \<times> json) list \<Rightarrow> string" where
  "mapText ms = printJson (sortKeys (JObj ms))"

record pageAnswer =
  qaTotal :: int
  qaOffset :: int
  qaDocuments :: "dataRecord list"
  qaProof :: string
  qaHeight :: nat

definition zeroAnswer :: pageAnswer where
  "zeroAnswer = \<lparr>qaTotal = 0, qaOffset = 0, qaDocuments = [], qaProof = [], qaHeight = 0\<rparr>"

definition queryFields :: "(string \<times> pageAnswer fieldReader) list" where
  "queryFields =
     [(''total'', intField 64 (\<lambda>n s. s\<lparr>qaTotal := n\<rparr>)), (''offset'', intField 64 (\<lambda>n s. s\<lparr>qaOffset := n\<rparr>)),
      (''documents'', sliceField Map.empty recordReader (\<lambda>ds s. s\<lparr>qaDocuments := ds\<rparr>)),
      (''proof'', strField (\<lambda>t s. s\<lparr>qaProof := t\<rparr>)), (''height'', uintField 64 (\<lambda>n s. s\<lparr>qaHeight := n\<rparr>))]"

text \<open>An \<^verbatim>\<open>int\<close> is 64 bits: the sum of the offset and the documents wraps there.\<close>

definition intSum :: "int \<Rightarrow> nat \<Rightarrow> int" where
  "intSum a n = sint (word_of_int (a + int n) :: 64 word)"

definition queryResponse :: "pageAnswer \<Rightarrow> dataFailure + QueryResponse" where
  "queryResponse ans =
     (let response = \<lparr>qpResults = map (\<lambda>d. \<lparr>quKey = [], quData = d\<rparr>) (qaDocuments ans),
                      qpTotalCount = qaTotal ans,
                      qpHasMore = (intSum (qaOffset ans) (length (qaDocuments ans)) < qaTotal ans),
                      qpProof = [], qpHeight = qaHeight ans\<rparr> in
      if qaProof ans \<noteq> []
      then bindR (hexOrFail ''query proof is not hex'' (trimPrefix ''0x'' (qaProof ans))) (\<lambda>proof.
             Inr (response\<lparr>qpProof := proof\<rparr>))
      else Inr response)"

definition sendQuery :: "apiNet \<Rightarrow> string \<Rightarrow> QueryRequest option \<Rightarrow> dataFailure + QueryResponse" where
  "sendQuery w subgroveID q =
     (case queryBody q of
        Inl e \<Rightarrow> Inl (QueryRefused e)
      | Inr body \<Rightarrow>
          bindR (raise (postData w (''/query/'' @ subgroveID) (mapText body) Large (decodeStruct queryFields) zeroAnswer))
            queryResponse)"

definition emptyQuery :: QueryRequest where
  "emptyQuery = \<lparr>qrFilters = [], qrSearch = None, qrSort = None, qrLimit = 0, qrOffset = 0, qrIncludeProof = None\<rparr>"

definition needAuth :: "Identity option \<Rightarrow> (Identity \<Rightarrow> dataFailure + 'a) \<Rightarrow> dataFailure + 'a" where
  "needAuth ident f = (case ident of None \<Rightarrow> Inl (RequestFailed (Some ErrNotAuthenticated)) | Some i \<Rightarrow> f i)"

definition sentQuery :: "QueryRequest option \<Rightarrow> QueryRequest" where
  "sentQuery q = (case q of None \<Rightarrow> emptyQuery | Some q \<Rightarrow> q)\<lparr>qrIncludeProof := Some False\<rparr>"

definition QueryUnverified ::
  "apiNet \<Rightarrow> Identity option \<Rightarrow> ComputedFieldRegistry \<Rightarrow> string \<Rightarrow> QueryRequest option \<Rightarrow> dataFailure + QueryResponse" where
  "QueryUnverified w ident computedFields subgroveID q =
     needAuth ident (\<lambda>_.
       bindR (sendQuery w subgroveID (Some (sentQuery q))) (\<lambda>response.
         case GetFields computedFields subgroveID of
           Some defs \<Rightarrow> Inr (ApplyComputedFieldsToResponse response defs)
         | None \<Rightarrow> Inr response))"

subsection \<open>Values and proofs\<close>

definition getValue :: "apiNet \<Rightarrow> string \<Rightarrow> string \<Rightarrow> dataFailure + DataResponse" where
  "getValue w path key =
     bindR (raise (requestInto w ''GET'' path None Tx recordReader Map.empty)) (\<lambda>m.
       Inr \<lparr>drKey = key, drData = m, drProof = None\<rparr>)"

definition GetValueOf :: "apiNet \<Rightarrow> Identity option \<Rightarrow> string \<Rightarrow> string \<Rightarrow> dataFailure + DataResponse" where
  "GetValueOf w ident subgroveID key =
     needAuth ident (\<lambda>_. getValue w (''/data/'' @ subgroveID @ ''/'' @ key @ ''?include_proof=true'') key)"

definition GetUnverified :: "apiNet \<Rightarrow> Identity option \<Rightarrow> string \<Rightarrow> string \<Rightarrow> dataFailure + DataResponse" where
  "GetUnverified w ident subgroveID key =
     needAuth ident (\<lambda>_. getValue w (''/data/'' @ subgroveID @ ''/'' @ key @ ''?include_proof=false'') key)"

record proofAnswer =
  paProof :: string
  paPath :: "string list"
  paKey :: string
  paHeight :: int

definition proofFields :: "(string \<times> proofAnswer fieldReader) list" where
  "proofFields =
     [(''proof'', strField (\<lambda>t s. s\<lparr>paProof := t\<rparr>)),
      (''path'', sliceField [] (strField (\<lambda>t _. t)) (\<lambda>ts s. s\<lparr>paPath := ts\<rparr>)),
      (''key'', strField (\<lambda>t s. s\<lparr>paKey := t\<rparr>)), (''height'', intField 64 (\<lambda>n s. s\<lparr>paHeight := n\<rparr>))]"

definition dataProof :: "proofAnswer \<Rightarrow> dataFailure + DataProof" where
  "dataProof ans =
     bindR (hexOrFail ''proof is not hex'' (trimPrefix ''0x'' (paProof ans))) (\<lambda>proof.
     bindR (mapR (hexOrFail ''proof path segment is not hex'') (paPath ans)) (\<lambda>path.
     bindR (if paKey ans \<noteq> [] then hexOrFail ''proof key is not hex'' (paKey ans) else Inr []) (\<lambda>key.
       Inr \<lparr>dpProof = proof, dpPath = path, dpKey = key, dpRootHash = [], dpHeight = paHeight ans,
            dpVerifiedAt = 0\<rparr>)))"

definition GetProof :: "apiNet \<Rightarrow> Identity option \<Rightarrow> string \<Rightarrow> string \<Rightarrow> dataFailure + DataProof" where
  "GetProof w ident subgroveID key =
     needAuth ident (\<lambda>_.
       bindR (raise (requestInto w ''GET'' (''/proof/'' @ subgroveID @ ''/'' @ key) None Tx (decodeStruct proofFields)
                       \<lparr>paProof = [], paPath = [], paKey = [], paHeight = 0\<rparr>))
         dataProof)"

subsection \<open>Lemmas: computed fields\<close>

text \<open>A definition gives a field its value.\<close>

definition gives :: "dataRecord \<Rightarrow> string \<Rightarrow> ComputedFieldDefinition \<Rightarrow> bool" where
  "gives record k field \<longleftrightarrow> cfName field = k \<and> hasDependencies record field \<and> cfCompute field record \<noteq> None"

definition computedValue :: "dataRecord \<Rightarrow> ComputedFieldSet \<Rightarrow> dataRecord" where
  "computedValue record defs k =
     (case find (gives record k) (rev defs) of Some field \<Rightarrow> cfCompute field record | None \<Rightarrow> record k)"

lemma find_append: "find P (xs @ ys) = (case find P xs of Some x \<Rightarrow> Some x | None \<Rightarrow> find P ys)"
  by (induction xs) auto

lemma applyField_at: "applyField record field result k =
    (if gives record k field then cfCompute field record else result k)"
  by (auto simp: applyField_def gives_def split: option.splits)

lemma fold_applyField: "fold (applyField record) defs result k =
    (case find (gives record k) (rev defs) of Some field \<Rightarrow> cfCompute field record | None \<Rightarrow> result k)"
  by (induction defs arbitrary: result) (auto simp: find_append applyField_at split: option.splits)

lemma ApplyComputedFields_value: "ApplyComputedFields record defs = computedValue record defs"
  by (rule ext) (simp add: ApplyComputedFields_def computedValue_def fold_applyField)

subsection \<open>Lemmas: queries\<close>

lemma queryBody_accepts:
  "(\<exists>b. queryBody (Some q) = Inr b) \<longleftrightarrow>
     (case qrFilters q of
        [] \<Rightarrow> True
      | [f] \<Rightarrow> qfOperator f = ''eq'' \<and> \<not> isObjectValue (qfValue f)
      | _ \<Rightarrow> False)
     \<and> qrSearch q = None \<and> 0 \<le> qrLimit q \<and> 0 \<le> qrOffset q"
  by (cases "qrFilters q" rule: filterMembers.cases) (auto simp: queryBody_def bindR_def)









subsection \<open>Properties\<close>


text \<open>
  C29: computing fields over a response keeps its results in order with their keys, its total,
  whether there is more, and its proof, but not its height; each record gets, for a name,
  the value of the last definition of that name whose dependencies the record has and whose
  function gives one, all computed from the record as it came, and keeps its other fields.
\<close>

theorem computed_fields_exact:
  "ApplyComputedFieldsToResponse response defs =
     response\<lparr>qpResults := map (\<lambda>r. r\<lparr>quData := computedValue (quData r) defs\<rparr>) (qpResults response), qpHeight := 0\<rparr>"
  by (simp add: ApplyComputedFieldsToResponse_def ApplyComputedFields_value)

subsection \<open>Witnesses\<close>








end
