(* ===== verification/Grants.thy ===== *)
theory Grants
  imports RegisterMessage Account Completeness
begin

text \<open>
  The configuration and the key grants of a private subgrove as the API's JSON carries them
  (the hooks of \<^verbatim>\<open>consensus/privacy.go\<close> and of a byte array in \<^verbatim>\<open>consensus/types.go\<close>) and the
  reads of \<^verbatim>\<open>privacy.go\<close>.

  The theory shows that a configuration and a grant are read back from the text they are
  written as, a list of allowed indexers that is absent distinct from an empty one.
\<close>

subsection \<open>Commitment frequencies\<close>

definition NewCommitmentFrequencyEveryUpdate :: CommitmentFrequency where
  "NewCommitmentFrequencyEveryUpdate = \<lparr>cfVariant = ''EveryUpdate'', cfN = 0\<rparr>"

definition NewCommitmentFrequencyNever :: CommitmentFrequency where
  "NewCommitmentFrequencyNever = \<lparr>cfVariant = ''Never'', cfN = 0\<rparr>"

definition NewCommitmentFrequencyEveryNBlocks :: "u64 \<Rightarrow> CommitmentFrequency" where
  "NewCommitmentFrequencyEveryNBlocks n = \<lparr>cfVariant = ''EveryNBlocks'', cfN = n\<rparr>"

definition NewCommitmentFrequencyEveryNSeconds :: "u64 \<Rightarrow> CommitmentFrequency" where
  "NewCommitmentFrequencyEveryNSeconds n = \<lparr>cfVariant = ''EveryNSeconds'', cfN = n\<rparr>"

text \<open>An object of unsigned numbers: null is zero, a key given twice keeps its last value.\<close>

fun uintEntry :: "json \<Rightarrow> nat option" where
  "uintEntry JNull = Some 0"
| "uintEntry (JNum t) = parseUint 64 t"
| "uintEntry v = None"

definition uintMap :: "(string \<times> json) list \<Rightarrow> (string \<rightharpoonup> nat) option" where
  "uintMap ms =
     (if list_all (\<lambda>kv. uintEntry (snd kv) \<noteq> None) ms
      then Some (map_of (rev (map (\<lambda>(k, v). (k, the (uintEntry v))) ms)))
      else None)"

text \<open>A text is one of the two plain variants; null reads as the empty text, which is neither.\<close>

fun UnmarshalCommitmentFrequency :: "CommitmentFrequency \<Rightarrow> json \<Rightarrow> CommitmentFrequency option" where
  "UnmarshalCommitmentFrequency cf (JStr s) =
     (if s = ''EveryUpdate'' \<or> s = ''Never'' then Some \<lparr>cfVariant = s, cfN = 0\<rparr> else None)"
| "UnmarshalCommitmentFrequency cf (JObj ms) =
     (case uintMap ms of
        None \<Rightarrow> None
      | Some obj \<Rightarrow>
          (case obj ''EveryNBlocks'' of
             Some n \<Rightarrow> Some \<lparr>cfVariant = ''EveryNBlocks'', cfN = of_nat n\<rparr>
           | None \<Rightarrow>
               (case obj ''EveryNSeconds'' of
                  Some n \<Rightarrow> Some \<lparr>cfVariant = ''EveryNSeconds'', cfN = of_nat n\<rparr>
                | None \<Rightarrow> None)))"
| "UnmarshalCommitmentFrequency cf v = None"

subsection \<open>Byte arrays\<close>

text \<open>
  An array of integers, each cut to its low byte, or base64; an array that is not of
  integers is no array of bytes either.
\<close>

definition intEntry :: "json \<Rightarrow> int option" where
  "intEntry v = intField 64 (\<lambda>n _. n) 0 v"

fun UnmarshalByteArray :: "bytes \<Rightarrow> json \<Rightarrow> bytes option" where
  "UnmarshalByteArray b JNull = Some []"
| "UnmarshalByteArray b (JArr vs) =
     (if list_all (\<lambda>v. intEntry v \<noteq> None) vs then Some (map (\<lambda>v. word_of_int (the (intEntry v))) vs) else None)"
| "UnmarshalByteArray b (JStr t) = b64Std (b64Strip t)"
| "UnmarshalByteArray b v = None"

definition byteField :: "(bytes \<Rightarrow> 's \<Rightarrow> 's) \<Rightarrow> 's fieldReader" where
  "byteField upd s v = map_option (\<lambda>b. upd b s) (UnmarshalByteArray [] v)"

subsection \<open>Configurations and grants\<close>

definition textsOption :: "(string list option \<Rightarrow> 's \<Rightarrow> 's) \<Rightarrow> 's fieldReader" where
  "textsOption upd s v =
     (case v of
        JNull \<Rightarrow> Some (upd None s)
      | _ \<Rightarrow> sliceField [] (strField (\<lambda>t _. t)) (\<lambda>ts. upd (Some ts)) s v)"

definition privacyFields :: "(string \<times> PrivacyConfig fieldReader) list" where
  "privacyFields =
     [(''allowed_indexers'', textsOption (\<lambda>ts p. p\<lparr>pcAllowedIndexers := ts\<rparr>)),
      (''commitment_frequency'',
        \<lambda>p v. map_option (\<lambda>cf. p\<lparr>pcCommitmentFrequency := cf\<rparr>) (UnmarshalCommitmentFrequency (pcCommitmentFrequency p) v))]"

definition zeroPrivacy :: PrivacyConfig where
  "zeroPrivacy = \<lparr>pcAllowedIndexers = None, pcCommitmentFrequency = \<lparr>cfVariant = [], cfN = 0\<rparr>\<rparr>"

definition readPrivacy :: "string \<Rightarrow> PrivacyConfig option" where
  "readPrivacy t = Option.bind (unmarshalJson t) (decodeStruct privacyFields zeroPrivacy)"

definition grantFields :: "(string \<times> EncryptedKeyGrant fieldReader) list" where
  "grantFields =
     [(''grantee_did'', strField (\<lambda>t g. g\<lparr>GranteeDID := t\<rparr>)),
      (''key_epoch'', uintField 32 (\<lambda>n g. g\<lparr>KeyEpoch := of_nat n\<rparr>)),
      (''grantee_public_key_id'', strField (\<lambda>t g. g\<lparr>GranteePublicKeyID := t\<rparr>)),
      (''ephemeral_public_key'', byteField (\<lambda>b g. g\<lparr>EphemeralPublicKey := b\<rparr>)),
      (''encrypted_key'', byteField (\<lambda>b g. g\<lparr>EncryptedKey := b\<rparr>)),
      (''granted_by'', strField (\<lambda>t g. g\<lparr>GrantedBy := t\<rparr>)),
      (''granted_at'', uintField 64 (\<lambda>n g. g\<lparr>GrantedAt := of_nat n\<rparr>))]"

definition zeroGrant :: EncryptedKeyGrant where
  "zeroGrant = \<lparr>GranteeDID = [], GranteePublicKeyID = [], KeyEpoch = 0, EphemeralPublicKey = [], EncryptedKey = [],
     GrantedBy = [], GrantedAt = 0\<rparr>"

definition readGrant :: "string \<Rightarrow> EncryptedKeyGrant option" where
  "readGrant t = Option.bind (unmarshalJson t) (decodeStruct grantFields zeroGrant)"

subsection \<open>Reads\<close>

definition GetMyKeyGrant :: "apiNet \<Rightarrow> Identity option \<Rightarrow> string \<Rightarrow> EncryptedKeyGrant apiResult" where
  "GetMyKeyGrant w ident subgroveID =
     requireAuth ident (\<lambda>i.
       case getData w (''/key-grants/'' @ subgroveID @ ''/'' @ DID i) (ptrReader (decodeStruct grantFields) zeroGrant) None of
         Inl e \<Rightarrow> Inl e
       | Inr None \<Rightarrow> Inl (Some (NewNotFoundError ''key grant''))
       | Inr (Some grant) \<Rightarrow> Inr grant)"

definition ListKeyGrantees :: "apiNet \<Rightarrow> Identity option \<Rightarrow> string \<Rightarrow> string list apiResult" where
  "ListKeyGrantees w ident subgroveID =
     requireAuth ident (\<lambda>_.
       getData w (''/key-grants/'' @ subgroveID) (sliceField [] (strField (\<lambda>t _. t)) (\<lambda>ts _. ts)) [])"

text \<open>Raw JSON: the value of the data as it stands, \<open>None\<close> when the answer has none.\<close>

definition GetKeyGrantProof :: "apiNet \<Rightarrow> string \<Rightarrow> string \<Rightarrow> json option apiResult" where
  "GetKeyGrantProof w subgroveID did =
     getData w (''/proof/key-grant/'' @ subgroveID @ ''/'' @ did) (rawField (\<lambda>v _. Some v)) None"

subsection \<open>Lemmas\<close>

lemma coerceUtf8_cleanText: "coerceUtf8 s = cleanText s"
proof (induction s rule: coerceUtf8.induct)
  case (1 s)
  show ?case
  proof (cases s)
    case Nil
    then show ?thesis by (simp add: coerceUtf8.simps)
  next
    case (Cons c t)
    then show ?thesis
      using 1 by (subst coerceUtf8.simps, subst cleanText.simps) (simp add: Let_def)
  qed
qed

definition cleanGrant :: "EncryptedKeyGrant \<Rightarrow> bool" where
  "cleanGrant g \<longleftrightarrow> list_all (\<lambda>t. cleanText t = t) [GranteeDID g, GranteePublicKeyID g, GrantedBy g]"

definition cleanPrivacy :: "PrivacyConfig \<Rightarrow> bool" where
  "cleanPrivacy p \<longleftrightarrow> (case pcAllowedIndexers p of None \<Rightarrow> True | Some ts \<Rightarrow> list_all (\<lambda>t. cleanText t = t) ts)"

text \<open>A frequency as the chain reads it: an unknown variant is the first, a plain one has no number.\<close>

definition normalFrequency :: "CommitmentFrequency \<Rightarrow> CommitmentFrequency" where
  "normalFrequency cf =
     (if cfVariant cf = ''EveryNBlocks'' \<or> cfVariant cf = ''EveryNSeconds'' then cf
      else if cfVariant cf = ''Never'' then NewCommitmentFrequencyNever
      else NewCommitmentFrequencyEveryUpdate)"

lemma frequency_read: "UnmarshalCommitmentFrequency cf' (frequencyJson cf) = Some (normalFrequency cf)"
  using unsigned_less [of "cfN cf"]
  by (cases cf) (auto simp: frequencyJson_def normalFrequency_def NewCommitmentFrequencyNever_def
    NewCommitmentFrequencyEveryUpdate_def uintMap_def uintJson_def parseUint_formatUint)

lemma intEntry_byte: "intEntry (uintJson (unat b)) = Some (uint b)" for b :: byte
proof -
  have "unat b < 256" using unsigned_less [of b, where ?'a = nat] by simp
  then have "unat b < 2 ^ 63" by (rule less_trans) simp
  moreover have "cutPrefix ''-'' (formatUint (unat b)) = None"
    using formatUint_digits [of "unat b"] by (cases "formatUint (unat b)") (auto simp: cutPrefix_def isDigit_def)
  ultimately show ?thesis by (simp add: intEntry_def intField_def uintJson_def parseUint_formatUint)
qed

lemma byteArray_read: "UnmarshalByteArray b (byteArrayJson bs) = Some bs"
  by (simp add: byteArrayJson_def intEntry_byte list_all_iff o_def)

lemma fold_max_zero [simp]: "fold max (map (\<lambda>x. 0) xs) 0 = (0 :: nat)"
  by (induction xs) simp_all

lemma byteArray_clean:
  "plainNumbers (byteArrayJson bs)" "nesting (byteArrayJson bs) \<le> 1" "cleanJson (byteArrayJson bs) = byteArrayJson bs"
  by (auto simp: byteArrayJson_def list_all_iff o_def intro!: fold_max_bound)

lemma grant_json_clean:
  assumes "cleanGrant g"
  shows "plainNumbers (grantJson g)" and "nesting (grantJson g) \<le> 100" and "cleanJson (grantJson g) = grantJson g"
  using assms byteArray_clean [of "EphemeralPublicKey g"] byteArray_clean [of "EncryptedKey g"]
  by (simp_all add: grantJson_def cleanGrant_def textJson_def coerceUtf8_cleanText cleanText_ascii charNat_def)

lemma grant_fields_read:
  assumes "cleanGrant g"
  shows "decodeStruct grantFields zeroGrant (grantJson g) = Some g"
proof -
  have "unat (KeyEpoch g) < 2 ^ 32" "unat (GrantedAt g) < 2 ^ 64"
    using unsigned_less [of "KeyEpoch g"] unsigned_less [of "GrantedAt g"] by simp_all
  then show ?thesis
    using assms
    by (simp add: decodeStruct_def grantJson_def grantFields_def fieldFor_def strField_def uintField_def byteField_def
      byteArray_read textJson_def coerceUtf8_cleanText cleanGrant_def uintJson_def parseUint_formatUint zeroGrant_def)
qed

lemma privacy_json_clean:
  assumes "cleanPrivacy p"
  shows "plainNumbers (privacyJson p)" and "nesting (privacyJson p) \<le> 100" and "cleanJson (privacyJson p) = privacyJson p"
proof -
  have "cleanJson (textsJson ts) = textsJson ts" if "list_all (\<lambda>t. cleanText t = t) ts" for ts
    using that by (simp add: textsJson_def textJson_def coerceUtf8_cleanText list_all_iff)
  moreover have "plainNumbers (textsJson ts)" "nesting (textsJson ts) \<le> 1" "nesting (textsJson ts) \<le> 99" for ts
    by (auto simp: textsJson_def textJson_def list_all_iff o_def intro!: fold_max_bound)
  ultimately show "plainNumbers (privacyJson p)" "nesting (privacyJson p) \<le> 100" "cleanJson (privacyJson p) = privacyJson p"
    using assms
    by (auto simp: privacyJson_def frequencyJson_def optJson_def cleanPrivacy_def charNat_def split: option.splits
      intro: le_trans)
qed

lemma privacy_fields_read:
  assumes "cleanPrivacy p"
  shows "decodeStruct privacyFields zeroPrivacy (privacyJson p)
    = Some (p\<lparr>pcCommitmentFrequency := normalFrequency (pcCommitmentFrequency p)\<rparr>)"
proof (cases "pcAllowedIndexers p")
  case None
  then show ?thesis
    by (simp add: decodeStruct_def privacyJson_def privacyFields_def fieldFor_def textsOption_def optJson_def
      frequency_read zeroPrivacy_def)
next
  case (Some ts)
  then have "map coerceUtf8 ts = ts"
    using assms by (simp add: cleanPrivacy_def coerceUtf8_cleanText list_all_iff map_idI)
  then have "textsJson ts = JArr (map JStr ts)" by (metis list.map_comp o_def textJson_def textsJson_def map_eq_conv)
  then show ?thesis
    using Some
    by (simp add: decodeStruct_def privacyJson_def privacyFields_def fieldFor_def textsOption_def optJson_def
      frequency_read zeroPrivacy_def sliceField_texts)
qed

subsection \<open>Properties\<close>

text \<open>
  C25: a private subgrove's configuration and a key grant written as JSON are read back as
  they were: every byte of a key, every number at its width, no list of allowed indexers
  apart from an empty one, and the commitment frequency, where a variant that is none of the
  chain's is the first one.
\<close>

theorem private_config_roundtrip:
  assumes "cleanPrivacy p" and "cleanGrant g"
  shows "readPrivacy (printJson (privacyJson p))
      = Some (p\<lparr>pcCommitmentFrequency := normalFrequency (pcCommitmentFrequency p)\<rparr>)
    \<and> readGrant (printJson (grantJson g)) = Some g"
  by (simp add: readPrivacy_def readGrant_def unmarshal_clean privacy_json_clean [OF assms(1)]
    grant_json_clean [OF assms(2)] privacy_fields_read [OF assms(1)] grant_fields_read [OF assms(2)])

subsection \<open>Witnesses\<close>

definition sampleConfig :: PrivacyConfig where
  "sampleConfig = \<lparr>pcAllowedIndexers = Some [], pcCommitmentFrequency = NewCommitmentFrequencyEveryNBlocks 7\<rparr>"

definition sampleKeyGrant :: EncryptedKeyGrant where
  "sampleKeyGrant = zeroGrant\<lparr>GranteeDID := ''did:willow:b'', KeyEpoch := 3, EncryptedKey := [0, 255]\<rparr>"

lemma sample_grant_clean: "cleanPrivacy sampleConfig" "cleanGrant sampleKeyGrant"
  by (simp_all add: sampleConfig_def cleanPrivacy_def sampleKeyGrant_def cleanGrant_def zeroGrant_def charNat_def)

theorem private_config_roundtrip_witness:
  "readPrivacy (printJson (privacyJson sampleConfig)) = Some sampleConfig
     \<and> readGrant (printJson (grantJson sampleKeyGrant)) = Some sampleKeyGrant"
  using private_config_roundtrip [OF sample_grant_clean]
  by (simp add: normalFrequency_def sampleConfig_def NewCommitmentFrequencyEveryNBlocks_def)

end
