(* ===== verification/Rpc.thy ===== *)
theory Rpc
  imports Completeness Subscriptions Transactions
begin

text \<open>
  The client of the consensus layer (\<^verbatim>\<open>consensus/client.go\<close>): submitting a transaction to the
  API, looking one up by its hash and the other JSON-RPC reads, with the result types of
  \<^verbatim>\<open>consensus/types.go\<close>.  A node answers a request body with an \<open>httpAnswer\<close>; how a block is
  laid out is an argument of the two calls that read one.

  The theory shows that a transaction counts as accepted only on an answer that says so, and
  that whatever the node answers, a transaction is only ever reported for the hash asked for.
\<close>

subsection \<open>Configuration\<close>

record ConsensusConfig =
  ccRPCURL :: string
  ccAPIURL :: string
  ccTimeout :: int

definition DefaultConsensusConfig :: ConsensusConfig where
  "DefaultConsensusConfig =
     \<lparr>ccRPCURL = ''http://localhost:26657'', ccAPIURL = ''http://localhost:3031'', ccTimeout = 30 * 10 ^ 9\<rparr>"

record consensusClient =
  coTimeout :: int
  coRpcURL :: string
  coApiURL :: string

definition NewConsensusClient :: "ConsensusConfig \<Rightarrow> consensusClient" where
  "NewConsensusClient config =
     \<lparr>coTimeout = (if ccTimeout config = 0 then ccTimeout DefaultConsensusConfig else ccTimeout config),
      coRpcURL = ccRPCURL config, coApiURL = ccAPIURL config\<rparr>"

text \<open>What a URL answers to a posted body.\<close>

record rpcNet =
  rnSpare :: "nat \<Rightarrow> nat"
  rnPost :: "string \<Rightarrow> string \<Rightarrow> httpAnswer"

datatype rpcFailure =
    NoAPIURL
  | TxNotSerialized sdkError
  | NotRequested sdkError
  | NotAnswered sdkError
  | AnswerUnread ioError
  | AnswerUnparsed "sdkError decodeError"
  | RPCRefused string string
  | ResultUnparsed
  | HashNotHex string hexError
  | HashNot32 string nat
  | AnotherTransaction string string

text \<open>A post, its answer read under a cap and decoded.\<close>

definition postBody ::
  "rpcNet \<Rightarrow> string \<Rightarrow> string \<Rightarrow> nat \<Rightarrow> (string \<Rightarrow> sdkError + 'a) \<Rightarrow> rpcFailure + int \<times> 'a" where
  "postBody w u body limit reader =
     (case rnPost w u body of
        Unrequested e \<Rightarrow> Inl (NotRequested e)
      | NoReply e \<Rightarrow> Inl (NotAnswered e)
      | Reply status src \<Rightarrow>
          (case ReadAll (rnSpare w) src limit of
             Inl e \<Rightarrow> Inl (AnswerUnread e)
           | Inr respBody \<Rightarrow>
               (case Unmarshal reader respBody of
                  Inl e \<Rightarrow> Inl (AnswerUnparsed e)
                | Inr x \<Rightarrow> Inr (status, x))))"

subsection \<open>Submitting\<close>

record txSubmitData =
  sdTxHash :: string
  sdCode :: int
  sdLog :: string

record txSubmitEnvelope =
  seSuccess :: bool
  seData :: "txSubmitData option"
  seError :: "string option"

definition submitDataFields :: "(string \<times> txSubmitData fieldReader) list" where
  "submitDataFields =
     [(''tx_hash'', strField (\<lambda>t s. s\<lparr>sdTxHash := t\<rparr>)), (''code'', intField 64 (\<lambda>n s. s\<lparr>sdCode := n\<rparr>)),
      (''log'', strField (\<lambda>t s. s\<lparr>sdLog := t\<rparr>))]"

definition zeroSubmitData :: txSubmitData where
  "zeroSubmitData = \<lparr>sdTxHash = [], sdCode = 0, sdLog = []\<rparr>"

text \<open>A pointer to a struct: null makes it nil, an object fills the struct it points to.\<close>

definition structPtr :: "'a \<Rightarrow> 'a fieldReader \<Rightarrow> ('s \<Rightarrow> 'a option) \<Rightarrow> ('a option \<Rightarrow> 's \<Rightarrow> 's) \<Rightarrow> 's fieldReader" where
  "structPtr zero reader get upd s v =
     (case v of
        JNull \<Rightarrow> Some (upd None s)
      | _ \<Rightarrow> map_option (\<lambda>x. upd (Some x) s) (reader (case get s of None \<Rightarrow> zero | Some x \<Rightarrow> x) v))"

definition submitFields :: "(string \<times> txSubmitEnvelope fieldReader) list" where
  "submitFields =
     [(''success'', boolField (\<lambda>b s. s\<lparr>seSuccess := b\<rparr>)),
      (''data'', structPtr zeroSubmitData (decodeStruct submitDataFields) seData (\<lambda>d s. s\<lparr>seData := d\<rparr>)),
      (''error'', strPtrField (\<lambda>t s. s\<lparr>seError := t\<rparr>))]"

record BroadcastResult =
  brSuccess :: bool
  brTxHash :: string
  brHeight :: int
  brErrorCode :: int
  brErrorMessage :: string
  brRawLog :: string

definition emptyResult :: BroadcastResult where
  "emptyResult = \<lparr>brSuccess = False, brTxHash = [], brHeight = 0, brErrorCode = 0, brErrorMessage = [], brRawLog = []\<rparr>"

definition broadcastResult :: "int \<Rightarrow> txSubmitEnvelope \<Rightarrow> BroadcastResult" where
  "broadcastResult status envelope =
     (case (seSuccess envelope, seData envelope) of
        (True, Some d) \<Rightarrow>
          (let result = emptyResult\<lparr>brTxHash := sdTxHash d, brRawLog := sdLog d\<rparr> in
           if sdCode d = 0 then result\<lparr>brSuccess := True\<rparr>
           else result\<lparr>brSuccess := False, brErrorCode := sdCode d, brErrorMessage := sdLog d\<rparr>)
      | _ \<Rightarrow> emptyResult\<lparr>brErrorMessage :=
               (case seError envelope of Some e \<Rightarrow> e | None \<Rightarrow> ''HTTP '' @ formatInt status)\<rparr>)"

definition BroadcastTxSync :: "rpcNet \<Rightarrow> consensusClient \<Rightarrow> sdkError + string \<Rightarrow> rpcFailure + BroadcastResult" where
  "BroadcastTxSync w c tx =
     (if coApiURL c = [] then Inl NoAPIURL
      else case tx of
        Inl e \<Rightarrow> Inl (TxNotSerialized e)
      | Inr body \<Rightarrow>
          bindR (postBody w (trimRightSlash (coApiURL c) @ ''/tx/submit'') body Small
                   (decodeWith submitFields \<lparr>seSuccess = False, seData = None, seError = None\<rparr>))
            (\<lambda>(status, envelope). Inr (broadcastResult status envelope)))"

subsection \<open>JSON-RPC\<close>

record RPCError =
  reCode :: int
  reMessage :: string
  reData :: string

record RPCResponse =
  rrJSONRPC :: string
  rrID :: int
  rrResult :: "json option"
  rrError :: "RPCError option"

definition rpcErrorFields :: "(string \<times> RPCError fieldReader) list" where
  "rpcErrorFields =
     [(''code'', intField 64 (\<lambda>n e. e\<lparr>reCode := n\<rparr>)), (''message'', strField (\<lambda>t e. e\<lparr>reMessage := t\<rparr>)),
      (''data'', strField (\<lambda>t e. e\<lparr>reData := t\<rparr>))]"

definition rpcFields :: "(string \<times> RPCResponse fieldReader) list" where
  "rpcFields =
     [(''jsonrpc'', strField (\<lambda>t r. r\<lparr>rrJSONRPC := t\<rparr>)), (''id'', intField 64 (\<lambda>n r. r\<lparr>rrID := n\<rparr>)),
      (''result'', rawField (\<lambda>v r. r\<lparr>rrResult := Some v\<rparr>)),
      (''error'', structPtr \<lparr>reCode = 0, reMessage = [], reData = []\<rparr> (decodeStruct rpcErrorFields) rrError
                    (\<lambda>e r. r\<lparr>rrError := e\<rparr>))]"

text \<open>The body of a call: the keys of its map in order.\<close>

definition rpcBody :: "string \<Rightarrow> (string \<times> json) list \<Rightarrow> string" where
  "rpcBody rpcMethod params =
     printJson (sortKeys (JObj [(''jsonrpc'', JStr ''2.0''), (''id'', uintJson 1), (''method'', JStr rpcMethod),
                                (''params'', JObj params)]))"

definition doRPCRequest ::
  "rpcNet \<Rightarrow> consensusClient \<Rightarrow> string \<Rightarrow> (string \<times> json) list \<Rightarrow> nat \<Rightarrow> rpcFailure + RPCResponse" where
  "doRPCRequest w c rpcMethod params limit =
     bindR (postBody w (coRpcURL c) (rpcBody rpcMethod params) limit
              (decodeWith rpcFields \<lparr>rrJSONRPC = [], rrID = 0, rrResult = None, rrError = None\<rparr>))
       (\<lambda>(status, r). Inr r)"

text \<open>\<^verbatim>\<open>json.Unmarshal\<close> of the result: one that is absent is no JSON.\<close>

definition readResult :: "'a fieldReader \<Rightarrow> 'a \<Rightarrow> RPCResponse \<Rightarrow> rpcFailure + 'a" where
  "readResult reader zero resp =
     (case Option.bind (rrResult resp) (reader zero) of None \<Rightarrow> Inl ResultUnparsed | Some x \<Rightarrow> Inr x)"

subsection \<open>Transactions\<close>

definition txHashBytes :: "string \<Rightarrow> rpcFailure + bytes" where
  "txHashBytes hash =
     (case hexDecode (trimPrefix ''0X'' (trimPrefix ''0x'' hash)) of
        Inl e \<Rightarrow> Inl (HashNotHex hash e)
      | Inr raw \<Rightarrow> if length raw \<noteq> 32 then Inl (HashNot32 hash (length raw)) else Inr raw)"

text \<open>\<^verbatim>\<open>strconv.ParseInt(text, 10, 64)\<close>.\<close>

definition parseInt64 :: "string \<Rightarrow> int option" where
  "parseInt64 t =
     (case t of
        [] \<Rightarrow> None
      | c # r \<Rightarrow>
          if c = CHR ''-'' then Option.bind (parseUint 64 r) (\<lambda>n. if n \<le> 2 ^ 63 then Some (- int n) else None)
          else map_option int (parseUint 63 (if c = CHR ''+'' then r else t)))"

text \<open>
  An integer in a number or a text.  (The hook unquotes the text as Go does: a JSON escape that
  Go has not, or reads otherwise, stands for no character of an integer.)
\<close>

definition jsonInt64 :: "(int \<Rightarrow> 's \<Rightarrow> 's) \<Rightarrow> 's fieldReader" where
  "jsonInt64 upd s v =
     (case v of
        JNull \<Rightarrow> Some s
      | JNum t \<Rightarrow> map_option (\<lambda>n. upd n s) (parseInt64 t)
      | JStr t \<Rightarrow> map_option (\<lambda>n. upd n s) (parseInt64 t)
      | _ \<Rightarrow> None)"

datatype TransactionStatus =
  TransactionStatusPending | TransactionStatusSuccess | TransactionStatusFailed | TransactionStatusNotFound

record TxResult =
  txHash :: string
  txHeight :: int
  txIndex :: nat
  txStatus :: TransactionStatus
  txCode :: nat
  txLog :: string
  txGasUsed :: int
  txGasWant :: int
  txData :: "json option"

record txOutcome =
  toCode :: nat
  toLog :: string
  toGasUsed :: int
  toGasWant :: int
  toData :: "json option"

record txAnswer =
  taHash :: string
  taHeight :: int
  taIndex :: nat
  taOutcome :: txOutcome

definition txOutcomeFields :: "(string \<times> txOutcome fieldReader) list" where
  "txOutcomeFields =
     [(''code'', uintField 32 (\<lambda>n s. s\<lparr>toCode := n\<rparr>)), (''log'', strField (\<lambda>t s. s\<lparr>toLog := t\<rparr>)),
      (''gas_used'', jsonInt64 (\<lambda>n s. s\<lparr>toGasUsed := n\<rparr>)), (''gas_wanted'', jsonInt64 (\<lambda>n s. s\<lparr>toGasWant := n\<rparr>)),
      (''data'', rawField (\<lambda>v s. s\<lparr>toData := Some v\<rparr>))]"

definition txAnswerFields :: "(string \<times> txAnswer fieldReader) list" where
  "txAnswerFields =
     [(''hash'', strField (\<lambda>t s. s\<lparr>taHash := t\<rparr>)), (''height'', jsonInt64 (\<lambda>n s. s\<lparr>taHeight := n\<rparr>)),
      (''index'', uintField 32 (\<lambda>n s. s\<lparr>taIndex := n\<rparr>)),
      (''tx_result'', \<lambda>s v. map_option (\<lambda>r. s\<lparr>taOutcome := r\<rparr>) (decodeStruct txOutcomeFields (taOutcome s) v))]"

definition zeroTxAnswer :: txAnswer where
  "zeroTxAnswer = \<lparr>taHash = [], taHeight = 0, taIndex = 0,
     taOutcome = \<lparr>toCode = 0, toLog = [], toGasUsed = 0, toGasWant = 0, toData = None\<rparr>\<rparr>"

definition notFound :: "string \<Rightarrow> TxResult" where
  "notFound hash =
     \<lparr>txHash = hash, txHeight = 0, txIndex = 0, txStatus = TransactionStatusNotFound, txCode = 0, txLog = [],
      txGasUsed = 0, txGasWant = 0, txData = None\<rparr>"

definition txResult :: "txAnswer \<Rightarrow> TxResult" where
  "txResult a =
     (let r = taOutcome a in
      \<lparr>txHash = taHash a, txHeight = taHeight a, txIndex = taIndex a,
       txStatus = (if toCode r = 0 then TransactionStatusSuccess else TransactionStatusFailed),
       txCode = toCode r, txLog = toLog r, txGasUsed = toGasUsed r, txGasWant = toGasWant r, txData = toData r\<rparr>)"

text \<open>\<^verbatim>\<open>base64.StdEncoding.EncodeToString\<close>.\<close>

definition base64Alphabet :: string where
  "base64Alphabet = ''ABCDEFGHIJKLMNOPQRSTUVWXYZabcdefghijklmnopqrstuvwxyz0123456789+/''"

definition b64Char :: "nat \<Rightarrow> char" where
  "b64Char i = base64Alphabet ! (i mod 64)"

fun b64Encode :: "bytes \<Rightarrow> string" where
  "b64Encode [] = []"
| "b64Encode [a] = (let n = unat a * 65536 in [b64Char (n div 262144), b64Char (n div 4096), CHR ''='', CHR ''=''])"
| "b64Encode [a, b] =
     (let n = unat a * 65536 + unat b * 256 in
      [b64Char (n div 262144), b64Char (n div 4096), b64Char (n div 64), CHR ''=''])"
| "b64Encode (a # b # c # r) =
     (let n = unat a * 65536 + unat b * 256 + unat c in
      [b64Char (n div 262144), b64Char (n div 4096), b64Char (n div 64), b64Char n] @ b64Encode r)"

definition txParams :: "bytes \<Rightarrow> (string \<times> json) list" where
  "txParams raw = [(''hash'', JStr (b64Encode raw)), (''prove'', JBool False)]"

definition readLookup :: "string \<Rightarrow> bytes \<Rightarrow> RPCResponse \<Rightarrow> rpcFailure + TxResult" where
  "readLookup hash raw resp =
     (case rrError resp of
        Some e \<Rightarrow>
          if reCode e = -32603 \<and> containsText ''not found'' (reData e) then Inr (notFound hash)
          else Inl (RPCRefused (reMessage e) (reData e))
      | None \<Rightarrow>
          bindR (readResult (decodeStruct txAnswerFields) zeroTxAnswer resp) (\<lambda>a.
            if txHashBytes (taHash a) \<noteq> Inr raw then Inl (AnotherTransaction (take 80 (taHash a)) hash)
            else Inr (txResult a)))"

definition GetTx :: "rpcNet \<Rightarrow> consensusClient \<Rightarrow> string \<Rightarrow> rpcFailure + TxResult" where
  "GetTx w c hash =
     bindR (txHashBytes hash) (\<lambda>raw. bindR (doRPCRequest w c ''tx'' (txParams raw) Tx) (readLookup hash raw))"

subsection \<open>Other reads\<close>

definition refuseError :: "RPCResponse \<Rightarrow> rpcFailure + unit" where
  "refuseError resp = (case rrError resp of None \<Rightarrow> Inr () | Some e \<Rightarrow> Inl (RPCRefused (reMessage e) []))"

text \<open>A result read into a map of untyped values.\<close>

definition untypedMap :: "(string \<rightharpoonup> json) fieldReader" where
  "untypedMap m v = (case v of JNull \<Rightarrow> Some Map.empty | JObj ms \<Rightarrow> Some (m ++ map_of (rev ms)) | _ \<Rightarrow> None)"

definition rpcRead ::
  "rpcNet \<Rightarrow> consensusClient \<Rightarrow> string \<Rightarrow> (string \<times> json) list \<Rightarrow> nat \<Rightarrow> 'a fieldReader \<Rightarrow> 'a \<Rightarrow> rpcFailure + 'a" where
  "rpcRead w c rpcMethod params limit reader zero =
     bindR (doRPCRequest w c rpcMethod params limit) (\<lambda>resp.
     bindR (refuseError resp) (\<lambda>_. readResult reader zero resp))"

definition GetStatus :: "rpcNet \<Rightarrow> consensusClient \<Rightarrow> rpcFailure + (string \<rightharpoonup> json)" where
  "GetStatus w c = rpcRead w c ''status'' [] Small untypedMap Map.empty"

definition GetLatestBlock :: "rpcNet \<Rightarrow> consensusClient \<Rightarrow> 'b fieldReader \<Rightarrow> 'b \<Rightarrow> rpcFailure + 'b" where
  "GetLatestBlock w c readBlock zero = rpcRead w c ''block'' [] Block readBlock zero"

definition GetBlock :: "rpcNet \<Rightarrow> consensusClient \<Rightarrow> 'b fieldReader \<Rightarrow> 'b \<Rightarrow> int \<Rightarrow> rpcFailure + 'b" where
  "GetBlock w c readBlock zero height =
     rpcRead w c ''block'' [(''height'', JStr (formatInt height))] Block readBlock zero"

definition heightParams :: "int \<Rightarrow> (string \<times> json) list" where
  "heightParams height = (if 0 < height then [(''height'', JStr (formatInt height))] else [])"

definition GetValidatorsAt :: "rpcNet \<Rightarrow> consensusClient \<Rightarrow> int \<Rightarrow> rpcFailure + (string \<rightharpoonup> json)" where
  "GetValidatorsAt w c height = rpcRead w c ''validators'' (heightParams height) Small untypedMap Map.empty"

definition GetCommitAt :: "rpcNet \<Rightarrow> consensusClient \<Rightarrow> int \<Rightarrow> rpcFailure + (string \<rightharpoonup> json)" where
  "GetCommitAt w c height = rpcRead w c ''commit'' (heightParams height) Small untypedMap Map.empty"

subsection \<open>Lemmas: base64\<close>

lemma b64_alphabet: "map b64Val base64Alphabet = map Some [0..<64]" "CHR ''='' \<notin> set base64Alphabet"
  by (simp_all add: base64Alphabet_def b64Val_def upt_rec)

lemma b64Val_char [simp]: "b64Val (b64Char i) = Some (i mod 64)"
proof -
  have len: "length base64Alphabet = 64" using arg_cong [OF b64_alphabet(1), of length] by simp
  have "b64Val (b64Char i) = map b64Val base64Alphabet ! (i mod 64)" by (simp add: b64Char_def len)
  then show ?thesis by (simp add: b64_alphabet)
qed

lemma b64Char_plain [simp]: "b64Char i \<noteq> CHR ''=''"
proof -
  have "length base64Alphabet = 64" using arg_cong [OF b64_alphabet(1), of length] by simp
  then have "b64Char i \<in> set base64Alphabet" by (simp add: b64Char_def)
  then show ?thesis using b64_alphabet(2) by metis
qed

lemma digits64: "((n div 262144 * 64 + n div 4096 mod 64) * 64 + n div 64 mod 64) * 64 + n mod 64 = n" for n :: nat
proof -
  have "n = n div 64 * 64 + n mod 64" "n div 64 = n div 4096 * 64 + n div 64 mod 64"
    "n div 4096 = n div 262144 * 64 + n div 4096 mod 64"
    using div_mult_mod_eq [of n 64] div_mult_mod_eq [of "n div 64" 64] div_mult_mod_eq [of "n div 4096" 64]
    by (simp_all add: div_mult2_eq [symmetric])
  then show ?thesis by simp
qed

lemma byte_less: "unat b < 256" for b :: byte
  using unsigned_less [of b, where ?'a = nat] by simp

lemma group_bytes:
  assumes "n < 16777216"
  shows "b64Group [b64Char (n div 262144), b64Char (n div 4096), b64Char (n div 64), b64Char n] k
    = Some (take k [of_nat (n div 65536), of_nat (n div 256), of_nat n])"
proof -
  let ?cs = "[b64Char (n div 262144), b64Char (n div 4096), b64Char (n div 64), b64Char n]"
  have top: "n div 262144 mod 64 = n div 262144" using assms by simp
  have "((int (n div 262144) * 64 + int (n div 4096 mod 64)) * 64 + int (n div 64 mod 64)) * 64 + int (n mod 64) = int n"
    using arg_cong [OF digits64 [of n], of int] by (simp only: of_nat_add of_nat_mult of_nat_numeral)
  then have "foldl (\<lambda>a c. a * 64 + int (the (b64Val c))) 0 ?cs = int n"
    by (simp only: foldl.simps b64Val_char option.sel top mult_zero_left add_0_left)
  moreover have int_div: "int n div 65536 = int (n div 65536)" "int n div 256 = int (n div 256)" by simp_all
  moreover have "list_all (\<lambda>c. b64Val c \<noteq> None) ?cs" "64 ^ (4 - length ?cs) = (1 :: int)" by simp_all
  ultimately show ?thesis
    unfolding b64Group_def by (simp only: Let_def if_True mult_1_right int_div of_int_of_nat_eq)
qed

lemma group_three:
  assumes "n mod 64 = 0"
  shows "b64Group [b64Char (n div 262144), b64Char (n div 4096), b64Char (n div 64)] k
    = b64Group [b64Char (n div 262144), b64Char (n div 4096), b64Char (n div 64), b64Char n] k"
  using assms by (simp add: b64Group_def Let_def)

lemma group_two:
  assumes "n mod 4096 = 0"
  shows "b64Group [b64Char (n div 262144), b64Char (n div 4096)] k
    = b64Group [b64Char (n div 262144), b64Char (n div 4096), b64Char (n div 64), b64Char n] k"
proof -
  obtain k where "n = 4096 * k" using assms by (auto simp: mod_eq_0_iff_dvd)
  then have "n div 64 mod 64 = 0" "n mod 64 = 0" by simp_all
  then show ?thesis by (simp add: b64Group_def Let_def mult.commute)
qed

lemma byte_wrap: "256 * b = 0" "b * 256 = 0" "b * 65536 = 0" for b :: byte
proof -
  have "(256 :: byte) = 0" "(65536 :: byte) = 0" by code_simp+
  then show "256 * b = 0" "b * 256 = 0" "b * 65536 = 0" by (simp_all only: mult_zero_left mult_zero_right)
qed

lemma b64Std_encode: "b64Std (b64Encode bs) = Some bs"
proof (induction bs rule: b64Encode.induct)
  case (2 a)
  have "unat a * 65536 < 16777216" using byte_less [of a] by simp
  then show ?case using group_two [of "unat a * 65536" 1] group_bytes [of "unat a * 65536" 1] by (simp add: Let_def)
next
  case (3 a b)
  let ?n = "unat a * 65536 + unat b * 256"
  have "?n < 16777216" using byte_less [of a] byte_less [of b] by linarith
  moreover have "?n mod 64 = 0" by presburger
  moreover have "?n div 65536 = unat a" "?n div 256 = unat a * 256 + unat b" using byte_less [of b] by simp_all
  ultimately show ?case using group_three [of ?n 2] group_bytes [of ?n 2] by (simp add: Let_def byte_wrap)
next
  case (4 a b c r)
  let ?n = "unat a * 65536 + unat b * 256 + unat c"
  have "?n < 16777216" using byte_less [of a] byte_less [of b] byte_less [of c] by linarith
  moreover have "?n div 65536 = unat a" "?n div 256 = unat a * 256 + unat b"
    using byte_less [of b] byte_less [of c] by linarith+
  ultimately show ?case using 4 group_bytes [of ?n 3] by (simp add: Let_def byte_wrap)
qed simp

subsection \<open>Lemmas: transactions\<close>

lemma txHashBytes_length: "txHashBytes hash = Inr raw \<Longrightarrow> length raw = 32"
  by (auto simp: txHashBytes_def split: sum.splits if_splits)

lemma hexEncode_hex: "list_all (\<lambda>c. hexVal c \<noteq> None) (hexEncode bs)"
proof (induction bs)
  case (Cons b bs)
  have "unat b div 16 < 16" "unat b mod 16 < 16" using byte_less [of b] by simp_all
  then show ?case using Cons by (simp add: hexEncode_Cons hexByte_def)
qed simp

lemma hexEncode_no_prefix: "hexVal x = None \<Longrightarrow> trimPrefix [c, x] (hexEncode bs) = hexEncode bs"
  using hexEncode_hex [of bs]
  by (auto simp: trimPrefix_def cutPrefix_eq_Some split: option.splits)

text \<open>A hash is read from its hex, with or without a prefix.\<close>

lemma txHashBytes_hex:
  assumes "length raw = 32"
  shows "txHashBytes (hexEncode raw) = Inr raw" and "txHashBytes (''0x'' @ hexEncode raw) = Inr raw"
proof -
  have plain: "trimPrefix ''0X'' (hexEncode raw) = hexEncode raw" "trimPrefix ''0x'' (hexEncode raw) = hexEncode raw"
    by (rule hexEncode_no_prefix, code_simp)+
  moreover have "trimPrefix ''0x'' (''0x'' @ hexEncode raw) = hexEncode raw"
    by (simp only: trimPrefix_def cutPrefix_append option.case)
  ultimately show "txHashBytes (hexEncode raw) = Inr raw" "txHashBytes (''0x'' @ hexEncode raw) = Inr raw"
    using assms by (simp_all only: txHashBytes_def) simp_all
qed

lemma readLookup_result:
  assumes "readLookup hash raw resp = Inr r"
  shows "(r = notFound hash \<and> (\<exists>e. rrError resp = Some e \<and> reCode e = -32603 \<and> containsText ''not found'' (reData e)))
    \<or> (rrError resp = None \<and> txHashBytes (txHash r) = Inr raw \<and> txStatus r \<noteq> TransactionStatusNotFound
       \<and> (txStatus r = TransactionStatusSuccess \<longleftrightarrow> txCode r = 0))"
  using assms
  by (auto simp: readLookup_def bindR_eq_Inr txResult_def Let_def split: option.splits if_splits)

lemma GetTx_parts:
  assumes "GetTx w c hash = Inr r"
  obtains raw resp where "txHashBytes hash = Inr raw" "doRPCRequest w c ''tx'' (txParams raw) Tx = Inr resp"
    "readLookup hash raw resp = Inr r"
  using assms by (auto simp: GetTx_def bindR_eq_Inr)

lemma broadcastResult_success:
  "brSuccess (broadcastResult status e) \<longleftrightarrow> seSuccess e \<and> (\<exists>d. seData e = Some d \<and> sdCode d = 0)"
  by (auto simp: broadcastResult_def emptyResult_def Let_def split: option.splits bool.splits)

subsection \<open>Properties\<close>

text \<open>
  C31: whatever the node answers, a transaction looked up by a hash is either not found or
  reported under that very hash: the node is asked for the 32 bytes the hash stands for, in
  base64 that decodes to them, its answer's hash stands for the same bytes, and it counts as
  applied exactly when its code is 0.
\<close>

theorem GetTx_about_hash:
  assumes "GetTx w c hash = Inr r"
  shows "\<exists>raw resp. txHashBytes hash = Inr raw \<and> length raw = 32 \<and> b64Std (b64Encode raw) = Some raw
    \<and> doRPCRequest w c ''tx'' (txParams raw) Tx = Inr resp
    \<and> (r = notFound hash \<and> rrError resp \<noteq> None
       \<or> txHashBytes (txHash r) = Inr raw \<and> txStatus r \<noteq> TransactionStatusNotFound
         \<and> (txStatus r = TransactionStatusSuccess \<longleftrightarrow> txCode r = 0))"
proof -
  obtain raw resp where parts: "txHashBytes hash = Inr raw" "doRPCRequest w c ''tx'' (txParams raw) Tx = Inr resp"
    "readLookup hash raw resp = Inr r" by (rule GetTx_parts [OF assms])
  then show ?thesis using txHashBytes_length [OF parts(1)] b64Std_encode [of raw] readLookup_result [OF parts(3)]
    by (intro exI [of _ raw] exI [of _ resp]) auto
qed

subsection \<open>Witnesses\<close>

definition sampleTxJson :: json where
  "sampleTxJson = JObj [(''result'', JObj [(''hash'', JStr sampleCommitment), (''height'', JStr ''5''),
     (''tx_result'', JObj [(''code'', JNum ''4''), (''log'', JStr ''(nonce 7 spent)'')])])]"

definition sampleNode :: rpcNet where
  "sampleNode = \<lparr>rnSpare = \<lambda>n. 0, rnPost = \<lambda>_ _. sampleReply (printJson sampleTxJson)\<rparr>"

definition sampleFound :: TxResult where
  "sampleFound = (notFound sampleCommitment)\<lparr>txHeight := 5, txStatus := TransactionStatusFailed, txCode := 4,
     txLog := ''(nonce 7 spent)''\<rparr>"

lemma sample_tx_small: "CheckJSON (printJson sampleTxJson) = Inr ()" "length (printJson sampleTxJson) < 400"
  by code_simp+

lemma sample_tx_read: "unmarshalJson (printJson sampleTxJson) = Some sampleTxJson"
  by (rule unmarshal_clean)
    (simp_all add: sampleTxJson_def sample_texts_clean plainNumber_def isDigit_def charNat_def)

definition sampleResponse :: RPCResponse where
  "sampleResponse = \<lparr>rrJSONRPC = [], rrID = 0, rrResult = member ''result'' (case sampleTxJson of JObj ms \<Rightarrow> ms | _ \<Rightarrow> []),
     rrError = None\<rparr>"

lemma sample_tx_decoded:
  "decodeStruct rpcFields \<lparr>rrJSONRPC = [], rrID = 0, rrResult = None, rrError = None\<rparr> sampleTxJson = Some sampleResponse"
  "readResult (decodeStruct txAnswerFields) zeroTxAnswer sampleResponse
     = Inr \<lparr>taHash = sampleCommitment, taHeight = 5, taIndex = 0,
         taOutcome = \<lparr>toCode = 4, toLog = ''(nonce 7 spent)'', toGasUsed = 0, toGasWant = 0, toData = None\<rparr>\<rparr>"
  by code_simp+

lemma sample_tx_hash: "txHashBytes sampleCommitment = Inr (replicate 32 7)"
  by code_simp

lemma sample_tx: "GetTx sampleNode (NewConsensusClient DefaultConsensusConfig) sampleCommitment = Inr sampleFound"
proof -
  have "doRPCRequest sampleNode c ''tx'' p Tx = Inr sampleResponse" for c p
    using sample_tx_small
    by (simp add: doRPCRequest_def postBody_def sampleNode_def sampleReply_def ReadAll_eq Tx_def Unmarshal_def liftE_def
      decodeWith_def sample_tx_read sample_tx_decoded bindR_def)
  moreover have "readLookup sampleCommitment (replicate 32 7) sampleResponse = Inr sampleFound"
  proof -
    have "rrError sampleResponse = None" by (simp add: sampleResponse_def)
    then show ?thesis
      by (simp add: readLookup_def sample_tx_decoded sample_tx_hash bindR_def txResult_def sampleFound_def notFound_def)
  qed
  ultimately show ?thesis by (simp add: GetTx_def sample_tx_hash bindR_def)
qed

theorem GetTx_about_hash_witness:
  "sampleFound \<noteq> notFound sampleCommitment \<and> txHashBytes (txHash sampleFound) = Inr (replicate 32 7)"
proof -
  have other: "sampleFound \<noteq> notFound sampleCommitment" by (simp add: sampleFound_def notFound_def)
  then show ?thesis using GetTx_about_hash [OF sample_tx] by (auto simp: sample_tx_hash)
qed

end
