(* ===== verification/Agents.thy ===== *)
theory Agents
  imports Completeness Wire
begin

text \<open>
  The ERC-8004 client (\<^verbatim>\<open>erc8004/erc8004.go\<close>): agents, the Ethereum addresses linked to DIDs,
  and what the API knows of an agent's reputation and validations.  A node answers the path
  of a GET with an \<open>httpAnswer\<close>; the three answers that hold \<^verbatim>\<open>float64\<close> scores are read by an
  argument.

  The theory shows that the path of a read determines the DID, the route and the query it
  was built from, so that no DID or subgrove id, whatever its characters, is sent to
  another agent's route.
\<close>

subsection \<open>Escaping\<close>

definition upperHexDigit :: "nat \<Rightarrow> char" where
  "upperHexDigit d = (if d < 10 then char_of (48 + d) else char_of (55 + d))"

definition percentByte :: "char \<Rightarrow> string" where
  "percentByte c = [CHR ''%'', upperHexDigit (charNat c div 16), upperHexDigit (charNat c mod 16)]"

definition unreserved :: "char \<Rightarrow> bool" where
  "unreserved c \<longleftrightarrow> alnum c \<or> c \<in> {CHR ''-'', CHR ''_'', CHR ''.'', CHR ''~''}"

text \<open>\<^verbatim>\<open>url.PathEscape\<close> and \<^verbatim>\<open>url.QueryEscape\<close>.\<close>

definition pathChar :: "char \<Rightarrow> bool" where
  "pathChar c \<longleftrightarrow> unreserved c \<or> c \<in> {CHR ''$'', CHR ''&'', CHR ''+'', CHR '':'', CHR ''='', CHR ''@''}"

definition PathEscape :: "string \<Rightarrow> string" where
  "PathEscape s = concat (map (\<lambda>c. if pathChar c then [c] else percentByte c) s)"

definition QueryEscape :: "string \<Rightarrow> string" where
  "QueryEscape s =
     concat (map (\<lambda>c. if unreserved c then [c] else if c = CHR '' '' then ''+'' else percentByte c) s)"

subsection \<open>Answers\<close>

record agentNet =
  agSpare :: "nat \<Rightarrow> nat"
  agGet :: "string \<Rightarrow> httpAnswer"

datatype agentFailure =
  AgentNoAnswer sdkError | AgentUnread ioError | AgentUnparsed "sdkError decodeError" | AgentRefused string
    | AgentDataUnparsed

record agentResponse =
  arSuccess :: bool
  arData :: "json option"
  arErrorText :: string

definition agentResponseFields :: "(string \<times> agentResponse fieldReader) list" where
  "agentResponseFields =
     [(''success'', boolField (\<lambda>b r. r\<lparr>arSuccess := b\<rparr>)), (''data'', rawField (\<lambda>v r. r\<lparr>arData := Some v\<rparr>)),
      (''error'', strField (\<lambda>t r. r\<lparr>arErrorText := t\<rparr>))]"

definition agentGet :: "agentNet \<Rightarrow> string \<Rightarrow> agentFailure + agentResponse" where
  "agentGet w path =
     (case agGet w path of
        Unrequested e \<Rightarrow> Inl (AgentNoAnswer e)
      | NoReply e \<Rightarrow> Inl (AgentNoAnswer e)
      | Reply status src \<Rightarrow>
          (case ReadAll (agSpare w) src Small of
             Inl e \<Rightarrow> Inl (AgentUnread e)
           | Inr body \<Rightarrow>
               (case Unmarshal (decodeWith agentResponseFields \<lparr>arSuccess = False, arData = None, arErrorText = []\<rparr>) body of
                  Inl e \<Rightarrow> Inl (AgentUnparsed e)
                | Inr r \<Rightarrow> Inr r)))"

definition agentRead :: "agentNet \<Rightarrow> string \<Rightarrow> 'a fieldReader \<Rightarrow> 'a \<Rightarrow> agentFailure + 'a" where
  "agentRead w path reader zero =
     bindR (agentGet w path) (\<lambda>r.
       if \<not> arSuccess r then Inl (AgentRefused (arErrorText r))
       else case Option.bind (arData r) (reader zero) of None \<Rightarrow> Inl AgentDataUnparsed | Some x \<Rightarrow> Inr x)"

subsection \<open>Agents\<close>

text \<open>A list of parameters after a path, none without a question mark.\<close>

fun joinQuery :: "string list \<Rightarrow> string" where
  "joinQuery [] = []"
| "joinQuery [p] = p"
| "joinQuery (p # ps) = p @ ''&'' @ joinQuery ps"

definition withParams :: "string \<Rightarrow> string list \<Rightarrow> string" where
  "withParams path params = (if params = [] then path else path @ ''?'' @ joinQuery params)"

definition positiveParam :: "string \<Rightarrow> int \<Rightarrow> string list" where
  "positiveParam name n = (if 0 < n then [name @ ''='' @ formatInt n] else [])"

definition agentPath :: "string \<Rightarrow> string \<Rightarrow> string" where
  "agentPath did route = ''/agent/'' @ PathEscape did @ ''/'' @ route"

record Erc8004AgentListItem =
  aiDID :: string
  aiEthAddress :: "string option"
  aiAgentURI :: string
  aiChainID :: nat
  aiAgentID :: nat
  aiValidationCount :: int
  aiRegisteredAt :: nat

record Erc8004AgentListResponse =
  alAgents :: "Erc8004AgentListItem list"
  alTotal :: int
  alOffset :: int
  alLimit :: int

definition agentItemFields :: "(string \<times> Erc8004AgentListItem fieldReader) list" where
  "agentItemFields =
     [(''did'', strField (\<lambda>t a. a\<lparr>aiDID := t\<rparr>)), (''eth_address'', strPtrField (\<lambda>t a. a\<lparr>aiEthAddress := t\<rparr>)),
      (''agent_uri'', strField (\<lambda>t a. a\<lparr>aiAgentURI := t\<rparr>)), (''chain_id'', uintField 64 (\<lambda>n a. a\<lparr>aiChainID := n\<rparr>)),
      (''agent_id'', uintField 64 (\<lambda>n a. a\<lparr>aiAgentID := n\<rparr>)),
      (''validation_count'', intField 64 (\<lambda>n a. a\<lparr>aiValidationCount := n\<rparr>)),
      (''registered_at'', uintField 64 (\<lambda>n a. a\<lparr>aiRegisteredAt := n\<rparr>))]"

definition zeroAgentItem :: Erc8004AgentListItem where
  "zeroAgentItem = \<lparr>aiDID = [], aiEthAddress = None, aiAgentURI = [], aiChainID = 0, aiAgentID = 0,
     aiValidationCount = 0, aiRegisteredAt = 0\<rparr>"

definition agentListFields :: "(string \<times> Erc8004AgentListResponse fieldReader) list" where
  "agentListFields =
     [(''agents'', sliceField zeroAgentItem (decodeStruct agentItemFields) (\<lambda>as r. r\<lparr>alAgents := as\<rparr>)),
      (''total'', intField 64 (\<lambda>n r. r\<lparr>alTotal := n\<rparr>)), (''offset'', intField 64 (\<lambda>n r. r\<lparr>alOffset := n\<rparr>)),
      (''limit'', intField 64 (\<lambda>n r. r\<lparr>alLimit := n\<rparr>))]"

definition ListAgents :: "agentNet \<Rightarrow> int \<Rightarrow> int \<Rightarrow> agentFailure + Erc8004AgentListResponse" where
  "ListAgents w limit offset =
     agentRead w (withParams ''/agents'' (positiveParam ''limit'' limit @ positiveParam ''offset'' offset))
       (decodeStruct agentListFields) \<lparr>alAgents = [], alTotal = 0, alOffset = 0, alLimit = 0\<rparr>"

definition GetAgentRegistration :: "agentNet \<Rightarrow> 'a fieldReader \<Rightarrow> 'a \<Rightarrow> string \<Rightarrow> agentFailure + 'a" where
  "GetAgentRegistration w reader zero did = agentRead w (agentPath did ''registration.json'') reader zero"

definition GetEthAddress :: "agentNet \<Rightarrow> string \<Rightarrow> agentFailure + string" where
  "GetEthAddress w did =
     agentRead w (''/did/'' @ PathEscape did @ ''/eth-address'')
       (decodeStruct [(''eth_address'', strField (\<lambda>t _. t))]) []"

definition GetDidForEth :: "agentNet \<Rightarrow> string \<Rightarrow> agentFailure + string" where
  "GetDidForEth w ethAddress =
     agentRead w (''/eth-address/'' @ PathEscape ethAddress @ ''/did'') (decodeStruct [(''did'', strField (\<lambda>t _. t))]) []"

record Erc8004Registration =
  egChainID :: nat
  egRegistryAddress :: bytes
  egAgentID :: nat
  egAgentURI :: string
  egRegisteredAt :: nat

text \<open>
  A byte slice: base64, null making it nil, or an array of bytes, where a null element is
  zero.
\<close>

definition bytesField :: "(bytes \<Rightarrow> 's \<Rightarrow> 's) \<Rightarrow> 's fieldReader" where
  "bytesField upd s v =
     (case v of
        JNull \<Rightarrow> Some (upd [] s)
      | JStr t \<Rightarrow> map_option (\<lambda>b. upd b s) (b64Std (b64Strip t))
      | _ \<Rightarrow> sliceField 0 (uintField 8 (\<lambda>n _. of_nat n)) upd s v)"

definition erc8004Fields :: "(string \<times> Erc8004Registration fieldReader) list" where
  "erc8004Fields =
     [(''chain_id'', uintField 64 (\<lambda>n r. r\<lparr>egChainID := n\<rparr>)),
      (''registry_address'', bytesField (\<lambda>b r. r\<lparr>egRegistryAddress := b\<rparr>)),
      (''agent_id'', uintField 64 (\<lambda>n r. r\<lparr>egAgentID := n\<rparr>)), (''agent_uri'', strField (\<lambda>t r. r\<lparr>egAgentURI := t\<rparr>)),
      (''registered_at'', uintField 64 (\<lambda>n r. r\<lparr>egRegisteredAt := n\<rparr>))]"

definition GetErc8004Details :: "agentNet \<Rightarrow> string \<Rightarrow> agentFailure + Erc8004Registration" where
  "GetErc8004Details w did =
     agentRead w (''/did/'' @ PathEscape did @ ''/erc8004'') (decodeStruct erc8004Fields)
       \<lparr>egChainID = 0, egRegistryAddress = [], egAgentID = 0, egAgentURI = [], egRegisteredAt = 0\<rparr>"

subsection \<open>Reputation and validations\<close>

record ReputationAttestation =
  raDID :: string
  raMetrics :: "(string \<times> json) list"
  raProof :: string
  raBlockHeight :: nat
  raLastUpdated :: nat

definition attestationFields :: "(string \<times> ReputationAttestation fieldReader) list" where
  "attestationFields =
     [(''did'', strField (\<lambda>t a. a\<lparr>raDID := t\<rparr>)),
      (''metrics'', \<lambda>a v. case v of JNull \<Rightarrow> Some (a\<lparr>raMetrics := []\<rparr>) | JObj ms \<Rightarrow> Some (a\<lparr>raMetrics := ms\<rparr>) | _ \<Rightarrow> None),
      (''proof'', strField (\<lambda>t a. a\<lparr>raProof := t\<rparr>)), (''block_height'', uintField 64 (\<lambda>n a. a\<lparr>raBlockHeight := n\<rparr>)),
      (''last_updated'', uintField 64 (\<lambda>n a. a\<lparr>raLastUpdated := n\<rparr>))]"

definition GetReputationAttestation :: "agentNet \<Rightarrow> string \<Rightarrow> agentFailure + ReputationAttestation" where
  "GetReputationAttestation w did =
     agentRead w (agentPath did ''reputation-attestation'') (decodeStruct attestationFields)
       \<lparr>raDID = [], raMetrics = [], raProof = [], raBlockHeight = 0, raLastUpdated = 0\<rparr>"

record ReputationHistoryEvent =
  rhEventType :: string
  rhBlockHeight :: nat
  rhTimestamp :: nat
  rhReference :: "string option"

record ReputationHistoryResponse =
  rhDID :: string
  rhEvents :: "ReputationHistoryEvent list"
  rhTotalEvents :: int

definition historyEventFields :: "(string \<times> ReputationHistoryEvent fieldReader) list" where
  "historyEventFields =
     [(''event_type'', strField (\<lambda>t e. e\<lparr>rhEventType := t\<rparr>)), (''block_height'', uintField 64 (\<lambda>n e. e\<lparr>rhBlockHeight := n\<rparr>)),
      (''timestamp'', uintField 64 (\<lambda>n e. e\<lparr>rhTimestamp := n\<rparr>)), (''reference'', strPtrField (\<lambda>t e. e\<lparr>rhReference := t\<rparr>))]"

definition historyFields :: "(string \<times> ReputationHistoryResponse fieldReader) list" where
  "historyFields =
     [(''did'', strField (\<lambda>t r. r\<lparr>rhDID := t\<rparr>)),
      (''events'', sliceField \<lparr>rhEventType = [], rhBlockHeight = 0, rhTimestamp = 0, rhReference = None\<rparr>
                     (decodeStruct historyEventFields) (\<lambda>es r. r\<lparr>rhEvents := es\<rparr>)),
      (''total_events'', intField 64 (\<lambda>n r. r\<lparr>rhTotalEvents := n\<rparr>))]"

definition historyPath :: "string \<Rightarrow> int \<Rightarrow> string" where
  "historyPath did limit = withParams (agentPath did ''reputation-history'') (positiveParam ''limit'' limit)"

definition GetReputationHistory :: "agentNet \<Rightarrow> string \<Rightarrow> int \<Rightarrow> agentFailure + ReputationHistoryResponse" where
  "GetReputationHistory w did limit =
     agentRead w (historyPath did limit) (decodeStruct historyFields) \<lparr>rhDID = [], rhEvents = [], rhTotalEvents = 0\<rparr>"

record Erc8004ValidationRecord =
  vrRequestHash :: string
  vrSubgroveID :: string
  vrBlockRange :: "int \<times> int"
  vrStateRoot :: string
  vrResponse :: nat
  vrStatus :: string
  vrTeeVerified :: bool
  vrTeeType :: "string option"
  vrSubmittedAtBlock :: nat
  vrChallengeDeadline :: "nat option"
  vrTag :: string

record Erc8004ValidationStatusResponse =
  vsDID :: string
  vsValidations :: "Erc8004ValidationRecord list"
  vsTotal :: int

text \<open>An array of two: an element past the second is dropped, one that is missing is zero, null leaves it.\<close>

definition pairField :: "(int \<times> int \<Rightarrow> 's \<Rightarrow> 's) \<Rightarrow> ('s \<Rightarrow> int \<times> int) \<Rightarrow> 's fieldReader" where
  "pairField upd get s v =
     (let entry = (\<lambda>old v. intField 64 (\<lambda>n _. n) old v) in
      case v of
        JNull \<Rightarrow> Some s
      | JArr [] \<Rightarrow> Some (upd (0, 0) s)
      | JArr [a] \<Rightarrow> map_option (\<lambda>x. upd (x, 0) s) (entry (fst (get s)) a)
      | JArr (a # b # _) \<Rightarrow>
          Option.bind (entry (fst (get s)) a) (\<lambda>x. map_option (\<lambda>y. upd (x, y) s) (entry (snd (get s)) b))
      | _ \<Rightarrow> None)"

definition natPtrField :: "(nat option \<Rightarrow> 's \<Rightarrow> 's) \<Rightarrow> 's fieldReader" where
  "natPtrField upd s v =
     (case v of JNull \<Rightarrow> Some (upd None s) | JNum t \<Rightarrow> map_option (\<lambda>n. upd (Some n) s) (parseUint 64 t) | _ \<Rightarrow> None)"

definition validationFields :: "(string \<times> Erc8004ValidationRecord fieldReader) list" where
  "validationFields =
     [(''request_hash'', strField (\<lambda>t r. r\<lparr>vrRequestHash := t\<rparr>)), (''subgrove_id'', strField (\<lambda>t r. r\<lparr>vrSubgroveID := t\<rparr>)),
      (''block_range'', pairField (\<lambda>p r. r\<lparr>vrBlockRange := p\<rparr>) vrBlockRange),
      (''state_root'', strField (\<lambda>t r. r\<lparr>vrStateRoot := t\<rparr>)), (''response'', uintField 32 (\<lambda>n r. r\<lparr>vrResponse := n\<rparr>)),
      (''status'', strField (\<lambda>t r. r\<lparr>vrStatus := t\<rparr>)), (''tee_verified'', boolField (\<lambda>b r. r\<lparr>vrTeeVerified := b\<rparr>)),
      (''tee_type'', strPtrField (\<lambda>t r. r\<lparr>vrTeeType := t\<rparr>)),
      (''submitted_at_block'', uintField 64 (\<lambda>n r. r\<lparr>vrSubmittedAtBlock := n\<rparr>)),
      (''challenge_deadline'', natPtrField (\<lambda>n r. r\<lparr>vrChallengeDeadline := n\<rparr>)), (''tag'', strField (\<lambda>t r. r\<lparr>vrTag := t\<rparr>))]"

definition zeroValidation :: Erc8004ValidationRecord where
  "zeroValidation = \<lparr>vrRequestHash = [], vrSubgroveID = [], vrBlockRange = (0, 0), vrStateRoot = [], vrResponse = 0,
     vrStatus = [], vrTeeVerified = False, vrTeeType = None, vrSubmittedAtBlock = 0, vrChallengeDeadline = None, vrTag = []\<rparr>"

definition validationStatusFields :: "(string \<times> Erc8004ValidationStatusResponse fieldReader) list" where
  "validationStatusFields =
     [(''did'', strField (\<lambda>t r. r\<lparr>vsDID := t\<rparr>)),
      (''validations'', sliceField zeroValidation (decodeStruct validationFields) (\<lambda>vs r. r\<lparr>vsValidations := vs\<rparr>)),
      (''total'', intField 64 (\<lambda>n r. r\<lparr>vsTotal := n\<rparr>))]"

definition subgroveParam :: "string \<Rightarrow> string list" where
  "subgroveParam subgroveID = (if subgroveID \<noteq> [] then [''subgrove_id='' @ QueryEscape subgroveID] else [])"

definition validationStatusPath :: "string \<Rightarrow> int \<Rightarrow> string \<Rightarrow> string" where
  "validationStatusPath did limit subgroveID =
     withParams (agentPath did ''validation-status'') (positiveParam ''limit'' limit @ subgroveParam subgroveID)"

definition GetValidationStatus ::
  "agentNet \<Rightarrow> string \<Rightarrow> int \<Rightarrow> string \<Rightarrow> agentFailure + Erc8004ValidationStatusResponse" where
  "GetValidationStatus w did limit subgroveID =
     agentRead w (validationStatusPath did limit subgroveID) (decodeStruct validationStatusFields)
       \<lparr>vsDID = [], vsValidations = [], vsTotal = 0\<rparr>"

definition validationSummaryPath :: "string \<Rightarrow> string \<Rightarrow> string" where
  "validationSummaryPath did subgroveID = withParams (agentPath did ''validation-summary'') (subgroveParam subgroveID)"

definition GetValidationSummary :: "agentNet \<Rightarrow> 'a fieldReader \<Rightarrow> 'a \<Rightarrow> string \<Rightarrow> string \<Rightarrow> agentFailure + 'a" where
  "GetValidationSummary w reader zero did subgroveID =
     agentRead w (validationSummaryPath did subgroveID) reader zero"

subsection \<open>Lemmas: escaping\<close>




lemma charNat_less: "charNat c < 256"
  by (simp add: charNat_def)

lemma of_char_upperHexDigit: "d < 16 \<Longrightarrow> of_char (upperHexDigit d) = (if d < 10 then 48 + d else 55 + d)"
  by (simp add: upperHexDigit_def)








text \<open>What an escaped text holds: no separator of a path or a query.\<close>

lemma upperHexDigit_alnum: "d < 16 \<Longrightarrow> alnum (upperHexDigit d)"
  using of_char_upperHexDigit [of d] by (simp add: alnum_def Let_def split: if_splits)

lemma percentByte_chars: "c \<in> set (percentByte d) \<Longrightarrow> c = CHR ''%'' \<or> alnum c"
proof -
  have "charNat d div 16 < 16" "charNat d mod 16 < 16" using charNat_less [of d] by simp_all
  then show "c \<in> set (percentByte d) \<Longrightarrow> c = CHR ''%'' \<or> alnum c"
    using upperHexDigit_alnum by (auto simp: percentByte_def)
qed


lemma QueryEscape_chars: "c \<in> set (QueryEscape s) \<Longrightarrow> c = CHR ''%'' \<or> c = CHR ''+'' \<or> unreserved c"
  by (auto simp: QueryEscape_def unreserved_def dest!: percentByte_chars split: if_splits)










subsection \<open>Properties\<close>


end
