(* ===== verification/Reads.thy ===== *)
theory Reads
  imports Data Grants
begin

text \<open>
  The other reads: the query builder, checkpoints and historical queries of \<^verbatim>\<open>data.go\<close>,
  subgroves and permissions of \<^verbatim>\<open>registration.go\<close> with the builder of a registration, and
  the operations that the API cannot serve and that fail before they send anything.

  The theory shows that every unsupported operation fails with an error the SDK's predicate
  recognises, and that a built query with more than one filter, or one that is no equality,
  is refused and not sent.
\<close>

subsection \<open>The query builder\<close>

definition NewQueryBuilder :: QueryRequest where
  "NewQueryBuilder = emptyQuery"

definition addFilter :: "string \<Rightarrow> string \<Rightarrow> json \<Rightarrow> QueryRequest \<Rightarrow> QueryRequest" where
  "addFilter field operator val q =
     q\<lparr>qrFilters := qrFilters q @ [\<lparr>qfField = field, qfOperator = operator, qfValue = val\<rparr>]\<rparr>"

definition Equals :: "string \<Rightarrow> json \<Rightarrow> QueryRequest \<Rightarrow> QueryRequest" where
  "Equals field val q = addFilter field ''eq'' val q"

definition NotEquals :: "string \<Rightarrow> json \<Rightarrow> QueryRequest \<Rightarrow> QueryRequest" where
  "NotEquals field val q = addFilter field ''ne'' val q"

definition GreaterThan :: "string \<Rightarrow> json \<Rightarrow> QueryRequest \<Rightarrow> QueryRequest" where
  "GreaterThan field val q = addFilter field ''gt'' val q"

definition GreaterThanOrEqual :: "string \<Rightarrow> json \<Rightarrow> QueryRequest \<Rightarrow> QueryRequest" where
  "GreaterThanOrEqual field val q = addFilter field ''gte'' val q"

definition LessThan :: "string \<Rightarrow> json \<Rightarrow> QueryRequest \<Rightarrow> QueryRequest" where
  "LessThan field val q = addFilter field ''lt'' val q"

definition LessThanOrEqual :: "string \<Rightarrow> json \<Rightarrow> QueryRequest \<Rightarrow> QueryRequest" where
  "LessThanOrEqual field val q = addFilter field ''lte'' val q"

definition Contains :: "string \<Rightarrow> json \<Rightarrow> QueryRequest \<Rightarrow> QueryRequest" where
  "Contains field val q = addFilter field ''contains'' val q"

definition InValues :: "string \<Rightarrow> json list \<Rightarrow> QueryRequest \<Rightarrow> QueryRequest" where
  "InValues field vals q = addFilter field ''in'' (JArr vals) q"

definition SearchFor :: "string list \<Rightarrow> string \<Rightarrow> QueryRequest \<Rightarrow> QueryRequest" where
  "SearchFor searched query q = q\<lparr>qrSearch := Some \<lparr>qhFields = searched, qhQuery = query\<rparr>\<rparr>"

definition SortAsc :: "string \<Rightarrow> QueryRequest \<Rightarrow> QueryRequest" where
  "SortAsc field q = q\<lparr>qrSort := Some \<lparr>qsField = field, qsAscending = True\<rparr>\<rparr>"

definition SortDesc :: "string \<Rightarrow> QueryRequest \<Rightarrow> QueryRequest" where
  "SortDesc field q = q\<lparr>qrSort := Some \<lparr>qsField = field, qsAscending = False\<rparr>\<rparr>"

definition LimitTo :: "int \<Rightarrow> QueryRequest \<Rightarrow> QueryRequest" where
  "LimitTo n q = q\<lparr>qrLimit := n\<rparr>"

definition OffsetBy :: "int \<Rightarrow> QueryRequest \<Rightarrow> QueryRequest" where
  "OffsetBy n q = q\<lparr>qrOffset := n\<rparr>"

definition WithProof :: "QueryRequest \<Rightarrow> QueryRequest" where
  "WithProof q = q\<lparr>qrIncludeProof := Some True\<rparr>"

subsection \<open>Checkpoints\<close>

record CheckpointInfo =
  ciCheckpointID :: string
  ciSubgroveID :: string
  ciStateRoot :: string
  ciBlockRange :: "nat \<times> nat"
  ciIndexerDID :: string
  ciSubmittedAt :: nat
  ciIsTrusted :: bool

text \<open>An array of two unsigned numbers, as \<open>pairField\<close>.\<close>

definition rangeField :: "(nat \<times> nat \<Rightarrow> 's \<Rightarrow> 's) \<Rightarrow> ('s \<Rightarrow> nat \<times> nat) \<Rightarrow> 's fieldReader" where
  "rangeField upd get s v =
     (let entry = (\<lambda>old v. uintField 64 (\<lambda>n _. n) old v) in
      case v of
        JNull \<Rightarrow> Some s
      | JArr [] \<Rightarrow> Some (upd (0, 0) s)
      | JArr [a] \<Rightarrow> map_option (\<lambda>x. upd (x, 0) s) (entry (fst (get s)) a)
      | JArr (a # b # _) \<Rightarrow>
          Option.bind (entry (fst (get s)) a) (\<lambda>x. map_option (\<lambda>y. upd (x, y) s) (entry (snd (get s)) b))
      | _ \<Rightarrow> None)"

definition checkpointFields :: "(string \<times> CheckpointInfo fieldReader) list" where
  "checkpointFields =
     [(''checkpoint_id'', strField (\<lambda>t c. c\<lparr>ciCheckpointID := t\<rparr>)), (''subgrove_id'', strField (\<lambda>t c. c\<lparr>ciSubgroveID := t\<rparr>)),
      (''state_root'', strField (\<lambda>t c. c\<lparr>ciStateRoot := t\<rparr>)),
      (''block_range'', rangeField (\<lambda>p c. c\<lparr>ciBlockRange := p\<rparr>) ciBlockRange),
      (''indexer_did'', strField (\<lambda>t c. c\<lparr>ciIndexerDID := t\<rparr>)),
      (''submitted_at'', uintField 64 (\<lambda>n c. c\<lparr>ciSubmittedAt := n\<rparr>)),
      (''is_trusted'', boolField (\<lambda>b c. c\<lparr>ciIsTrusted := b\<rparr>))]"

definition GetCheckpointStateRoot :: "apiNet \<Rightarrow> string \<Rightarrow> string \<Rightarrow> CheckpointInfo apiResult" where
  "GetCheckpointStateRoot w subgroveID checkpointID =
     getData w (''/checkpoints/'' @ subgroveID @ ''/'' @ checkpointID @ ''/state-root'') (decodeStruct checkpointFields)
       \<lparr>ciCheckpointID = [], ciSubgroveID = [], ciStateRoot = [], ciBlockRange = (0, 0), ciIndexerDID = [],
        ciSubmittedAt = 0, ciIsTrusted = False\<rparr>"

record HistoricalQueryRequest =
  hqPath :: "bytes list"
  hqKey :: "bytes option"
  hqQueryType :: string
  hqIncludeProof :: bool

definition historicalJson :: "HistoricalQueryRequest \<Rightarrow> json" where
  "historicalJson r =
     JObj ([(''path'', JArr (map byteArrayJson (hqPath r)))]
       @ (case hqKey r of None \<Rightarrow> [] | Some k \<Rightarrow> [(''key'', byteArrayJson k)])
       @ (if hqQueryType r = [] then [] else [(''query_type'', JStr (hqQueryType r))])
       @ [(''include_proof'', JBool (hqIncludeProof r))])"

record HistoricalQueryResponse =
  hrSuccess :: bool
  hrProviderDID :: string
  hrProviderEndpoint :: string
  hrStateRoot :: string
  hrBlockRange :: "nat \<times> nat"
  hrData :: json
  hrProof :: string
  hrCanReindex :: bool
  hrError :: string

definition historicalFields :: "(string \<times> HistoricalQueryResponse fieldReader) list" where
  "historicalFields =
     [(''success'', boolField (\<lambda>b r. r\<lparr>hrSuccess := b\<rparr>)), (''provider_did'', strField (\<lambda>t r. r\<lparr>hrProviderDID := t\<rparr>)),
      (''provider_endpoint'', strField (\<lambda>t r. r\<lparr>hrProviderEndpoint := t\<rparr>)), (''state_root'', strField (\<lambda>t r. r\<lparr>hrStateRoot := t\<rparr>)),
      (''block_range'', rangeField (\<lambda>p r. r\<lparr>hrBlockRange := p\<rparr>) hrBlockRange), (''data'', rawField (\<lambda>v r. r\<lparr>hrData := v\<rparr>)),
      (''proof'', strField (\<lambda>t r. r\<lparr>hrProof := t\<rparr>)), (''can_reindex'', boolField (\<lambda>b r. r\<lparr>hrCanReindex := b\<rparr>)),
      (''error'', strField (\<lambda>t r. r\<lparr>hrError := t\<rparr>))]"

definition postBare ::
  "apiNet \<Rightarrow> string \<Rightarrow> string \<Rightarrow> nat \<Rightarrow> ('a \<Rightarrow> json \<Rightarrow> 'a option) \<Rightarrow> 'a \<Rightarrow> 'a apiResult" where
  "postBare w path payload limit reader zero =
     (case doRequest (apScale w) (apRetry w) (apSpare w) (apWorld w ''POST'' path (Some payload)) (Inr (Some payload)) limit
             (Some (readBare reader zero)) of
        Inl e \<Rightarrow> Inl e
      | Inr None \<Rightarrow> Inr zero
      | Inr (Some x) \<Rightarrow> Inr x)"

definition QueryHistorical ::
  "apiNet \<Rightarrow> string \<Rightarrow> string \<Rightarrow> HistoricalQueryRequest option \<Rightarrow> HistoricalQueryResponse apiResult" where
  "QueryHistorical w subgroveID checkpointID req =
     postBare w (''/historical/query/'' @ subgroveID @ ''/'' @ checkpointID)
       (printJson (case req of None \<Rightarrow> JNull | Some r \<Rightarrow> historicalJson r)) Large (decodeStruct historicalFields)
       \<lparr>hrSuccess = False, hrProviderDID = [], hrProviderEndpoint = [], hrStateRoot = [], hrBlockRange = (0, 0),
        hrData = JNull, hrProof = [], hrCanReindex = False, hrError = []\<rparr>"

subsection \<open>Registered subgroves\<close>

record SubgroveRegistration =
  srSubgroveID :: string
  srName :: string
  srDescription :: string
  srSchema :: SchemaDefinition
  srOwnerDid :: string
  srWriters :: "string list"
  srReaders :: "string list"
  srRewardRate :: nat
  srItemCount :: nat
  srStorageUsed :: nat
  srCreatedAt :: int
  srUpdatedAt :: int

definition textsField :: "(string list \<Rightarrow> 's \<Rightarrow> 's) \<Rightarrow> 's fieldReader" where
  "textsField upd = sliceField [] (strField (\<lambda>t _. t)) upd"

definition registrationFields :: "(string \<times> SubgroveRegistration fieldReader) list" where
  "registrationFields =
     [(''subgrove_id'', strField (\<lambda>t r. r\<lparr>srSubgroveID := t\<rparr>)), (''name'', strField (\<lambda>t r. r\<lparr>srName := t\<rparr>)),
      (''description'', strField (\<lambda>t r. r\<lparr>srDescription := t\<rparr>)),
      (''schema'', \<lambda>r v. map_option (\<lambda>s. r\<lparr>srSchema := s\<rparr>) (readSchema v)),
      (''owner_did'', strField (\<lambda>t r. r\<lparr>srOwnerDid := t\<rparr>)), (''writers'', textsField (\<lambda>ts r. r\<lparr>srWriters := ts\<rparr>)),
      (''free_readers'', textsField (\<lambda>ts r. r\<lparr>srReaders := ts\<rparr>)),
      (''reward_rate'', uintField 64 (\<lambda>n r. r\<lparr>srRewardRate := n\<rparr>)), (''item_count'', uintField 64 (\<lambda>n r. r\<lparr>srItemCount := n\<rparr>)),
      (''storage_used'', uintField 64 (\<lambda>n r. r\<lparr>srStorageUsed := n\<rparr>)),
      (''created_at'', intField 64 (\<lambda>n r. r\<lparr>srCreatedAt := n\<rparr>)), (''updated_at'', intField 64 (\<lambda>n r. r\<lparr>srUpdatedAt := n\<rparr>))]"

definition zeroRegistration :: SubgroveRegistration where
  "zeroRegistration =
     \<lparr>srSubgroveID = [], srName = [], srDescription = [], srSchema = zeroSchema, srOwnerDid = [], srWriters = [],
      srReaders = [], srRewardRate = 0, srItemCount = 0, srStorageUsed = 0, srCreatedAt = 0, srUpdatedAt = 0\<rparr>"

definition GetRegisteredSubgrove :: "apiNet \<Rightarrow> string \<Rightarrow> SubgroveRegistration apiResult" where
  "GetRegisteredSubgrove w subgroveID =
     getData w (''/subgroves/'' @ subgroveID) (decodeStruct registrationFields) zeroRegistration"

definition ListRegisteredSubgroves :: "apiNet \<Rightarrow> SubgroveRegistration list apiResult" where
  "ListRegisteredSubgroves w =
     getData w ''/subgroves'' (sliceField zeroRegistration (decodeStruct registrationFields) (\<lambda>rs _. rs)) []"

record Permission =
  pmDid :: string
  pmSubgroveID :: string
  pmRole :: string
  pmActions :: "string list"
  pmGrantedBy :: string
  pmGrantedAt :: int
  pmExpiresAt :: "int option"

definition intPtrField :: "(int option \<Rightarrow> 's \<Rightarrow> 's) \<Rightarrow> 's fieldReader" where
  "intPtrField upd s v =
     (case v of JNull \<Rightarrow> Some (upd None s) | _ \<Rightarrow> map_option (\<lambda>n. upd (Some n) s) (intField 64 (\<lambda>n _. n) 0 v))"

definition permissionFields :: "(string \<times> Permission fieldReader) list" where
  "permissionFields =
     [(''did'', strField (\<lambda>t p. p\<lparr>pmDid := t\<rparr>)), (''subgrove_id'', strField (\<lambda>t p. p\<lparr>pmSubgroveID := t\<rparr>)),
      (''role'', strField (\<lambda>t p. p\<lparr>pmRole := t\<rparr>)), (''actions'', textsField (\<lambda>ts p. p\<lparr>pmActions := ts\<rparr>)),
      (''granted_by'', strField (\<lambda>t p. p\<lparr>pmGrantedBy := t\<rparr>)), (''granted_at'', intField 64 (\<lambda>n p. p\<lparr>pmGrantedAt := n\<rparr>)),
      (''expires_at'', intPtrField (\<lambda>n p. p\<lparr>pmExpiresAt := n\<rparr>))]"

definition GetPermissions :: "apiNet \<Rightarrow> string \<Rightarrow> Permission list apiResult" where
  "GetPermissions w did =
     getData w (''/did/'' @ did @ ''/permissions'')
       (sliceField \<lparr>pmDid = [], pmSubgroveID = [], pmRole = [], pmActions = [], pmGrantedBy = [], pmGrantedAt = 0,
                    pmExpiresAt = None\<rparr> (decodeStruct permissionFields) (\<lambda>ps _. ps)) []"

subsection \<open>The builder of a registration\<close>

definition NewSubgroveBuilder :: "string \<Rightarrow> string \<Rightarrow> RegisterSubgroveRequest" where
  "NewSubgroveBuilder subgroveID name =
     \<lparr>rrSubgroveID = subgroveID, rrName = name, rrDescription = [], rrSchema = zeroSchema, rrOwnerDid = [],
      rrWriters = [], rrReaders = [], rrRewardRate = 0\<rparr>"

definition setDescription :: "string \<Rightarrow> RegisterSubgroveRequest \<Rightarrow> RegisterSubgroveRequest" where
  "setDescription desc b = b\<lparr>rrDescription := desc\<rparr>"

definition setSchema :: "SchemaDefinition \<Rightarrow> RegisterSubgroveRequest \<Rightarrow> RegisterSubgroveRequest" where
  "setSchema schema b = b\<lparr>rrSchema := schema\<rparr>"

definition setOwner :: "string \<Rightarrow> RegisterSubgroveRequest \<Rightarrow> RegisterSubgroveRequest" where
  "setOwner did b = b\<lparr>rrOwnerDid := did\<rparr>"

definition setWriters :: "string list \<Rightarrow> RegisterSubgroveRequest \<Rightarrow> RegisterSubgroveRequest" where
  "setWriters dids b = b\<lparr>rrWriters := dids\<rparr>"

definition AddWriter :: "string \<Rightarrow> RegisterSubgroveRequest \<Rightarrow> RegisterSubgroveRequest" where
  "AddWriter did b = b\<lparr>rrWriters := rrWriters b @ [did]\<rparr>"

definition setReaders :: "string list \<Rightarrow> RegisterSubgroveRequest \<Rightarrow> RegisterSubgroveRequest" where
  "setReaders dids b = b\<lparr>rrReaders := dids\<rparr>"

definition AddReader :: "string \<Rightarrow> RegisterSubgroveRequest \<Rightarrow> RegisterSubgroveRequest" where
  "AddReader did b = b\<lparr>rrReaders := rrReaders b @ [did]\<rparr>"

definition setRewardRate :: "u64 \<Rightarrow> RegisterSubgroveRequest \<Rightarrow> RegisterSubgroveRequest" where
  "setRewardRate rate b = b\<lparr>rrRewardRate := rate\<rparr>"

subsection \<open>Operations the API does not serve\<close>

definition StoreUnsupported :: sdkError where
  "StoreUnsupported = NewUnsupportedError
     (''Store: data is written by a StoreData transaction sent to POST /tx/submit, which needs a key; ''
      @ ''use StoreItem'')"

definition UpdateUnsupported :: sdkError where
  "UpdateUnsupported = NewUnsupportedError
     (''Update: the API'' @ [CHR 0x27] @ ''s REST data routes refuse writes; data is updated by an UpdateData ''
      @ ''transaction sent to POST /tx/submit, which this SDK does not build'')"

definition DeleteUnsupported :: sdkError where
  "DeleteUnsupported = NewUnsupportedError
     (''Delete: the API'' @ [CHR 0x27] @ ''s REST data routes refuse writes; data is deleted by a DeleteData ''
      @ ''transaction sent to POST /tx/submit, which this SDK does not build'')"

definition BatchStoreUnsupported :: sdkError where
  "BatchStoreUnsupported = NewUnsupportedError
     (''BatchStore: the API serves no batch write route; store each item with StoreItem, ''
      @ ''one StoreData transaction per item under its own nonce; at most 24 can be in flight per identity, ''
      @ ''so past that wait for earlier ones to land (WaitUntilLanded)'')"

definition QueryUnsupported :: sdkError where
  "QueryUnsupported = NewUnsupportedError
     (''Query: this SDK can'' @ [CHR 0x27] @ ''t verify a query'' @ [CHR 0x27] @ ''s proof against the chain (see VerifyProof); ''
      @ ''QueryUnverified sends the query and returns its documents unverified'')"

definition VerifyProofUnsupported :: sdkError where
  "VerifyProofUnsupported = NewUnsupportedError
     (''VerifyProof: this SDK doesn'' @ [CHR 0x27] @ ''t verify CometBFT headers, and its GroveDB verifier doesn''
      @ [CHR 0x27] @ ''t reproduce the chain'' @ [CHR 0x27] @ ''s root for every proof, so it can'' @ [CHR 0x27]
      @ ''t verify a proof against the chain'')"

definition QueryHistoricalVerifiedUnsupported :: sdkError where
  "QueryHistoricalVerifiedUnsupported = NewUnsupportedError
     (''QueryHistoricalVerified: this SDK can'' @ [CHR 0x27] @ ''t verify a historical answer against the chain; ''
      @ ''QueryHistorical returns it unverified'')"

definition UpdateSubgroveUnsupported :: sdkError where
  "UpdateSubgroveUnsupported = NewUnsupportedError
     (''UpdateSubgrove: the API serves no subgrove update route; a subgrove is changed by ''
      @ ''UpdateSubgroveReadPricing, UpdateSubgroveFreeReaders, or ReplaceSubgrove transactions sent to ''
      @ ''POST /tx/submit, which this SDK does not build'')"

definition permissionText :: "string \<Rightarrow> string" where
  "permissionText operation =
     operation @ '': the API serves no permission write route; a subgrove'' @ [CHR 0x27] @ ''s permissions ''
     @ ''(owner, admins, writers, readers) are written by its RegisterSubgrove transaction''"

definition GrantPermissionUnsupported :: sdkError where
  "GrantPermissionUnsupported = NewUnsupportedError (permissionText ''GrantPermission'')"

definition RevokePermissionUnsupported :: sdkError where
  "RevokePermissionUnsupported = NewUnsupportedError (permissionText ''RevokePermission'')"

subsection \<open>Lemmas\<close>

lemma unsupported_operations:
  "list_all IsUnsupported
     [RegisterDID, StoreUnsupported, UpdateUnsupported, DeleteUnsupported, BatchStoreUnsupported, QueryUnsupported,
      VerifyProofUnsupported, QueryHistoricalVerifiedUnsupported, UpdateSubgroveUnsupported,
      GrantPermissionUnsupported, RevokePermissionUnsupported]"
  by (simp add: IsUnsupported_def hasType_def NewUnsupportedError_def RegisterDID_def StoreUnsupported_def
    UpdateUnsupported_def DeleteUnsupported_def BatchStoreUnsupported_def QueryUnsupported_def VerifyProofUnsupported_def
    QueryHistoricalVerifiedUnsupported_def UpdateSubgroveUnsupported_def GrantPermissionUnsupported_def
    RevokePermissionUnsupported_def)

text \<open>A built query keeps every filter, and the API's route takes only one, an equality.\<close>

lemma built_filters: "qrFilters (addFilter field operator val q) = qrFilters q @ [\<lparr>qfField = field, qfOperator = operator, qfValue = val\<rparr>]"
  by (simp add: addFilter_def)

lemma one_filter_sent:
  assumes "operator \<noteq> ''eq'' \<or> qrFilters q \<noteq> []"
  shows "\<nexists>b. queryBody (Some (addFilter field operator val q)) = Inr b"
  using assms unfolding queryBody_accepts built_filters
  by (cases "qrFilters q") (auto split: list.splits)

end
