(* ===== verification/Indexing.thy ===== *)
theory Indexing
  imports Reads Agents Routing
begin

text \<open>
  Queries of indexed data and the lists of subgroves and indexers (\<^verbatim>\<open>indexing.go\<close>, without the
  routing of a query by source, which is in \<^verbatim>\<open>Routing\<close>), with their types of \<^verbatim>\<open>types.go\<close>.  A
  server answers a URL, headers and a body with an \<open>httpAnswer\<close>; the decoding of a \<^verbatim>\<open>float64\<close>
  score is an argument.

  The theory shows that a query to a configured indexer depends on nothing of the client's
  identity, and that a GraphQL query always asks for no proof, whatever its request says.
\<close>

subsection \<open>Requests and answers\<close>

record GraphQLRequest =
  gqQuery :: string
  gqVariables :: "(string \<times> json) list"
  gqOperationName :: string
  gqIncludeProof :: "bool option"

definition graphQLJson :: "GraphQLRequest \<Rightarrow> json" where
  "graphQLJson r =
     JObj ([(''query'', JStr (gqQuery r))]
       @ (if gqVariables r = [] then [] else [(''variables'', sortKeys (JObj (gqVariables r)))])
       @ (if gqOperationName r = [] then [] else [(''operation_name'', JStr (gqOperationName r))])
       @ (case gqIncludeProof r of None \<Rightarrow> [] | Some b \<Rightarrow> [(''include_proof'', JBool b)]))"

record GraphQLLocation =
  glLine :: int
  glColumn :: int

record GraphQLError =
  geMessage :: string
  geLocations :: "GraphQLLocation list"
  gePath :: "json list"
  geExtensions :: "(string \<times> json) list"

record GraphQLResponse =
  grData :: "json option"
  grErrors :: "GraphQLError list"
  grProof :: "json option"

definition locationFields :: "(string \<times> GraphQLLocation fieldReader) list" where
  "locationFields =
     [(''line'', intField 64 (\<lambda>n l. l\<lparr>glLine := n\<rparr>)), (''column'', intField 64 (\<lambda>n l. l\<lparr>glColumn := n\<rparr>))]"

definition graphQLErrorFields :: "(string \<times> GraphQLError fieldReader) list" where
  "graphQLErrorFields =
     [(''message'', strField (\<lambda>t e. e\<lparr>geMessage := t\<rparr>)),
      (''locations'', sliceField \<lparr>glLine = 0, glColumn = 0\<rparr> (decodeStruct locationFields) (\<lambda>ls e. e\<lparr>geLocations := ls\<rparr>)),
      (''path'', sliceField JNull (rawField (\<lambda>v _. v)) (\<lambda>vs e. e\<lparr>gePath := vs\<rparr>)),
      (''extensions'', anyMapField (\<lambda>ms e. e\<lparr>geExtensions := ms\<rparr>))]"

definition zeroGraphQLError :: GraphQLError where
  "zeroGraphQLError = \<lparr>geMessage = [], geLocations = [], gePath = [], geExtensions = []\<rparr>"

definition graphQLFields :: "(string \<times> GraphQLResponse fieldReader) list" where
  "graphQLFields =
     [(''data'', rawField (\<lambda>v r. r\<lparr>grData := Some v\<rparr>)),
      (''errors'', sliceField zeroGraphQLError (decodeStruct graphQLErrorFields) (\<lambda>es r. r\<lparr>grErrors := es\<rparr>)),
      (''proof'', rawField (\<lambda>v r. r\<lparr>grProof := Some v\<rparr>))]"

definition zeroGraphQL :: GraphQLResponse where
  "zeroGraphQL = \<lparr>grData = None, grErrors = [], grProof = None\<rparr>"

definition UnmarshalGraphQL :: "GraphQLResponse fieldReader" where
  "UnmarshalGraphQL r v =
     map_option (\<lambda>p. if grProof p = Some JNull then p\<lparr>grProof := None\<rparr> else p)
       (decodeStruct graphQLFields zeroGraphQL v)"

record MerkleProofData =
  mdKey :: string
  mdValueHash :: bytes
  mdSiblings :: "bytes list"
  mdPath :: string

record EthereumAnchor =
  eaBlockNumber :: nat
  eaTxHash :: bytes
  eaContract :: string

record QueryProof =
  qxMerkleProofs :: "MerkleProofData list"
  qxStateRoot :: bytes
  qxBlockHeight :: nat
  qxEthereumAnchor :: "EthereumAnchor option"

record SqlResponse =
  sqColumns :: "string list"
  sqRows :: "json list list"
  sqTotal :: "nat option"
  sqWarnings :: "string list"
  sqProof :: "QueryProof option"

definition merkleDataFields :: "(string \<times> MerkleProofData fieldReader) list" where
  "merkleDataFields =
     [(''key'', strField (\<lambda>t m. m\<lparr>mdKey := t\<rparr>)), (''value_hash'', bytesField (\<lambda>b m. m\<lparr>mdValueHash := b\<rparr>)),
      (''siblings'', sliceField [] (bytesField (\<lambda>b _. b)) (\<lambda>bs m. m\<lparr>mdSiblings := bs\<rparr>)),
      (''path'', strField (\<lambda>t m. m\<lparr>mdPath := t\<rparr>))]"

definition ethereumAnchorFields :: "(string \<times> EthereumAnchor fieldReader) list" where
  "ethereumAnchorFields =
     [(''block_number'', uintField 64 (\<lambda>n a. a\<lparr>eaBlockNumber := n\<rparr>)), (''tx_hash'', bytesField (\<lambda>b a. a\<lparr>eaTxHash := b\<rparr>)),
      (''contract'', strField (\<lambda>t a. a\<lparr>eaContract := t\<rparr>))]"

text \<open>A pointer member of a struct.\<close>

definition ptrMember :: "'a fieldReader \<Rightarrow> 'a \<Rightarrow> ('s \<Rightarrow> 'a option) \<Rightarrow> ('a option \<Rightarrow> 's \<Rightarrow> 's) \<Rightarrow> 's fieldReader" where
  "ptrMember reader zero get upd s v = map_option (\<lambda>p. upd p s) (ptrReader reader zero (get s) v)"

definition queryProofFields :: "(string \<times> QueryProof fieldReader) list" where
  "queryProofFields =
     [(''merkle_proofs'', sliceField \<lparr>mdKey = [], mdValueHash = [], mdSiblings = [], mdPath = []\<rparr>
                            (decodeStruct merkleDataFields) (\<lambda>ms q. q\<lparr>qxMerkleProofs := ms\<rparr>)),
      (''state_root'', bytesField (\<lambda>b q. q\<lparr>qxStateRoot := b\<rparr>)), (''block_height'', uintField 64 (\<lambda>n q. q\<lparr>qxBlockHeight := n\<rparr>)),
      (''ethereum_anchor'', ptrMember (decodeStruct ethereumAnchorFields) \<lparr>eaBlockNumber = 0, eaTxHash = [], eaContract = []\<rparr>
                              qxEthereumAnchor (\<lambda>a q. q\<lparr>qxEthereumAnchor := a\<rparr>))]"

definition sqlFields :: "(string \<times> SqlResponse fieldReader) list" where
  "sqlFields =
     [(''columns'', textsField (\<lambda>ts r. r\<lparr>sqColumns := ts\<rparr>)),
      (''rows'', sliceField [] (sliceField JNull (rawField (\<lambda>v _. v)) (\<lambda>vs _. vs)) (\<lambda>rs r. r\<lparr>sqRows := rs\<rparr>)),
      (''total'', natPtrField (\<lambda>n r. r\<lparr>sqTotal := n\<rparr>)), (''warnings'', textsField (\<lambda>ts r. r\<lparr>sqWarnings := ts\<rparr>)),
      (''proof'', ptrMember (decodeStruct queryProofFields)
                    \<lparr>qxMerkleProofs = [], qxStateRoot = [], qxBlockHeight = 0, qxEthereumAnchor = None\<rparr>
                    sqProof (\<lambda>p r. r\<lparr>sqProof := p\<rparr>))]"

subsection \<open>Queries\<close>

text \<open>
  What queries run in: the API's requests, what a URL, headers and a body are answered with,
  how a URL's request line is written, and what signs a request.
\<close>

record queryNet =
  qnApi :: apiNet
  qnPost :: "string \<Rightarrow> (string \<times> string) list \<Rightarrow> string \<Rightarrow> httpAnswer"
  qnSpare :: "nat \<Rightarrow> nat"
  qnRequestURI :: "string \<Rightarrow> string"
  qnBasePath :: string
  qnLib :: cryptoLib
  qnRandom :: "bytes option"
  qnNow :: int

datatype indexingFailure =
    NoGraphQLRequest
  | ApiFailed "sdkError option"
  | QueryNotBuilt sdkError
  | QueryNotAnswered sdkError
  | QueryStatus int
  | QueryUndecoded "sdkError decodeError"
  | QueryUnsigned sdkError
  | GraphQLFailed string
  | DataNotDecoded

definition jsonHeader :: "(string \<times> string) list" where
  "jsonHeader = [(''Content-Type'', ''application/json'')]"

text \<open>A post whose answer must be 200 and is decoded under its caps.\<close>

definition postQuery ::
  "queryNet \<Rightarrow> string \<Rightarrow> (string \<times> string) list \<Rightarrow> string \<Rightarrow> 'a fieldReader \<Rightarrow> 'a \<Rightarrow> indexingFailure + 'a" where
  "postQuery w u headers body reader zero =
     (case qnPost w u headers body of
        Unrequested e \<Rightarrow> Inl (QueryNotBuilt e)
      | NoReply e \<Rightarrow> Inl (QueryNotAnswered e)
      | Reply status src \<Rightarrow>
          if status \<noteq> 200 then Inl (QueryStatus status)
          else (case DecodeWithProof (qnSpare w) (readBare reader zero) src Large of
                  Inl e \<Rightarrow> Inl (QueryUndecoded e)
                | Inr x \<Rightarrow> Inr x))"

definition sentGraphQL :: "GraphQLRequest \<Rightarrow> GraphQLRequest" where
  "sentGraphQL req = req\<lparr>gqIncludeProof := Some False\<rparr>"

definition QueryGraphQL ::
  "queryNet \<Rightarrow> ClientState \<Rightarrow> string \<Rightarrow> GraphQLRequest option \<Rightarrow> indexingFailure + GraphQLResponse" where
  "QueryGraphQL w c subgroveID req =
     (case req of
        None \<Rightarrow> Inl NoGraphQLRequest
      | Some r \<Rightarrow>
          let path = ''/graphql/'' @ subgroveID; body = printJson (graphQLJson (sentGraphQL r)) in
          if clIndexerURL c = None then
            (case postBare (qnApi w) path body Large UnmarshalGraphQL zeroGraphQL of
               Inl e \<Rightarrow> Inl (ApiFailed e)
             | Inr x \<Rightarrow> Inr x)
          else postQuery w (IndexerBaseURL c @ path) jsonHeader body UnmarshalGraphQL zeroGraphQL)"

definition ExecuteGraphQL ::
  "queryNet \<Rightarrow> ClientState \<Rightarrow> string \<Rightarrow> string \<Rightarrow> (string \<times> json) list \<Rightarrow> indexingFailure + GraphQLResponse" where
  "ExecuteGraphQL w c subgroveID query variables =
     QueryGraphQL w c subgroveID
       (Some \<lparr>gqQuery = query, gqVariables = variables, gqOperationName = [], gqIncludeProof = None\<rparr>)"

definition ExecuteWithResult ::
  "queryNet \<Rightarrow> ClientState \<Rightarrow> string \<Rightarrow> string \<Rightarrow> (string \<times> json) list \<Rightarrow> 'a fieldReader \<Rightarrow> 'a \<Rightarrow> indexingFailure + 'a" where
  "ExecuteWithResult w c subgroveID query variables reader result =
     bindR (ExecuteGraphQL w c subgroveID query variables) (\<lambda>response.
       case grErrors response of
         e # _ \<Rightarrow> Inl (GraphQLFailed (geMessage e))
       | [] \<Rightarrow>
           (case grData response of
              None \<Rightarrow> Inr result
            | Some v \<Rightarrow> (case reader result v of None \<Rightarrow> Inl DataNotDecoded | Some x \<Rightarrow> Inr x)))"

definition sqlBody :: "string \<Rightarrow> bool \<Rightarrow> string" where
  "sqlBody query includeProof = printJson (JObj [(''query'', JStr query), (''include_proof'', JBool includeProof)])"

definition sqlHeaders ::
  "queryNet \<Rightarrow> ClientState \<Rightarrow> Identity option \<Rightarrow> string \<Rightarrow> string \<Rightarrow> sdkError + (string \<times> string) list" where
  "sqlHeaders w c ident u body =
     (if clIndexerURL c = None then
        bindR (signAPIRequest (qnLib w) (qnRandom w) (qnNow w) ident (qnBasePath w) ''POST'' (qnRequestURI w u) (stringBytes body))
          (\<lambda>hs. Inr (jsonHeader @ hs))
      else Inr jsonHeader)"

definition SqlQuery ::
  "queryNet \<Rightarrow> ClientState \<Rightarrow> Identity option \<Rightarrow> string \<Rightarrow> string \<Rightarrow> bool \<Rightarrow> indexingFailure + SqlResponse" where
  "SqlQuery w c ident subgroveID query includeProof =
     (let body = sqlBody query includeProof; u = IndexerBaseURL c @ ''/sql/'' @ subgroveID in
      case sqlHeaders w c ident u body of
        Inl e \<Rightarrow> Inl (QueryUnsigned e)
      | Inr headers \<Rightarrow>
          postQuery w u headers body (decodeStruct sqlFields)
            \<lparr>sqColumns = [], sqRows = [], sqTotal = None, sqWarnings = [], sqProof = None\<rparr>)"

definition QueryGraphQLUnsupported :: sdkError where
  "QueryGraphQLUnsupported = NewUnsupportedError
     (''Indexing.Query: this SDK can'' @ [CHR 0x27] @ ''t verify a GraphQL answer against the chain; ''
      @ ''QueryUnverified sends the query and returns its answer unverified'')"

subsection \<open>Lists\<close>

record SubgroveInfo =
  siSubgroveID :: string
  siName :: string
  siDescription :: string
  siOwnerDid :: string
  siMode :: string
  siChain :: string
  siIndexerCount :: int
  siStatus :: string
  siLatestBlock :: nat
  siDeploymentBlock :: nat
  siIndexers :: "string list"

definition subgroveInfoFields :: "(string \<times> SubgroveInfo fieldReader) list" where
  "subgroveInfoFields =
     [(''subgrove_id'', strField (\<lambda>t s. s\<lparr>siSubgroveID := t\<rparr>)), (''name'', strField (\<lambda>t s. s\<lparr>siName := t\<rparr>)),
      (''description'', strField (\<lambda>t s. s\<lparr>siDescription := t\<rparr>)), (''owner_did'', strField (\<lambda>t s. s\<lparr>siOwnerDid := t\<rparr>)),
      (''mode'', strField (\<lambda>t s. s\<lparr>siMode := t\<rparr>)), (''chain'', strField (\<lambda>t s. s\<lparr>siChain := t\<rparr>)),
      (''indexer_count'', intField 64 (\<lambda>n s. s\<lparr>siIndexerCount := n\<rparr>)), (''status'', strField (\<lambda>t s. s\<lparr>siStatus := t\<rparr>)),
      (''latest_block'', uintField 64 (\<lambda>n s. s\<lparr>siLatestBlock := n\<rparr>)),
      (''deployment_block'', uintField 64 (\<lambda>n s. s\<lparr>siDeploymentBlock := n\<rparr>)),
      (''indexers'', textsField (\<lambda>ts s. s\<lparr>siIndexers := ts\<rparr>))]"

definition zeroSubgroveInfo :: SubgroveInfo where
  "zeroSubgroveInfo = \<lparr>siSubgroveID = [], siName = [], siDescription = [], siOwnerDid = [], siMode = [], siChain = [],
     siIndexerCount = 0, siStatus = [], siLatestBlock = 0, siDeploymentBlock = 0, siIndexers = []\<rparr>"

definition ListSubgroves :: "apiNet \<Rightarrow> SubgroveInfo list apiResult" where
  "ListSubgroves w =
     getData w ''/subgroves'' (sliceField zeroSubgroveInfo (decodeStruct subgroveInfoFields) (\<lambda>ss _. ss)) []"

definition GetSubgrove :: "apiNet \<Rightarrow> string \<Rightarrow> SubgroveInfo apiResult" where
  "GetSubgrove w subgroveID = getData w (''/subgroves/'' @ subgroveID) (decodeStruct subgroveInfoFields) zeroSubgroveInfo"

text \<open>\<open>score\<close> reads the \<^verbatim>\<open>float64\<close> of an indexer's score.\<close>

definition indexerFields :: "(int \<Rightarrow> json \<Rightarrow> int option) \<Rightarrow> (string \<times> IndexerInfo fieldReader) list" where
  "indexerFields score =
     [(''indexer_did'', strField (\<lambda>t i. i\<lparr>IndexerDID := t\<rparr>)), (''subgroves'', textsField (\<lambda>ts i. i\<lparr>Subgroves := ts\<rparr>)),
      (''stake_amount'', amountField (\<lambda>u i. i\<lparr>StakeAmount := u\<rparr>) StakeAmount),
      (''endpoint'', strField (\<lambda>t i. i\<lparr>Endpoint := t\<rparr>)), (''query_endpoint'', strField (\<lambda>t i. i\<lparr>QueryEndpoint := t\<rparr>)),
      (''status'', strField (\<lambda>t i. i\<lparr>IndexerInfo.Status := t\<rparr>)),
      (''performance_score'', \<lambda>i v. map_option (\<lambda>n. i\<lparr>PerformanceScore := n\<rparr>) (score (PerformanceScore i) v)),
      (''last_update'', uintField 64 (\<lambda>n i. i\<lparr>LastUpdate := of_nat n\<rparr>))]"

definition zeroIndexer :: IndexerInfo where
  "zeroIndexer = \<lparr>IndexerDID = [], Subgroves = [], StakeAmount = NewUint128 0, Endpoint = [], QueryEndpoint = [],
     Status = [], PerformanceScore = 0, LastUpdate = 0\<rparr>"

definition ListAllIndexers :: "apiNet \<Rightarrow> (int \<Rightarrow> json \<Rightarrow> int option) \<Rightarrow> IndexerInfo list apiResult" where
  "ListAllIndexers w score =
     getData w ''/indexers'' (sliceField zeroIndexer (decodeStruct (indexerFields score)) (\<lambda>is _. is)) []"

definition GetIndexer :: "apiNet \<Rightarrow> (int \<Rightarrow> json \<Rightarrow> int option) \<Rightarrow> string \<Rightarrow> IndexerInfo apiResult" where
  "GetIndexer w score indexerID = getData w (''/indexers/'' @ indexerID) (decodeStruct (indexerFields score)) zeroIndexer"

definition GetIndexerStatusUnsupported :: sdkError where
  "GetIndexerStatusUnsupported = NewUnsupportedError
     (''GetIndexerStatus: the API serves no per-subgrove indexer status route; GetIndexer reads an indexer, ''
      @ ''with the subgroves it serves and its status'')"

subsection \<open>The builder\<close>

definition NewGraphQLQuery :: "string \<Rightarrow> GraphQLRequest" where
  "NewGraphQLQuery query = \<lparr>gqQuery = query, gqVariables = [], gqOperationName = [], gqIncludeProof = None\<rparr>"

definition Variable :: "string \<Rightarrow> json \<Rightarrow> GraphQLRequest \<Rightarrow> GraphQLRequest" where
  "Variable name v b = b\<lparr>gqVariables := AList.update name v (gqVariables b)\<rparr>"

definition Variables :: "(string \<times> json) list \<Rightarrow> GraphQLRequest \<Rightarrow> GraphQLRequest" where
  "Variables vars b = fold (\<lambda>(k, v). Variable k v) vars b"

definition OperationName :: "string \<Rightarrow> GraphQLRequest \<Rightarrow> GraphQLRequest" where
  "OperationName name b = b\<lparr>gqOperationName := name\<rparr>"

definition AskForProof :: "GraphQLRequest \<Rightarrow> GraphQLRequest" where
  "AskForProof b = b\<lparr>gqIncludeProof := Some True\<rparr>"

subsection \<open>Lemmas\<close>

lemma sentGraphQL_no_proof: "\<exists>ms. graphQLJson (sentGraphQL r) = JObj ms \<and> map_of ms ''include_proof'' = Some (JBool False)
    \<and> map_of ms ''query'' = Some (JStr (gqQuery r))"
  by (simp add: graphQLJson_def sentGraphQL_def)

lemma Variables_lookup: "map_of (gqVariables (Variables vars b)) = map_of (gqVariables b) ++ map_of (rev vars)"
  unfolding Variables_def
proof (induction vars arbitrary: b)
  case (Cons kv vars)
  have "map_of (gqVariables (Variable (fst kv) (snd kv) b)) = (map_of (gqVariables b))(fst kv \<mapsto> snd kv)"
    by (simp add: Variable_def update_conv')
  then show ?case using Cons by (cases kv) (simp add: map_add_upd_left [symmetric] fun_eq_iff map_add_def split: option.splits)
qed simp

lemma sqlHeaders_indexer: "clIndexerURL c \<noteq> None \<Longrightarrow> sqlHeaders w c ident u body = Inr jsonHeader"
  by (simp add: sqlHeaders_def del: not_None_eq)

lemma postQuery_same:
  assumes "qnSpare w = qnSpare w'" and "\<forall>u body. qnPost w u jsonHeader body = qnPost w' u jsonHeader body"
  shows "postQuery w u jsonHeader body reader zero = postQuery w' u jsonHeader body reader zero"
  unfolding postQuery_def assms(1) using assms(2) by simp

subsection \<open>Properties\<close>

text \<open>
  With an indexer configured, what a GraphQL or an SQL query returns depends only on what
  plain posts, with no header but the content type, are answered with: not on the client's
  identity, its signing, the API, or what a post with any other header would be answered
  with.
\<close>

lemma indexer_query_plain:
  assumes "clIndexerURL c \<noteq> None" and "qnSpare w = qnSpare w'"
    and "\<forall>u body. qnPost w u jsonHeader body = qnPost w' u jsonHeader body"
  shows "SqlQuery w c ident subgroveID query includeProof = SqlQuery w' c ident' subgroveID query includeProof
    \<and> QueryGraphQL w c subgroveID req = QueryGraphQL w' c subgroveID req"
proof -
  note same = postQuery_same [OF assms(2,3)]
  have "SqlQuery w c ident subgroveID query includeProof = SqlQuery w' c ident' subgroveID query includeProof"
    by (simp add: SqlQuery_def sqlHeaders_indexer [OF assms(1)] Let_def same)
  moreover have "QueryGraphQL w c subgroveID req = QueryGraphQL w' c subgroveID req"
    using assms(1) by (simp add: QueryGraphQL_def Let_def same del: not_None_eq split: option.split)
  ultimately show ?thesis by blast
qed

subsection \<open>Witnesses\<close>

definition headerNet :: "httpAnswer \<Rightarrow> queryNet" where
  "headerNet other =
     \<lparr>qnApi = oneAnswer [], qnPost = \<lambda>u headers body. if headers = jsonHeader then Reply 503 \<lparr>chunks = [], ending = EOF\<rparr> else other,
      qnSpare = \<lambda>n. 0, qnRequestURI = id, qnBasePath = [], qnLib = stubLib, qnRandom = None, qnNow = 0\<rparr>"

lemma sample_header_nets:
  "qnSpare (headerNet a) = qnSpare (headerNet b)"
  "\<forall>u body. qnPost (headerNet a) u jsonHeader body = qnPost (headerNet b) u jsonHeader body"
  by (simp_all add: headerNet_def)

lemma sample_indexer: "clIndexerURL sampleCompletenessClient \<noteq> None"
  by (simp add: sampleCompletenessClient_def)

lemma indexer_query_plain_sample:
  "SqlQuery (headerNet (NoReply ErrNotAuthenticated)) sampleCompletenessClient (Some sampleSigner) ''s'' ''q'' True
     = Inl (QueryStatus 503)"
proof -
  have "SqlQuery (headerNet (NoReply ErrNotAuthenticated)) sampleCompletenessClient (Some sampleSigner) ''s'' ''q'' True
      = SqlQuery (headerNet (Reply 200 \<lparr>chunks = [], ending = EOF\<rparr>)) sampleCompletenessClient None ''s'' ''q'' True"
    using indexer_query_plain [OF sample_indexer sample_header_nets] by blast
  then show ?thesis
    by (simp add: SqlQuery_def sqlHeaders_indexer [OF sample_indexer] postQuery_def headerNet_def)
qed

end
