(* ===== verification/Spec2Isabelle.thy ===== *)
theory Spec2Isabelle
  imports Prelude Nonces Uint128 HttpBody Sha256 Merk GroveDB EthState SignedMessages Writes
    LightClient Json RegisterSubgrove RegisterMessage Files Errors Client Auth Routing Subscriptions
    JsonText Completeness Wire Manifest Schema Transactions Account Data Grants Rpc Agents Reads Indexing
begin

text \<open>
  A verification library for the Willow Go SDK (\<^verbatim>\<open>src/\<close>), the client of a chain that stores
  data, files and indexed blockchain events in ``subgroves''.

  \<^bold>\<open>The program.\<close>  A \<^verbatim>\<open>Client\<close> (\<^verbatim>\<open>client.go\<close>) talks JSON over HTTP to an API node.  What it
  writes is a transaction signed over a text (\<^verbatim>\<open>signed_messages.go\<close>) or over the bincode of a
  registration (\<^verbatim>\<open>consensus/register_subgrove.go\<close>), submitted under a nonce the client's
  allocator gives out (\<^verbatim>\<open>nonces.go\<close>).  What it reads comes with proofs: Merk and GroveDB
  proofs of a state root (\<^verbatim>\<open>grovedb/\<close>), Merkle-Patricia proofs of Ethereum state
  (\<^verbatim>\<open>eth_state.go\<close>), the chunk hashes of a file (\<^verbatim>\<open>files.go\<close>), the events commitment of a block
  (\<^verbatim>\<open>completeness.go\<close>), and headers a light client follows (\<^verbatim>\<open>lightclient/\<close>).  Queries of indexed
  data go to an indexer or to the validators (\<^verbatim>\<open>indexers.go\<close>, \<^verbatim>\<open>indexing.go\<close>).  Every answer is read under a cap and its JSON counted before it
  is decoded (\<^verbatim>\<open>internal/httpbody\<close>).

  \<^bold>\<open>The theories.\<close>
  \<^item> \<^verbatim>\<open>Prelude\<close>: bytes, strings and fallible calls; hex, decimal, UTF-8, big-endian; the
    interfaces \<^verbatim>\<open>prefix_free\<close> (an encoding that can be read off the front of a stream) and
    \<^verbatim>\<open>invariant_system\<close> (a transition system with an invariant).
  \<^item> \<^verbatim>\<open>Nonces\<close> (\<^verbatim>\<open>nonces.go\<close>, the allocator): the window above an account's base, claims,
    holds and settlement, as functions on a record of accounts, and a step relation for any
    interleaving of writers, with a ghost multiset of the submissions in flight.  The lemmas
    show that no two writers are given one nonce, that a held nonce is not handed out, that
    \<^verbatim>\<open>take\<close> returns the least free nonce, and that what is known used stays used.
  \<^item> \<^verbatim>\<open>Writes\<close> (\<^verbatim>\<open>nonces.go\<close>, the write path, and \<^verbatim>\<open>postTx\<close> of \<^verbatim>\<open>client.go\<close>): one signed
    write against the answer of the node, what it submits, how it settles its nonce and what
    it reports; it refines the step relation of \<^verbatim>\<open>Nonces\<close>.
  \<^item> \<^verbatim>\<open>Uint128\<close> (\<^verbatim>\<open>consensus/uint128.go\<close>): a pair of 64-bit words, read and printed in decimal.
  \<^item> \<^verbatim>\<open>HttpBody\<close> (\<^verbatim>\<open>internal/httpbody\<close>): the capped reader under any split of the body into
    reads, and the scan that counts JSON, against a reference count of tokens.
  \<^item> \<^verbatim>\<open>Json\<close>: the part of \<^verbatim>\<open>encoding/json\<close> the SDK's own code steps through (its decoder with
    numbers kept as text, and its writer), as the strict readers of the SDK use it.
  \<^item> \<^verbatim>\<open>Sha256\<close>: FIPS 180-4, executable; \<^verbatim>\<open>Merk\<close> and \<^verbatim>\<open>GroveDB\<close> (\<^verbatim>\<open>grovedb/\<close>): the decoder
    and stack machine of Merk proofs, the layered envelope, and the walk along a path.
  \<^item> \<^verbatim>\<open>EthState\<close> (\<^verbatim>\<open>eth_state.go\<close>, \<^verbatim>\<open>eth_state_helpers.go\<close>): RLP, the trie walk, the checks
    of an answer.  Keccak-256 is a library's and an argument.
  \<^item> \<^verbatim>\<open>SignedMessages\<close> (\<^verbatim>\<open>signed_messages.go\<close>): the texts signed; \<^verbatim>\<open>RegisterSubgrove\<close>
    (\<^verbatim>\<open>consensus/register_subgrove.go\<close>): the strict reading of a registration's JSON and its
    bincode, against a specification of what the chain encodes; \<^verbatim>\<open>RegisterMessage\<close>: the
    registration as the SDK holds it, its JSON and its signed text.
  \<^item> \<^verbatim>\<open>LightClient\<close> (\<^verbatim>\<open>lightclient/\<close>): the checks of a header, the sync over endpoints, and the
    state kept; a step relation with the invariant that the trusted height never falls.
  \<^item> \<^verbatim>\<open>Files\<close> (\<^verbatim>\<open>files.go\<close>): chunks, the Merkle root, uploads and downloads; what an upload
    stores a download gives back, and what a download gives is what the manifest describes.
  \<^item> \<^verbatim>\<open>Errors\<close> (\<^verbatim>\<open>errors.go\<close>): the errors and the predicates along a chain of wrapped errors;
    \<^verbatim>\<open>Client\<close> (\<^verbatim>\<open>client.go\<close>): options, the API key and the origins it is sent to, retries against
    a reference scan, and the envelope of an answer; \<^verbatim>\<open>Auth\<close> (\<^verbatim>\<open>auth.go\<close>, \<^verbatim>\<open>devnet.go\<close>): key
    pairs, DIDs, and the text signed for a request.
  \<^item> \<^verbatim>\<open>JsonText\<close>: what the writer of \<^verbatim>\<open>Json\<close> prints, the reader reads back; \<^verbatim>\<open>Wire\<close>: the same
    for the members of a struct.  Every round trip of a struct below rests on the two.
  \<^item> \<^verbatim>\<open>Completeness\<close> (\<^verbatim>\<open>completeness.go\<close>, \<^verbatim>\<open>completeness_fetch.go\<close>): the events commitment and
    the check of an indexer's logs against it.
  \<^item> \<^verbatim>\<open>Routing\<close> (\<^verbatim>\<open>indexers.go\<close>, \<^verbatim>\<open>routeQuery\<close>): the cache of indexers and the backend of a query;
    \<^verbatim>\<open>Subscriptions\<close> (\<^verbatim>\<open>subscriptions.go\<close>): the handshake, the pump of frames and reconnects.
  \<^item> \<^verbatim>\<open>Manifest\<close> (\<^verbatim>\<open>manifest.go\<close>) and \<^verbatim>\<open>Schema\<close> (\<^verbatim>\<open>schema.go\<close>): the checks of what a registration
    carries, how it is written for the chain and read back.
  \<^item> \<^verbatim>\<open>Transactions\<close> (\<^verbatim>\<open>data.go\<close>, \<^verbatim>\<open>registration.go\<close>, \<^verbatim>\<open>privacy.go\<close>): the signed transactions, over
    the write path of \<^verbatim>\<open>Writes\<close> and the texts of \<^verbatim>\<open>SignedMessages\<close>; \<^verbatim>\<open>Grants\<close>
    (\<^verbatim>\<open>consensus/privacy.go\<close>, \<^verbatim>\<open>privacy.go\<close>): the JSON of a private subgrove and its key grants.
  \<^item> \<^verbatim>\<open>Account\<close> (\<^verbatim>\<open>token.go\<close>, \<^verbatim>\<open>validators.go\<close>), \<^verbatim>\<open>Data\<close> (\<^verbatim>\<open>data.go\<close>, \<^verbatim>\<open>computed_fields.go\<close>),
    \<^verbatim>\<open>Reads\<close> (the builders, checkpoints and reads of \<^verbatim>\<open>data.go\<close> and \<^verbatim>\<open>registration.go\<close>) and
    \<^verbatim>\<open>Indexing\<close> (\<^verbatim>\<open>indexing.go\<close>): the reads through the API, from the request to the typed answer.
  \<^item> \<^verbatim>\<open>Rpc\<close> (\<^verbatim>\<open>consensus/client.go\<close>): the JSON-RPC client of a consensus node; \<^verbatim>\<open>Agents\<close>
    (\<^verbatim>\<open>erc8004/erc8004.go\<close>): the routes of the agent registry and their escaping.

  \<^bold>\<open>Conventions.\<close>  Definitions carry the names of the Go functions.  A Go function that
  returns an error is a value of a sum type, its errors a datatype whose constructors carry
  what the message carries.  Integers have their Go width (\<^verbatim>\<open>uint64\<close> is a 64-bit word) or are
  \<open>int\<close> with the wrap-around written out; lengths are \<open>nat\<close>.  State is passed explicitly; the
  answer of a node, the clock and the work of other goroutines are arguments, so a theorem
  holds for every answer, time and interleaving.

  \<^bold>\<open>Bounds and fuel.\<close>  Loops are structural recursions or have a termination proof.
  \<^verbatim>\<open>decodeLayerProof\<close> recurses on the number of levels left, which is the code's own bound
  on nesting (\<^verbatim>\<open>maxLayerDepth\<close>), and the JSON reader on the nesting left
  (\<^verbatim>\<open>encoding/json\<close>'s 10000); \<^verbatim>\<open>trimWith\<close> takes the length of the text, which each step
  shortens.  The attempts of a retry and the turns of a subscription are lists or counts the
  caller gives.

  \<^bold>\<open>Hypotheses.\<close>  Two kinds of theorem name one: where a hash binds what it hashes, that the
  inputs hashed do not collide; and where a library is an argument, what its documentation
  says of it.

  \<^bold>\<open>Not modelled.\<close>  Sockets, TLS, websockets, goroutines, contexts and timers beyond their
  effect on the calls above; the ciphers, curves and hash functions other than SHA-256, which
  are arguments; how errors are printed where no decision depends on it.  Where a struct has
  times (the header of a block) or \<^verbatim>\<open>float64\<close> fields (an agent's reputation) its reader is an
  argument, and the predefined computed fields, which are \<^verbatim>\<open>float64\<close> arithmetic, are any
  functions.  \<^verbatim>\<open>Files.List\<close>, structs nothing in the SDK reads or writes, the one-line wrappers
  of \<^verbatim>\<open>utils.go\<close> and the example programs are left out.
\<close>

end
